(* ===== verification/Prelude.thy ===== *)
theory Prelude
  imports Main "HOL-Library.Word"
begin

unbundle bit_operations_syntax

text \<open>
  Shared vocabulary of the development: the machine types, the result of a Rust
  computation (a value, an \<open>Err\<close>, or a panic), sequencing with and without state, the
  slice and array accesses that panic out of range, loops over ranges, and the
  little-endian byte encodings of \<open>u64\<close> (\<open>to_le_bytes\<close>, \<open>from_le_bytes\<close>) with their
  round trips. The kernel is built in the debug profile (\<open>Makefile\<close>), so an overflowing
  addition or subtraction panics. Heap exhaustion is not modelled.
\<close>

named_theorems run_simps \<open>unfolding rules for sequenced computations\<close>
named_theorems slice_simps \<open>slices and in-place copies that stay in range\<close>

section \<open>Machine types\<close>

type_synonym u8 = "8 word"
type_synonym u16 = "16 word"
type_synonym u32 = "32 word"
type_synonym u64 = "64 word"

text \<open>
  \<open>usize\<close> is 64 bits wide on x86-64. Lengths, indices and positions are natural numbers;
  \<open>usize_add\<close> and \<open>usize_sub\<close> are the checked operations of the debug profile.
\<close>

abbreviation usize_max :: nat where
  "usize_max \<equiv> 2 ^ 64 - 1"

section \<open>Results and panics\<close>

datatype ('e, 'a) outcome = Ok 'a | Err 'e | Panic

fun is_ok :: "('e, 'a) outcome \<Rightarrow> bool" where
  "is_ok (Ok _) = True"
| "is_ok _ = False"

fun is_err :: "('e, 'a) outcome \<Rightarrow> bool" where
  "is_err (Err _) = True"
| "is_err _ = False"

fun obind :: "('e, 'a) outcome \<Rightarrow> ('a \<Rightarrow> ('e, 'b) outcome) \<Rightarrow> ('e, 'b) outcome" where
  "obind (Ok x) f = f x"
| "obind (Err e) f = Err e"
| "obind Panic f = Panic"

fun map_err :: "('e \<Rightarrow> 'f) \<Rightarrow> ('e, 'a) outcome \<Rightarrow> ('f, 'a) outcome" where
  "map_err g (Ok x) = Ok x"
| "map_err g (Err e) = Err (g e)"
| "map_err g Panic = Panic"

text \<open>\<open>unwrap\<close> and \<open>expect\<close>: an \<open>Err\<close> becomes a panic.\<close>

fun expect :: "('e, 'a) outcome \<Rightarrow> ('f, 'a) outcome" where
  "expect (Ok x) = Ok x"
| "expect (Err e) = Panic"
| "expect Panic = Panic"

fun ok_or :: "'e \<Rightarrow> 'a option \<Rightarrow> ('e, 'a) outcome" where
  "ok_or e None = Err e"
| "ok_or e (Some x) = Ok x"

lemma obind_eq_Ok [simp]: "obind m f = Ok y \<longleftrightarrow> (\<exists>x. m = Ok x \<and> f x = Ok y)"
  by (cases m) auto

lemma obind_Ok_right [simp]: "obind m Ok = m"
  by (cases m) auto

lemma obind_assoc: "obind (obind m f) g = obind m (\<lambda>x. obind (f x) g)"
  by (cases m) auto

lemma map_err_eq_Ok [simp]: "map_err g m = Ok x \<longleftrightarrow> m = Ok x"
  by (cases m) auto

lemma expect_eq_Ok [simp]: "expect m = Ok x \<longleftrightarrow> m = Ok x"
  by (cases m) auto

section \<open>Stateful computations\<close>

text \<open>
  A method with \<open>&mut self\<close> returns its result and the state it leaves, also when it
  returns \<open>Err\<close> half way: the mutations made before the early return stay.
\<close>

type_synonym ('s, 'e, 'a) prog = "'s \<Rightarrow> ('e, 'a) outcome \<times> 's"

definition ret :: "'a \<Rightarrow> ('s, 'e, 'a) prog" where
  "ret x s = (Ok x, s)"

definition throw :: "'e \<Rightarrow> ('s, 'e, 'a) prog" where
  "throw e s = (Err e, s)"

definition panic :: "('s, 'e, 'a) prog" where
  "panic s = (Panic, s)"

definition bind :: "('s, 'e, 'a) prog \<Rightarrow> ('a \<Rightarrow> ('s, 'e, 'b) prog) \<Rightarrow> ('s, 'e, 'b) prog" where
  "bind m f s = (case m s of
      (Ok x, s') \<Rightarrow> f x s'
    | (Err e, s') \<Rightarrow> (Err e, s')
    | (Panic, s') \<Rightarrow> (Panic, s'))"

text \<open>\<open>reads f\<close> is a call that only reads the state; \<open>modify f\<close> an infallible update.\<close>

definition reads :: "('s \<Rightarrow> ('e, 'a) outcome) \<Rightarrow> ('s, 'e, 'a) prog" where
  "reads f s = (f s, s)"

definition modify :: "('s \<Rightarrow> 's) \<Rightarrow> ('s, 'e, unit) prog" where
  "modify f s = (Ok (), f s)"

definition map_err_prog :: "('e \<Rightarrow> 'f) \<Rightarrow> ('s, 'e, 'a) prog \<Rightarrow> ('s, 'f, 'a) prog" where
  "map_err_prog g m s = (case m s of (r, s') \<Rightarrow> (map_err g r, s'))"

definition expect_prog :: "('s, 'e, 'a) prog \<Rightarrow> ('s, 'f, 'a) prog" where
  "expect_prog m s = (case m s of (r, s') \<Rightarrow> (expect r, s'))"

lemmas prog_defs [run_simps] =
  ret_def throw_def panic_def reads_def modify_def map_err_prog_def expect_prog_def bind_def

lemma bind_Ok: "m s = (Ok x, s') \<Longrightarrow> bind m f s = f x s'"
  by (simp add: bind_def)

lemma bind_Err: "m s = (Err e, s') \<Longrightarrow> bind m f s = (Err e, s')"
  by (simp add: bind_def)

lemma bind_Panic: "m s = (Panic, s') \<Longrightarrow> bind m f s = (Panic, s')"
  by (simp add: bind_def)

lemma bind_eq_Ok:
  "bind m f s = (Ok y, t) \<longleftrightarrow> (\<exists>x s'. m s = (Ok x, s') \<and> f x s' = (Ok y, t))"
  by (auto simp: bind_def split: prod.splits outcome.splits)

lemma bind_reads: "bind (reads f) g s = (case f s of
    Ok x \<Rightarrow> g x s | Err e \<Rightarrow> (Err e, s) | Panic \<Rightarrow> (Panic, s))"
  by (simp add: bind_def reads_def)

lemma bind_modify [simp]: "bind (modify f) g s = g () (f s)"
  by (simp add: bind_def modify_def)

lemma bind_ret [simp]: "bind (ret x) f = f x"
  by (rule ext) (simp add: bind_def ret_def)

text \<open>An invariant of the state is kept by a sequence when both parts keep it.\<close>

definition keeps :: "('s \<Rightarrow> bool) \<Rightarrow> ('s, 'e, 'a) prog \<Rightarrow> bool" where
  "keeps I m \<longleftrightarrow> (\<forall>s. I s \<longrightarrow> I (snd (m s)))"

lemma keepsI: "(\<And>s. I s \<Longrightarrow> I (snd (m s))) \<Longrightarrow> keeps I m"
  by (simp add: keeps_def)

lemma keepsD: "keeps I m \<Longrightarrow> I s \<Longrightarrow> I (snd (m s))"
  by (simp add: keeps_def)

lemma keeps_bind [intro]:
  assumes "keeps I m" and "\<And>x. keeps I (f x)"
  shows "keeps I (bind m f)"
proof (rule keepsI)
  fix s assume s: "I s"
  obtain r s' where ms: "m s = (r, s')" by (cases "m s")
  have "I s'" using keepsD [OF assms(1) s] ms by simp
  then show "I (snd (bind m f s))"
    using ms keepsD [OF assms(2)] by (cases r) (auto simp: bind_def)
qed

lemma keeps_reads [intro]: "keeps I (reads f)"
  and keeps_ret [intro]: "keeps I (ret x)"
  and keeps_throw [intro]: "keeps I (throw e)"
  and keeps_panic [intro]: "keeps I panic"
  by (simp_all add: keeps_def prog_defs)

lemma keeps_modify: "(\<And>s. I s \<Longrightarrow> I (f s)) \<Longrightarrow> keeps I (modify f)"
  by (simp add: keeps_def modify_def)

text \<open>A \<open>for\<close> loop over the elements of a range, leaving at the first \<open>Err\<close> or panic.\<close>

fun for_each :: "('x \<Rightarrow> ('s, 'e, unit) prog) \<Rightarrow> 'x list \<Rightarrow> ('s, 'e, unit) prog" where
  "for_each body [] s = (Ok (), s)"
| "for_each body (x # xs) s = bind (body x) (\<lambda>_. for_each body xs) s"

text \<open>The same loop carrying a local variable of the function.\<close>

fun for_acc :: "('x \<Rightarrow> 'v \<Rightarrow> ('s, 'e, 'v) prog) \<Rightarrow> 'x list \<Rightarrow> 'v \<Rightarrow> ('s, 'e, 'v) prog" where
  "for_acc body [] v s = (Ok v, s)"
| "for_acc body (x # xs) v s = bind (body x v) (\<lambda>v'. for_acc body xs v') s"

lemma keeps_for_each: "(\<And>x. x \<in> set xs \<Longrightarrow> keeps I (body x)) \<Longrightarrow> keeps I (for_each body xs)"
proof (induction xs)
  case Nil
  show ?case by (simp add: keeps_def)
next
  case (Cons x xs)
  have "keeps I (bind (body x) (\<lambda>_. for_each body xs))"
    using Cons by (intro keeps_bind) auto
  then show ?case by (simp add: keeps_def)
qed

lemma keeps_for_acc: "(\<And>x v. x \<in> set xs \<Longrightarrow> keeps I (body x v)) \<Longrightarrow> keeps I (for_acc body xs v)"
proof (induction xs arbitrary: v)
  case Nil
  show ?case by (simp add: keeps_def)
next
  case (Cons x xs)
  have "keeps I (bind (body x v) (\<lambda>v'. for_acc body xs v'))"
    using Cons by (intro keeps_bind) auto
  then show ?case by (simp add: keeps_def)
qed

lemma for_each_append:
  "for_each body (xs @ ys) s = bind (for_each body xs) (\<lambda>_. for_each body ys) s"
  by (induction xs arbitrary: s) (auto simp: bind_def split: prod.splits outcome.splits)

text \<open>
  The loop rule: a predicate on the number of iterations done and the state, kept by
  each iteration, which also succeeds.
\<close>

lemma for_each_upt:
  assumes start: "P a s" and ab: "a \<le> b"
    and step: "\<And>i s. a \<le> i \<Longrightarrow> i < b \<Longrightarrow> P i s \<Longrightarrow> \<exists>s'. body i s = (Ok (), s') \<and> P (Suc i) s'"
  shows "\<exists>s'. for_each body [a..<b] s = (Ok (), s') \<and> P b s'"
  using ab start step
proof (induction "b - a" arbitrary: a s)
  case 0
  then show ?case by simp
next
  case (Suc n)
  then have lt: "a < b" by simp
  obtain s1 where s1: "body a s = (Ok (), s1)" "P (Suc a) s1"
    using Suc.prems lt by blast
  have "\<exists>s'. for_each body [Suc a..<b] s1 = (Ok (), s') \<and> P b s'"
    using Suc.hyps(2) Suc.prems lt s1 by (intro Suc.hyps(1)) auto
  then show ?case using lt s1 by (simp add: upt_conv_Cons bind_Ok)
qed

lemma for_acc_upt:
  assumes start: "P a v s" and ab: "a \<le> b"
    and step: "\<And>i v s. a \<le> i \<Longrightarrow> i < b \<Longrightarrow> P i v s \<Longrightarrow>
      \<exists>v' s'. body i v s = (Ok v', s') \<and> P (Suc i) v' s'"
  shows "\<exists>v' s'. for_acc body [a..<b] v s = (Ok v', s') \<and> P b v' s'"
  using ab start step
proof (induction "b - a" arbitrary: a v s)
  case 0
  then show ?case by simp
next
  case (Suc n)
  then have lt: "a < b" by simp
  obtain v1 s1 where s1: "body a v s = (Ok v1, s1)" "P (Suc a) v1 s1"
    using Suc.prems lt by blast
  have "\<exists>v' s'. for_acc body [Suc a..<b] v1 s1 = (Ok v', s') \<and> P b v' s'"
    using Suc.hyps(2) Suc.prems lt s1 by (intro Suc.hyps(1)) auto
  then show ?case using lt s1 by (simp add: upt_conv_Cons bind_Ok)
qed

section \<open>Arithmetic that panics on overflow\<close>

definition usize_add :: "nat \<Rightarrow> nat \<Rightarrow> ('e, nat) outcome" where
  "usize_add a b = (if a + b \<le> usize_max then Ok (a + b) else Panic)"

definition usize_sub :: "nat \<Rightarrow> nat \<Rightarrow> ('e, nat) outcome" where
  "usize_sub a b = (if b \<le> a then Ok (a - b) else Panic)"

section \<open>Arrays and slices\<close>

text \<open>\<open>xs[i]\<close>, \<open>xs[i] = v\<close>, \<open>xs[a..b]\<close> and \<open>xs[a..b].copy_from_slice(ys)\<close>.\<close>

definition index :: "'a list \<Rightarrow> nat \<Rightarrow> ('e, 'a) outcome" where
  "index xs i = (if i < length xs then Ok (xs ! i) else Panic)"

definition index_set :: "'a list \<Rightarrow> nat \<Rightarrow> 'a \<Rightarrow> ('e, 'a list) outcome" where
  "index_set xs i v = (if i < length xs then Ok (xs[i := v]) else Panic)"

definition slice :: "'a list \<Rightarrow> nat \<Rightarrow> nat \<Rightarrow> ('e, 'a list) outcome" where
  "slice xs a b = (if a \<le> b \<and> b \<le> length xs then Ok (take (b - a) (drop a xs)) else Panic)"

definition splice :: "'a list \<Rightarrow> nat \<Rightarrow> 'a list \<Rightarrow> 'a list" where
  "splice xs a ys = take a xs @ ys @ drop (a + length ys) xs"

definition copy_from_slice :: "'a list \<Rightarrow> nat \<Rightarrow> nat \<Rightarrow> 'a list \<Rightarrow> ('e, 'a list) outcome" where
  "copy_from_slice xs a b ys =
     (if a \<le> b \<and> b \<le> length xs \<and> length ys = b - a then Ok (splice xs a ys) else Panic)"

text \<open>\<open>Vec::resize\<close>.\<close>

definition resize :: "'a list \<Rightarrow> nat \<Rightarrow> 'a \<Rightarrow> 'a list" where
  "resize xs n v = take n xs @ replicate (n - length xs) v"

lemma length_splice [simp]: "a + length ys \<le> length xs \<Longrightarrow> length (splice xs a ys) = length xs"
  by (simp add: splice_def)

lemma splice_full: "length ys = length xs \<Longrightarrow> splice xs 0 ys = ys"
  by (simp add: splice_def)

lemma copy_from_slice_full [slice_simps]:
  "length ys = length xs \<Longrightarrow> n = length ys \<Longrightarrow> copy_from_slice xs 0 n ys = Ok ys"
  by (simp add: copy_from_slice_def splice_def)

lemma index_ok [slice_simps]: "i < length xs \<Longrightarrow> index xs i = Ok (xs ! i)"
  by (simp add: index_def)

lemma index_set_ok [slice_simps]: "i < length xs \<Longrightarrow> index_set xs i v = Ok (xs[i := v])"
  by (simp add: index_set_def)

lemma length_resize [simp]: "length (resize xs n v) = n"
  by (simp add: resize_def)

lemma resize_grow: "length xs \<le> n \<Longrightarrow> resize xs n v = xs @ replicate (n - length xs) v"
  by (simp add: resize_def)

lemma take_drop_splice:
  assumes "a + length ys \<le> length xs"
  shows "take (length ys) (drop a (splice xs a ys)) = ys"
  using assms by (simp add: splice_def)

lemma take_drop_splice_other:
  assumes "a + length ys \<le> length xs" and "b + n \<le> a \<or> a + length ys \<le> b"
  shows "take n (drop b (splice xs a ys)) = take n (drop b xs)"
proof (rule nth_equalityI)
  have len: "length (splice xs a ys) = length xs" using assms(1) by simp
  show "length (take n (drop b (splice xs a ys))) = length (take n (drop b xs))"
    by (simp add: len)
  fix i assume i: "i < length (take n (drop b (splice xs a ys)))"
  then have bi: "i < n" "b + i < length xs" using len by auto
  show "take n (drop b (splice xs a ys)) ! i = take n (drop b xs) ! i"
    using assms bi len by (auto simp: splice_def nth_append)
qed

section \<open>Little-endian bytes\<close>

definition to_le_bytes :: "u64 \<Rightarrow> u8 list" where
  "to_le_bytes w = map (\<lambda>k. ucast (drop_bit (8 * k) w)) [0..<8]"

definition from_le_bytes :: "u8 list \<Rightarrow> u64" where
  "from_le_bytes bs = word_of_int (horner_sum uint (2 ^ 8) bs)"

lemma length_to_le_bytes [simp]: "length (to_le_bytes w) = 8"
  by (simp add: to_le_bytes_def)

lemma bit_from_le_bytes:
  "bit (from_le_bytes bs) n \<longleftrightarrow> n < 64 \<and> n div 8 < length bs \<and> bit (bs ! (n div 8)) (n mod 8)"
proof -
  have "bit (horner_sum uint (2 ^ 8) bs) n \<longleftrightarrow> n div 8 < length bs \<and> bit (bs ! (n div 8)) (n mod 8)"
    using bit_horner_sum_uint_exp_iff [of bs n] by simp
  then show ?thesis by (simp add: from_le_bytes_def bit_word_of_int_iff)
qed

lemma from_to_le_bytes [simp]: "from_le_bytes (to_le_bytes w) = w"
proof (rule bit_word_eqI)
  fix n assume n: "n < LENGTH(64)"
  have "bit (to_le_bytes w ! (n div 8)) (n mod 8) \<longleftrightarrow> bit w n"
    using n by (auto simp: to_le_bytes_def bit_simps)
  then show "bit (from_le_bytes (to_le_bytes w)) n \<longleftrightarrow> bit w n"
    using n by (simp add: bit_from_le_bytes div_less_iff_less_mult)
qed

lemma to_from_le_bytes:
  assumes "length bs = 8"
  shows "to_le_bytes (from_le_bytes bs) = bs"
proof (rule nth_equalityI)
  show "length (to_le_bytes (from_le_bytes bs)) = length bs" by (simp add: assms)
  fix k assume "k < length (to_le_bytes (from_le_bytes bs))"
  then have k: "k < 8" by simp
  show "to_le_bytes (from_le_bytes bs) ! k = bs ! k"
  proof (rule bit_word_eqI)
    fix n assume n: "n < LENGTH(8)"
    then show "bit (to_le_bytes (from_le_bytes bs) ! k) n \<longleftrightarrow> bit (bs ! k) n"
      using k assms by (auto simp: to_le_bytes_def bit_simps bit_from_le_bytes)
  qed
qed

section \<open>Strings\<close>

text \<open>
  A Rust string is its UTF-8 bytes, one \<open>char\<close> of HOL per byte; \<open>as_bytes\<close> reads them.
\<close>

definition as_bytes :: "string \<Rightarrow> u8 list" where
  "as_bytes s = map of_char s"

lemma length_as_bytes [simp]: "length (as_bytes s) = length s"
  by (simp add: as_bytes_def)

lemma unat_of_char: "unat (of_char c :: u8) = of_char c"
proof -
  have "unat (word_of_nat (of_char c) :: u8) = of_char c"
    by (simp add: unat_of_nat)
  then show ?thesis by (simp only: of_nat_of_char)
qed

fun starts_with :: "string \<Rightarrow> string \<Rightarrow> bool" where
  "starts_with s [] = True"
| "starts_with [] (c # cs) = False"
| "starts_with (x # xs) (c # cs) = (x = c \<and> starts_with xs cs)"

lemma starts_with_iff: "starts_with s p \<longleftrightarrow> (\<exists>t. s = p @ t)"
  by (induction s p rule: starts_with.induct) auto

end
