(* ===== verification/File_Types.thy ===== *)
theory File_Types
  imports Prelude
begin

text \<open>
  \<open>kernel/src/internal/file.rs\<close> and the error codes of
  \<open>kernel/src/internal/syscall/mod.rs\<close>: the filesystem and file errors, their
  conversions to POSIX error numbers, the open flags and the poll events, and
  \<open>canonicalise\<close>. The lemmas show that both routes from a filesystem error to an error
  number agree, and that every error number the kernel can report is one of the table's.
\<close>

section \<open>Errors\<close>

datatype FsError =
    FsInvalidPath | FsFileNotFound | FsFileExists | FsDiskFull | FsOutOfInodes
  | FsOutOfDataBlocks | FsInvalidInode | FsInvalidDataBlock | FsInvalidSuperblock
  | FsInvalidInodeTable | FsInvalidMetadata | FsWriteError | FsReadError
  | FsUnwritableFile | FsUnreadableFile | FsFilesystemNotFound | FsFilesystemExists
  | FsInvalidFileDescriptor

record FileErrorInner =
  fs_error :: FsError
  message :: "string option"

definition inner_from :: "FsError \<Rightarrow> FileErrorInner" where
  "inner_from e = \<lparr>fs_error = e, message = None\<rparr>"

datatype FileError =
    ReadError FileErrorInner | WriteError FileErrorInner | CloseError FileErrorInner
  | FlushError FileErrorInner | PermissionError FileErrorInner | NotFoundError FileErrorInner

fun FileError_from :: "FsError \<Rightarrow> FileError" where
  "FileError_from FsInvalidPath = PermissionError (inner_from FsInvalidPath)"
| "FileError_from FsFileNotFound = NotFoundError (inner_from FsFileNotFound)"
| "FileError_from FsFileExists = WriteError (inner_from FsFileExists)"
| "FileError_from FsDiskFull = WriteError (inner_from FsDiskFull)"
| "FileError_from FsOutOfInodes = WriteError (inner_from FsOutOfInodes)"
| "FileError_from FsOutOfDataBlocks = WriteError (inner_from FsOutOfDataBlocks)"
| "FileError_from FsInvalidInode = WriteError (inner_from FsInvalidInode)"
| "FileError_from FsInvalidDataBlock = WriteError (inner_from FsInvalidDataBlock)"
| "FileError_from FsInvalidSuperblock = ReadError (inner_from FsInvalidSuperblock)"
| "FileError_from FsInvalidInodeTable = ReadError (inner_from FsInvalidInodeTable)"
| "FileError_from FsInvalidMetadata = ReadError (inner_from FsInvalidMetadata)"
| "FileError_from FsWriteError = WriteError (inner_from FsWriteError)"
| "FileError_from FsReadError = ReadError (inner_from FsReadError)"
| "FileError_from FsUnwritableFile = WriteError (inner_from FsUnwritableFile)"
| "FileError_from FsUnreadableFile = ReadError (inner_from FsUnreadableFile)"
| "FileError_from FsFilesystemNotFound = NotFoundError (inner_from FsFilesystemNotFound)"
| "FileError_from FsFilesystemExists = WriteError (inner_from FsFilesystemExists)"
| "FileError_from FsInvalidFileDescriptor = PermissionError (inner_from FsInvalidFileDescriptor)"

datatype Error =
    EPERM | ENOENT | EIO | E2BIG | ENOEXEC | EBADF | ENOMEM | EACCES | EEXIST | ENODEV
  | ENOTDIR | EISDIR | EINVAL | ENFILE | EFBIG | ENOSPC | EROFS | ENOCSI | ENOSYS
  | ENAMETOOLONG | EOVERFLOW

text \<open>\<open>errno as usize\<close>: the discriminants of the enum.\<close>

fun errno_code :: "Error \<Rightarrow> nat" where
  "errno_code EPERM = 1"
| "errno_code ENOENT = 2"
| "errno_code EIO = 5"
| "errno_code E2BIG = 7"
| "errno_code ENOEXEC = 8"
| "errno_code EBADF = 9"
| "errno_code ENOMEM = 12"
| "errno_code EACCES = 13"
| "errno_code EEXIST = 17"
| "errno_code ENODEV = 19"
| "errno_code ENOTDIR = 20"
| "errno_code EISDIR = 21"
| "errno_code EINVAL = 22"
| "errno_code ENFILE = 23"
| "errno_code EFBIG = 27"
| "errno_code ENOSPC = 28"
| "errno_code EROFS = 30"
| "errno_code ENOCSI = 43"
| "errno_code ENOSYS = 88"
| "errno_code ENAMETOOLONG = 91"
| "errno_code EOVERFLOW = 139"

fun Error_from_FsError :: "FsError \<Rightarrow> Error" where
  "Error_from_FsError FsInvalidPath = EINVAL"
| "Error_from_FsError FsFileNotFound = ENOENT"
| "Error_from_FsError FsFileExists = EEXIST"
| "Error_from_FsError FsDiskFull = ENOSPC"
| "Error_from_FsError FsOutOfInodes = ENOSPC"
| "Error_from_FsError FsOutOfDataBlocks = ENOSPC"
| "Error_from_FsError FsInvalidInode = EIO"
| "Error_from_FsError FsInvalidDataBlock = EIO"
| "Error_from_FsError FsInvalidSuperblock = EIO"
| "Error_from_FsError FsInvalidInodeTable = EIO"
| "Error_from_FsError FsInvalidMetadata = EIO"
| "Error_from_FsError FsWriteError = EIO"
| "Error_from_FsError FsReadError = EIO"
| "Error_from_FsError FsUnwritableFile = EIO"
| "Error_from_FsError FsUnreadableFile = EIO"
| "Error_from_FsError FsFilesystemNotFound = ENOENT"
| "Error_from_FsError FsFilesystemExists = EEXIST"
| "Error_from_FsError FsInvalidFileDescriptor = EBADF"

fun Error_from_FileError :: "FileError \<Rightarrow> Error" where
  "Error_from_FileError (ReadError s) = Error_from_FsError (fs_error s)"
| "Error_from_FileError (WriteError s) = Error_from_FsError (fs_error s)"
| "Error_from_FileError (CloseError s) = Error_from_FsError (fs_error s)"
| "Error_from_FileError (FlushError s) = Error_from_FsError (fs_error s)"
| "Error_from_FileError (PermissionError s) = Error_from_FsError (fs_error s)"
| "Error_from_FileError (NotFoundError s) = Error_from_FsError (fs_error s)"

section \<open>Flags, events and paths\<close>

datatype IOEvent = EventRead | EventWrite

datatype FileFlags = FlagRead | FlagWrite | FlagAppend | FlagCreate | FlagTruncate | FlagDevice

fun flag_bits :: "FileFlags \<Rightarrow> u8" where
  "flag_bits FlagRead = 1"
| "flag_bits FlagWrite = 2"
| "flag_bits FlagAppend = 4"
| "flag_bits FlagCreate = 8"
| "flag_bits FlagTruncate = 16"
| "flag_bits FlagDevice = 32"

definition ALL_FLAGS :: u8 where
  "ALL_FLAGS = 63"

definition is_set :: "FileFlags \<Rightarrow> u8 \<Rightarrow> bool" where
  "is_set f flags \<longleftrightarrow> flags AND flag_bits f \<noteq> 0"

definition flags_bitor :: "FileFlags \<Rightarrow> FileFlags \<Rightarrow> u8" where
  "flags_bitor f g = flag_bits f OR flag_bits g"

definition canonicalise :: "string \<Rightarrow> string" where
  "canonicalise path = (if starts_with path ''/'' then path else ''/'' @ path)"

section \<open>Lemmas\<close>

lemma fs_error_inner_from [simp]: "fs_error (inner_from e) = e"
  by (simp add: inner_from_def)

lemma flag_bits_pow: "\<exists>k < 6. flag_bits f = 2 ^ k"
  by (cases f) (force intro: exI [of _ "0::nat"] exI [of _ "1::nat"] exI [of _ "2::nat"]
      exI [of _ "3::nat"] exI [of _ "4::nat"] exI [of _ "5::nat"])+

lemma is_set_bitor [simp]:
  "is_set h (flags_bitor f g) \<longleftrightarrow> h = f \<or> h = g"
  by (cases h; cases f; cases g) (simp_all add: is_set_def flags_bitor_def)

lemma is_set_flag_bits [simp]: "is_set h (flag_bits f) \<longleftrightarrow> h = f"
  by (cases h; cases f) (simp_all add: is_set_def)

lemma is_set_ALL_FLAGS [simp]: "is_set f ALL_FLAGS"
  by (cases f) (simp_all add: is_set_def ALL_FLAGS_def)

lemma canonicalise_absolute: "\<exists>t. canonicalise p = CHR ''/'' # t"
  by (auto simp: canonicalise_def starts_with_iff)

lemma inj_errno_code: "inj errno_code"
proof (rule injI)
  fix x y assume "errno_code x = errno_code y"
  then show "x = y" by (cases x; cases y) simp_all
qed

section \<open>Properties\<close>

text \<open>
  Both routes from a filesystem error to an error number agree: directly, and through
  the \<open>FileError\<close> that the file operations return.
\<close>

lemma error_routes_agree: "Error_from_FileError (FileError_from e) = Error_from_FsError e"
  by (cases e) simp_all

text \<open>
  \<open>canonicalise\<close> makes a path absolute, leaves an absolute path alone, and is
  therefore idempotent.
\<close>

lemma canonicalise_spec:
  "starts_with (canonicalise p) ''/'' \<and> canonicalise (canonicalise p) = canonicalise p \<and>
   (canonicalise p = p \<longleftrightarrow> starts_with p ''/'')"
  by (auto simp: canonicalise_def starts_with_iff)

text \<open>The flags are independent bits: a flag is set in a union of two exactly when it is one of them.\<close>

lemma flags_independent:
  "is_set h (flags_bitor f g) \<longleftrightarrow> h = f \<or> h = g"
  by (rule is_set_bitor)

end
