(* ===== verification/Phys_Fs.thy ===== *)
theory Phys_Fs
  imports File_Types
begin

text \<open>
  The data model and the operations of \<open>PhysFs\<close> in \<open>kernel/src/internal/fs.rs\<close>: the
  superblock, the inodes with direct and indirect block pointers, the data blocks, block
  allocation and lookup, and the file operations \<open>create_file\<close>, \<open>read_file\<close> and
  \<open>write_file\<close>. This theory holds the definitions; the theories \<open>Fs_Alloc\<close> and
  \<open>Fs_Files\<close> prove what they do.

  \<open>[u64; 12]\<close>, \<open>[u8; 384]\<close> and \<open>[u8; 512]\<close> are lists whose lengths \<open>wf_fs\<close> (in
  \<open>Fs_Alloc\<close>) fixes; \<open>p as usize\<close> on a block pointer is \<open>unat p\<close>. Block numbers within a
  file are natural numbers: every subtraction on them stands under a guard that keeps it
  from underflowing. The clock (\<open>clk::get_unix_time\<close>) is an argument \<open>clk\<close>: \<open>clk k\<close> is the
  result of the k-th call the operation makes.
\<close>

section \<open>Constants and data\<close>

definition BLOCK_SIZE :: nat where
  "BLOCK_SIZE = 512"

definition MAGIC_NUMBER :: u64 where
  "MAGIC_NUMBER = 0x727573746e697820"

definition POINTERS_PER_BLOCK :: nat where
  "POINTERS_PER_BLOCK = BLOCK_SIZE div 8"

declare BLOCK_SIZE_def [simp]

lemma POINTERS_PER_BLOCK [simp]: "POINTERS_PER_BLOCK = 64"
  by (simp add: POINTERS_PER_BLOCK_def)

record Superblock =
  magic_number :: u64
  disk_size :: u64
  inode_table_size :: u64
  data_block_size :: u64
  num_inodes :: u64
  num_data_blocks :: u64

record Inode =
  in_num_data_blocks :: u64
  data_block_pointers :: "u64 list"
  single_indirect_block_pointer :: u64
  double_indirect_block_pointer :: u64
  triple_indirect_block_pointer :: u64
  file_name :: "u8 list"

record DataBlock =
  block_data :: "u8 list"

record FileMetadata =
  md_owner :: u64
  creation_time :: u64
  modification_time :: u64
  access_time :: u64
  permissions :: u64

record PhysFs =
  superblock :: Superblock
  inode_table :: "Inode list"
  data_blocks :: "DataBlock list"

definition default_Inode :: Inode where
  "default_Inode = \<lparr>
     in_num_data_blocks = 0,
     data_block_pointers = replicate 12 0,
     single_indirect_block_pointer = 0,
     double_indirect_block_pointer = 0,
     triple_indirect_block_pointer = 0,
     file_name = replicate 384 0\<rparr>"

definition zero_block :: DataBlock where
  "zero_block = \<lparr>block_data = replicate 512 0\<rparr>"

section \<open>A data block seen as an array of pointers\<close>

text \<open>
  \<open>&*(block.data.as_ptr() as *const [u64; POINTERS_PER_BLOCK])\<close>: the little-endian view
  of the bytes that x86-64 gives.
\<close>

definition pointers_of :: "DataBlock \<Rightarrow> u64 list" where
  "pointers_of b =
     map (\<lambda>k. from_le_bytes (take 8 (drop (8 * k) (block_data b)))) [0..<POINTERS_PER_BLOCK]"

definition set_pointer :: "DataBlock \<Rightarrow> nat \<Rightarrow> u64 \<Rightarrow> DataBlock" where
  "set_pointer b k p = b\<lparr>block_data := splice (block_data b) (8 * k) (to_le_bytes p)\<rparr>"

text \<open>\<open>pointers[k]\<close> and \<open>pointers[k] = p\<close> for the block with index \<open>b\<close>.\<close>

definition read_pointer :: "nat \<Rightarrow> nat \<Rightarrow> PhysFs \<Rightarrow> (FsError, u64) outcome" where
  "read_pointer b k fs =
     obind (index (data_blocks fs) b) (\<lambda>block. index (pointers_of block) k)"

definition write_pointer :: "nat \<Rightarrow> nat \<Rightarrow> u64 \<Rightarrow> (PhysFs, FsError, unit) prog" where
  "write_pointer b k p fs =
     (if b < length (data_blocks fs) \<and> k < POINTERS_PER_BLOCK
      then (Ok (), fs\<lparr>data_blocks := (data_blocks fs)[b := set_pointer (data_blocks fs ! b) k p]\<rparr>)
      else (Panic, fs))"

section \<open>Finding free blocks and inodes\<close>

definition direct_used :: "PhysFs \<Rightarrow> u64 \<Rightarrow> bool" where
  "direct_used fs i \<longleftrightarrow> list_ex (\<lambda>inode. i \<in> set (data_block_pointers inode)) (inode_table fs)"

fun find_empty_in :: "PhysFs \<Rightarrow> u64 list option \<Rightarrow> nat list \<Rightarrow> (FsError, u64) outcome" where
  "find_empty_in fs ignore [] = Err FsDiskFull"
| "find_empty_in fs ignore (i # is) = obind (index (data_blocks fs) i) (\<lambda>block.
     if block_data block = replicate 512 0 \<and>
        \<not> (case ignore of None \<Rightarrow> False | Some v \<Rightarrow> word_of_nat i \<in> set v)
     then if direct_used fs (word_of_nat i) then find_empty_in fs ignore is
          else Ok (word_of_nat i)
     else find_empty_in fs ignore is)"

definition find_empty_data_block :: "PhysFs \<Rightarrow> u64 list option \<Rightarrow> (FsError, u64) outcome" where
  "find_empty_data_block fs ignore =
     find_empty_in fs ignore [1..<unat (num_data_blocks (superblock fs))]"

fun find_empty_inode_in :: "PhysFs \<Rightarrow> nat list \<Rightarrow> (FsError, nat) outcome" where
  "find_empty_inode_in fs [] = Err FsOutOfInodes"
| "find_empty_inode_in fs (i # is) = obind (index (inode_table fs) i) (\<lambda>inode.
     if in_num_data_blocks inode = 0 then Ok i else find_empty_inode_in fs is)"

definition find_empty_inode :: "PhysFs \<Rightarrow> (FsError, nat) outcome" where
  "find_empty_inode fs = find_empty_inode_in fs [0..<unat (num_inodes (superblock fs))]"

section \<open>Indirect block allocation\<close>

definition allocate_single_indirect_block :: "Inode \<Rightarrow> nat \<Rightarrow> (PhysFs, FsError, Inode) prog" where
  "allocate_single_indirect_block inode block_num =
     bind (if single_indirect_block_pointer inode = 0
           then bind (expect_prog (reads (\<lambda>fs. find_empty_data_block fs None)))
                  (\<lambda>p. ret (inode\<lparr>single_indirect_block_pointer := p\<rparr>))
           else ret inode) (\<lambda>inode.
     let block_index = block_num mod POINTERS_PER_BLOCK;
         b = unat (single_indirect_block_pointer inode)
     in bind (reads (\<lambda>fs. index (data_blocks fs) b)) (\<lambda>block.
        bind (expect_prog (reads (\<lambda>fs. find_empty_data_block fs (Some (pointers_of block))))) (\<lambda>p.
        bind (write_pointer b block_index p) (\<lambda>_.
        ret inode))))"

definition allocate_double_indirect_block :: "Inode \<Rightarrow> nat \<Rightarrow> (PhysFs, FsError, Inode) prog" where
  "allocate_double_indirect_block inode block_num =
     bind (if double_indirect_block_pointer inode = 0
           then bind (expect_prog (reads (\<lambda>fs. find_empty_data_block fs None)))
                  (\<lambda>p. ret (inode\<lparr>double_indirect_block_pointer := p\<rparr>))
           else ret inode) (\<lambda>inode.
     let block_index = block_num div POINTERS_PER_BLOCK;
         b = unat (double_indirect_block_pointer inode)
     in bind (reads (\<lambda>fs. index (data_blocks fs) b)) (\<lambda>block.
        bind (reads (read_pointer b block_index)) (\<lambda>q.
        bind (if q = 0
              then bind (expect_prog (reads (\<lambda>fs. find_empty_data_block fs (Some (pointers_of block)))))
                     (\<lambda>p. write_pointer b block_index p)
              else ret ()) (\<lambda>_.
        bind (reads (read_pointer b block_index)) (\<lambda>q.
        bind (allocate_single_indirect_block
                (default_Inode\<lparr>single_indirect_block_pointer := q\<rparr>)
                (block_num mod POINTERS_PER_BLOCK)) (\<lambda>_.
        ret inode))))))"

definition allocate_triple_indirect_block :: "Inode \<Rightarrow> nat \<Rightarrow> (PhysFs, FsError, Inode) prog" where
  "allocate_triple_indirect_block inode block_num =
     bind (if triple_indirect_block_pointer inode = 0
           then bind (expect_prog (reads (\<lambda>fs. find_empty_data_block fs None)))
                  (\<lambda>p. ret (inode\<lparr>triple_indirect_block_pointer := p\<rparr>))
           else ret inode) (\<lambda>inode.
     let block_index = block_num div (POINTERS_PER_BLOCK * POINTERS_PER_BLOCK);
         b = unat (triple_indirect_block_pointer inode)
     in bind (reads (\<lambda>fs. index (data_blocks fs) b)) (\<lambda>block.
        bind (reads (read_pointer b block_index)) (\<lambda>q.
        bind (if q = 0
              then bind (expect_prog (reads (\<lambda>fs. find_empty_data_block fs (Some (pointers_of block)))))
                     (\<lambda>p. write_pointer b block_index p)
              else ret ()) (\<lambda>_.
        bind (reads (read_pointer b block_index)) (\<lambda>q.
        bind (allocate_double_indirect_block
                (default_Inode\<lparr>double_indirect_block_pointer := q\<rparr>)
                (block_num mod (POINTERS_PER_BLOCK * POINTERS_PER_BLOCK))) (\<lambda>_.
        ret inode))))))"

text \<open>
  \<open>allocate_block\<close> works on a copy of the inode, which it drops: only the data blocks it
  wrote remain changed.
\<close>

definition allocate_block :: "nat \<Rightarrow> nat \<Rightarrow> (PhysFs, FsError, unit) prog" where
  "allocate_block inode_index block_num =
     bind (reads (\<lambda>fs. index (inode_table fs) inode_index)) (\<lambda>inode.
     if block_num < 12 then
       bind (reads (\<lambda>_. index_set (data_block_pointers inode) block_num (word_of_nat block_num)))
         (\<lambda>_. ret ())
     else if block_num < 12 + POINTERS_PER_BLOCK then
       bind (allocate_single_indirect_block inode (block_num - 12)) (\<lambda>_. ret ())
     else if block_num < 12 + POINTERS_PER_BLOCK * POINTERS_PER_BLOCK then
       bind (allocate_double_indirect_block inode (block_num - 12 - POINTERS_PER_BLOCK)) (\<lambda>_. ret ())
     else
       bind (allocate_triple_indirect_block inode
               (block_num - 12 - POINTERS_PER_BLOCK * POINTERS_PER_BLOCK)) (\<lambda>_. ret ()))"

section \<open>Block addresses\<close>

definition get_single_indirect_block :: "PhysFs \<Rightarrow> Inode \<Rightarrow> nat \<Rightarrow> (FsError, u64) outcome" where
  "get_single_indirect_block fs inode block_num =
     read_pointer (unat (single_indirect_block_pointer inode)) (block_num mod POINTERS_PER_BLOCK) fs"

definition get_double_indirect_block :: "PhysFs \<Rightarrow> Inode \<Rightarrow> nat \<Rightarrow> (FsError, u64) outcome" where
  "get_double_indirect_block fs inode block_num =
     obind (read_pointer (unat (double_indirect_block_pointer inode))
              (block_num div POINTERS_PER_BLOCK) fs) (\<lambda>q.
     get_single_indirect_block fs (default_Inode\<lparr>single_indirect_block_pointer := q\<rparr>)
       (block_num mod POINTERS_PER_BLOCK))"

definition get_triple_indirect_block :: "PhysFs \<Rightarrow> Inode \<Rightarrow> nat \<Rightarrow> (FsError, u64) outcome" where
  "get_triple_indirect_block fs inode block_num =
     obind (read_pointer (unat (triple_indirect_block_pointer inode))
              (block_num div (POINTERS_PER_BLOCK * POINTERS_PER_BLOCK)) fs) (\<lambda>q.
     get_double_indirect_block fs (default_Inode\<lparr>double_indirect_block_pointer := q\<rparr>)
       (block_num mod (POINTERS_PER_BLOCK * POINTERS_PER_BLOCK)))"

definition get_block :: "PhysFs \<Rightarrow> nat \<Rightarrow> nat \<Rightarrow> (FsError, u64) outcome" where
  "get_block fs inode_index block_num =
     obind (index (inode_table fs) inode_index) (\<lambda>inode.
     if block_num < 12 then index (data_block_pointers inode) block_num
     else if block_num < 12 + POINTERS_PER_BLOCK then
       get_single_indirect_block fs inode (block_num - 12)
     else if block_num < 12 + POINTERS_PER_BLOCK * POINTERS_PER_BLOCK then
       get_double_indirect_block fs inode (block_num - 12 - POINTERS_PER_BLOCK)
     else
       get_triple_indirect_block fs inode
         (block_num - 12 - POINTERS_PER_BLOCK * POINTERS_PER_BLOCK))"

fun concat_map_o :: "('a \<Rightarrow> ('e, 'b list) outcome) \<Rightarrow> 'a list \<Rightarrow> ('e, 'b list) outcome" where
  "concat_map_o f [] = Ok []"
| "concat_map_o f (x # xs) = obind (f x) (\<lambda>ys. obind (concat_map_o f xs) (\<lambda>zs. Ok (ys @ zs)))"

definition nonzero :: "u64 list \<Rightarrow> u64 list" where
  "nonzero ps = filter (\<lambda>p. p \<noteq> 0) ps"

definition single_addresses :: "PhysFs \<Rightarrow> u64 \<Rightarrow> (FsError, u64 list) outcome" where
  "single_addresses fs p =
     (if p = 0 then Ok []
      else obind (index (data_blocks fs) (unat p)) (\<lambda>b. Ok (nonzero (pointers_of b))))"

definition double_addresses :: "PhysFs \<Rightarrow> u64 \<Rightarrow> (FsError, u64 list) outcome" where
  "double_addresses fs p =
     (if p = 0 then Ok []
      else obind (index (data_blocks fs) (unat p)) (\<lambda>b.
           concat_map_o (single_addresses fs) (pointers_of b)))"

definition triple_addresses :: "PhysFs \<Rightarrow> u64 \<Rightarrow> (FsError, u64 list) outcome" where
  "triple_addresses fs p =
     (if p = 0 then Ok []
      else obind (index (data_blocks fs) (unat p)) (\<lambda>b.
           concat_map_o (double_addresses fs) (pointers_of b)))"

definition get_all_block_addresses :: "PhysFs \<Rightarrow> Inode \<Rightarrow> (FsError, u64 list) outcome" where
  "get_all_block_addresses fs inode =
     obind (single_addresses fs (single_indirect_block_pointer inode)) (\<lambda>s.
     obind (double_addresses fs (double_indirect_block_pointer inode)) (\<lambda>d.
     obind (triple_addresses fs (triple_indirect_block_pointer inode)) (\<lambda>t.
     Ok (nonzero (data_block_pointers inode) @ s @ d @ t))))"

section \<open>Blocks, inodes and metadata\<close>

definition write_to_data_block :: "u64 \<Rightarrow> u8 list \<Rightarrow> (PhysFs, FsError, unit) prog" where
  "write_to_data_block data_block bytes fs =
     (if data_block \<ge> num_data_blocks (superblock fs) then (Err FsInvalidDataBlock, fs)
      else case obind (index (data_blocks fs) (unat data_block)) (\<lambda>b.
             copy_from_slice (block_data b) 0 (length bytes) bytes) of
        Ok bytes' \<Rightarrow>
          (Ok (), fs\<lparr>data_blocks := (data_blocks fs)[unat data_block := \<lparr>block_data = bytes'\<rparr>]\<rparr>)
      | Err e \<Rightarrow> (Err e, fs)
      | Panic \<Rightarrow> (Panic, fs))"

definition create_inode :: "Inode \<Rightarrow> (PhysFs, FsError, unit) prog" where
  "create_inode inode =
     bind (reads find_empty_inode) (\<lambda>inode_index.
     bind (reads (\<lambda>fs. index_set (inode_table fs) inode_index inode)) (\<lambda>table.
     modify (\<lambda>fs. fs\<lparr>inode_table := table\<rparr>)))"

text \<open>\<open>iter().position(..)\<close>.\<close>

fun position :: "('a \<Rightarrow> bool) \<Rightarrow> 'a list \<Rightarrow> nat option" where
  "position P [] = None"
| "position P (x # xs) = (if P x then Some 0 else map_option Suc (position P xs))"

definition update_inode :: "Inode \<Rightarrow> (PhysFs, FsError, unit) prog" where
  "update_inode inode =
     bind (reads (\<lambda>fs. ok_or FsInvalidInode
              (position (\<lambda>i. file_name i = file_name inode) (inode_table fs)))) (\<lambda>inode_index.
     bind (reads (\<lambda>fs. index_set (inode_table fs) inode_index inode)) (\<lambda>table.
     modify (\<lambda>fs. fs\<lparr>inode_table := table\<rparr>)))"

definition pad_end :: "u8 list \<Rightarrow> (FsError, u8 list) outcome" where
  "pad_end arr = copy_from_slice (replicate 384 0) 0 (length arr) arr"

fun find_inode_in :: "u8 list \<Rightarrow> Inode list \<Rightarrow> (FsError, Inode) outcome" where
  "find_inode_in name [] = Err FsFileNotFound"
| "find_inode_in name (i # is) = obind (pad_end name) (\<lambda>padded.
     if file_name i = padded then Ok i else find_inode_in name is)"

definition find_inode_by_name :: "PhysFs \<Rightarrow> string \<Rightarrow> (FsError, Inode) outcome" where
  "find_inode_by_name fs name = find_inode_in (as_bytes name) (inode_table fs)"

text \<open>\<open>u64::from_le_bytes(bytes[a..a + 8].try_into().map_err(..)?)\<close> and its inverse.\<close>

definition u64_at :: "'e \<Rightarrow> u8 list \<Rightarrow> nat \<Rightarrow> ('e, u64) outcome" where
  "u64_at e bytes a = obind (slice bytes a (a + 8)) (\<lambda>s.
     if length s = 8 then Ok (from_le_bytes s) else Err e)"

definition put_u64 :: "u8 list \<Rightarrow> nat \<Rightarrow> u64 \<Rightarrow> ('e, u8 list) outcome" where
  "put_u64 bytes a w = copy_from_slice bytes a (a + 8) (to_le_bytes w)"

definition decode_metadata :: "u8 list \<Rightarrow> (FsError, FileMetadata) outcome" where
  "decode_metadata block =
     obind (u64_at FsInvalidMetadata block 0) (\<lambda>own.
     obind (u64_at FsInvalidMetadata block 8) (\<lambda>ctime.
     obind (u64_at FsInvalidMetadata block 16) (\<lambda>mtime.
     obind (u64_at FsInvalidMetadata block 24) (\<lambda>atime.
     obind (u64_at FsInvalidMetadata block 32) (\<lambda>perms.
     Ok \<lparr>md_owner = own, creation_time = ctime, modification_time = mtime,
         access_time = atime, permissions = perms\<rparr>)))))"

definition encode_metadata :: "FileMetadata \<Rightarrow> (FsError, u8 list) outcome" where
  "encode_metadata md =
     obind (put_u64 (replicate 512 0) 0 (md_owner md)) (\<lambda>b.
     obind (put_u64 b 8 (creation_time md)) (\<lambda>b.
     obind (put_u64 b 16 (modification_time md)) (\<lambda>b.
     obind (put_u64 b 24 (access_time md)) (\<lambda>b.
     put_u64 b 32 (permissions md)))))"

type_synonym perms = "u8 \<times> u8 \<times> u8"

fun perms_bits :: "perms \<Rightarrow> u64" where
  "perms_bits (u, g, w) = from_le_bytes [u, g, w, 0, 0, 0, 0, 0]"

section \<open>Files\<close>

definition create_file :: "(nat \<Rightarrow> u64) \<Rightarrow> string \<Rightarrow> perms \<Rightarrow> u64 \<Rightarrow> (PhysFs, FsError, unit) prog" where
  "create_file clk name perms own =
     bind (reads (\<lambda>fs. find_empty_data_block fs None)) (\<lambda>data_block.
     bind (reads (\<lambda>_. index_set (replicate 12 0) 0 data_block)) (\<lambda>pointers.
     bind (reads (\<lambda>_. copy_from_slice (replicate 384 0) 0 (length name) (as_bytes name))) (\<lambda>fname.
     let inode = default_Inode\<lparr>in_num_data_blocks := 1, data_block_pointers := pointers,
                               file_name := fname\<rparr>;
         metadata = \<lparr>md_owner = own, creation_time = clk 0, modification_time = clk 1,
                     access_time = clk 2, permissions = perms_bits perms\<rparr>
     in bind (reads (\<lambda>_. encode_metadata metadata)) (\<lambda>metadata_block.
        bind (write_to_data_block data_block metadata_block) (\<lambda>_.
        create_inode inode)))))"

definition read_data_block :: "PhysFs \<Rightarrow> u64 list \<Rightarrow> nat \<Rightarrow> (FsError, u8 list) outcome" where
  "read_data_block fs inode_pointers i =
     obind (index inode_pointers i) (\<lambda>p.
     obind (index (data_blocks fs) (unat p)) (\<lambda>b. Ok (block_data b)))"

definition read_file :: "PhysFs \<Rightarrow> string \<Rightarrow> (FsError, u8 list \<times> FileMetadata) outcome" where
  "read_file fs name =
     obind (find_inode_by_name fs name) (\<lambda>inode.
     obind (index (data_block_pointers inode) 0) (\<lambda>p0.
     obind (index (data_blocks fs) (unat p0)) (\<lambda>b.
     obind (decode_metadata (block_data b)) (\<lambda>metadata.
     obind (get_all_block_addresses fs inode) (\<lambda>inode_pointers.
     obind (concat_map_o (read_data_block fs inode_pointers)
              [1..<unat (in_num_data_blocks inode)]) (\<lambda>bytes.
     Ok (bytes, metadata)))))))"

text \<open>
  \<open>ceil(len as f64 / 512.0)\<close>: the division by a power of two is exact for every length
  below \<open>2 ^ 53\<close>, far beyond what the heap can hold.
\<close>

definition ceil_blocks :: "nat \<Rightarrow> nat" where
  "ceil_blocks len = (if len mod 512 = 0 then len div 512 else len div 512 + 1)"

definition pad_data :: "u8 list \<Rightarrow> u8 list" where
  "pad_data bytes = resize bytes (length bytes + (512 - length bytes mod 512)) 0"

definition write_metadata :: "(nat \<Rightarrow> u64) \<Rightarrow> Inode \<Rightarrow> perms option \<Rightarrow> u64 option
    \<Rightarrow> (PhysFs, FsError, unit) prog" where
  "write_metadata clk inode perms own =
     bind (reads (\<lambda>_. index (data_block_pointers inode) 0)) (\<lambda>p0.
     bind (reads (\<lambda>fs. index (data_blocks fs) (unat p0))) (\<lambda>b.
     bind (reads (\<lambda>_. copy_from_slice (replicate 512 0) 0 512 (block_data b))) (\<lambda>existing.
     bind (reads (\<lambda>_. decode_metadata existing)) (\<lambda>md.
     let metadata = \<lparr>
           md_owner = (case own of None \<Rightarrow> md_owner md | Some u \<Rightarrow> u),
           creation_time = creation_time md,
           modification_time = clk 0,
           access_time = access_time md,
           permissions = (case perms of None \<Rightarrow> permissions md | Some p \<Rightarrow> perms_bits p)\<rparr>
     in bind (reads (\<lambda>_. encode_metadata metadata)) (\<lambda>metadata_block.
        write_to_data_block p0 metadata_block)))))"

definition choose_block :: "u64 list \<Rightarrow> nat \<Rightarrow> u64 list \<Rightarrow> (PhysFs, FsError, u64 list) prog" where
  "choose_block existing i ptrs =
     (if i < length existing then reads (\<lambda>_. index_set ptrs i (existing ! i))
      else bind (reads (\<lambda>fs. find_empty_data_block fs (Some ptrs))) (\<lambda>data_block.
           reads (\<lambda>_. index_set ptrs i data_block)))"

definition write_block :: "u64 list \<Rightarrow> u8 list \<Rightarrow> nat \<Rightarrow> (PhysFs, FsError, unit) prog" where
  "write_block ptrs bytes i =
     bind (reads (\<lambda>_. index ptrs i)) (\<lambda>p.
     bind (reads (\<lambda>_. slice bytes (i * 512) ((i + 1) * 512))) (\<lambda>chunk.
     write_to_data_block p chunk))"

definition link_double :: "u64 \<Rightarrow> nat \<Rightarrow> Inode \<Rightarrow> (PhysFs, FsError, Inode) prog" where
  "link_double p i inode =
     bind (allocate_double_indirect_block inode (i + 1 - 12 - POINTERS_PER_BLOCK)) (\<lambda>inode.
     let block_index = (i + 1) div POINTERS_PER_BLOCK;
         b = unat (double_indirect_block_pointer inode)
     in bind (reads (\<lambda>fs. index (data_blocks fs) b)) (\<lambda>block.
        bind (reads (read_pointer b block_index)) (\<lambda>q.
        bind (if q = 0
              then bind (expect_prog (reads (\<lambda>fs. find_empty_data_block fs (Some (pointers_of block)))))
                     (\<lambda>e. write_pointer b block_index e)
              else ret ()) (\<lambda>_.
        bind (reads (read_pointer b block_index)) (\<lambda>q.
        bind (allocate_single_indirect_block
                (default_Inode\<lparr>single_indirect_block_pointer := q\<rparr>)
                ((i + 1) mod POINTERS_PER_BLOCK)) (\<lambda>_.
        bind (reads (read_pointer b block_index)) (\<lambda>q.
        bind (write_pointer (unat q) ((i + 1) mod POINTERS_PER_BLOCK) p) (\<lambda>_.
        ret inode))))))))"

definition link_triple :: "u64 \<Rightarrow> nat \<Rightarrow> Inode \<Rightarrow> (PhysFs, FsError, Inode) prog" where
  "link_triple p i inode =
     bind (allocate_triple_indirect_block inode
             (i + 1 - 12 - POINTERS_PER_BLOCK * POINTERS_PER_BLOCK)) (\<lambda>inode.
     let block_index = (i + 1) div (POINTERS_PER_BLOCK * POINTERS_PER_BLOCK);
         double_index = (i + 1) mod (POINTERS_PER_BLOCK * POINTERS_PER_BLOCK);
         b = unat (triple_indirect_block_pointer inode)
     in bind (reads (\<lambda>fs. index (data_blocks fs) b)) (\<lambda>block.
        bind (reads (read_pointer b block_index)) (\<lambda>q.
        bind (if q = 0
              then bind (expect_prog (reads (\<lambda>fs. find_empty_data_block fs (Some (pointers_of block)))))
                     (\<lambda>e. write_pointer b block_index e)
              else ret ()) (\<lambda>_.
        bind (reads (read_pointer b block_index)) (\<lambda>q.
        bind (allocate_double_indirect_block
                (default_Inode\<lparr>double_indirect_block_pointer := q\<rparr>) double_index) (\<lambda>_.
        bind (reads (read_pointer b block_index)) (\<lambda>q.
        bind (reads (\<lambda>fs. index (data_blocks fs) (unat q))) (\<lambda>_.
        bind (reads (read_pointer (unat q) double_index)) (\<lambda>s.
        bind (allocate_single_indirect_block
                (default_Inode\<lparr>single_indirect_block_pointer := s\<rparr>)
                ((i + 1) mod POINTERS_PER_BLOCK)) (\<lambda>_.
        bind (reads (read_pointer (unat q) double_index)) (\<lambda>s.
        bind (write_pointer (unat s) ((i + 1) mod POINTERS_PER_BLOCK) p) (\<lambda>_.
        ret inode))))))))))))"

definition link_block :: "u64 list \<Rightarrow> nat \<Rightarrow> Inode \<Rightarrow> (PhysFs, FsError, Inode) prog" where
  "link_block ptrs i inode =
     bind (reads (\<lambda>_. index ptrs i)) (\<lambda>p.
     if i + 1 < 12 then
       bind (reads (\<lambda>_. index_set (data_block_pointers inode) (i + 1) p)) (\<lambda>direct.
       ret (inode\<lparr>data_block_pointers := direct\<rparr>))
     else if i + 1 < 12 + POINTERS_PER_BLOCK then
       bind (allocate_single_indirect_block inode (i + 1 - 12)) (\<lambda>inode.
       bind (write_pointer (unat (single_indirect_block_pointer inode))
               ((i + 1) mod POINTERS_PER_BLOCK) p) (\<lambda>_.
       ret inode))
     else if i + 1 < 12 + POINTERS_PER_BLOCK * POINTERS_PER_BLOCK then link_double p i inode
     else link_triple p i inode)"

text \<open>\<open>existing_data_blocks.remove(0)\<close> panics on an empty vector.\<close>

fun remove_first :: "'a list \<Rightarrow> ('e, 'a list) outcome" where
  "remove_first [] = Panic"
| "remove_first (x # xs) = Ok xs"

definition write_file :: "(nat \<Rightarrow> u64) \<Rightarrow> string \<Rightarrow> u8 list \<Rightarrow> perms option \<Rightarrow> u64 option
    \<Rightarrow> (PhysFs, FsError, unit) prog" where
  "write_file clk name bytes0 perms own =
     (let bytes = pad_data bytes0; n = ceil_blocks (length bytes) in
     bind (reads (\<lambda>fs. find_inode_by_name fs name)) (\<lambda>inode.
     bind (write_metadata clk inode perms own) (\<lambda>_.
     bind (reads (\<lambda>_. obind (index (data_block_pointers inode) 0) (\<lambda>p0.
              index_set (replicate n 0) 0 p0))) (\<lambda>ptrs0.
     bind (reads (\<lambda>fs. obind (get_all_block_addresses fs inode) remove_first)) (\<lambda>existing.
     bind (for_acc (choose_block existing) [0..<n] ptrs0) (\<lambda>ptrs.
     bind (for_each (write_block ptrs bytes) [0..<n]) (\<lambda>_.
     let updated_inode = inode\<lparr>in_num_data_blocks := word_of_nat (length ptrs + 1)\<rparr> in
     bind (update_inode updated_inode) (\<lambda>_.
     bind (for_acc (link_block ptrs) [0..<length ptrs] updated_inode) (\<lambda>updated_inode.
     update_inode updated_inode)))))))))"

end
