(* ===== verification/Fs_Alloc.thy ===== *)
theory Fs_Alloc
  imports Phys_Fs
begin

text \<open>
  What the building blocks of \<open>PhysFs\<close> do: the well-formedness of a filesystem image in
  memory (\<open>wf_fs\<close>), the free blocks and the specification of \<open>find_empty_data_block\<close>
  and \<open>find_empty_inode\<close>, the metadata codec, the pointer view of a block, and the name
  lookup. The facts are collected for the file operations of \<open>Fs_Files\<close>.
\<close>

named_theorems fs_simps \<open>rewriting of filesystem states after an update\<close>

section \<open>Well-formed images\<close>

definition wf_inode :: "Inode \<Rightarrow> bool" where
  "wf_inode i \<longleftrightarrow> length (data_block_pointers i) = 12 \<and> length (file_name i) = 384"

definition wf_fs :: "PhysFs \<Rightarrow> bool" where
  "wf_fs fs \<longleftrightarrow>
     length (data_blocks fs) = unat (num_data_blocks (superblock fs)) \<and>
     (\<forall>b \<in> set (data_blocks fs). length (block_data b) = 512) \<and>
     (\<forall>i \<in> set (inode_table fs). wf_inode i)"

lemma wf_fs_block_length: "wf_fs fs \<Longrightarrow> j < length (data_blocks fs) \<Longrightarrow>
    length (block_data (data_blocks fs ! j)) = 512"
  by (simp add: wf_fs_def)

lemma wf_fs_length: "wf_fs fs \<Longrightarrow> length (data_blocks fs) = unat (num_data_blocks (superblock fs))"
  by (simp add: wf_fs_def)

lemma unat_lt_u64: "unat (w :: u64) < 18446744073709551616"
proof -
  have "unat w < 2 ^ LENGTH(64)" by (rule unsigned_less)
  then show ?thesis by simp
qed

lemma unat_word_of_nat_lt: "i < unat (w :: u64) \<Longrightarrow> unat (word_of_nat i :: u64) = i"
  using unat_lt_u64 [of w] by (simp add: unat_of_nat)

lemma nth_block_neq: "(p :: u64) \<noteq> q \<Longrightarrow> xs[unat p := b] ! unat q = xs ! unat q"
  by (metis nth_list_update_neq word_unat_eq_iff)

lemma concat_map_o_Ok: "(\<And>x. x \<in> set xs \<Longrightarrow> f x = Ok (g x)) \<Longrightarrow>
    concat_map_o f xs = Ok (concat (map g xs))"
  by (induction xs) auto

section \<open>Free blocks\<close>

definition free_blocks :: "PhysFs \<Rightarrow> u64 set" where
  "free_blocks fs = {p. 0 < unat p \<and> unat p < unat (num_data_blocks (superblock fs)) \<and>
     block_data (data_blocks fs ! unat p) = replicate 512 0 \<and> \<not> direct_used fs p}"

lemma finite_free_blocks [simp]: "finite (free_blocks fs)"
  by simp

lemma free_blocks_nonzero: "p \<in> free_blocks fs \<Longrightarrow> p \<noteq> 0"
  by (auto simp: free_blocks_def)

definition candidate :: "PhysFs \<Rightarrow> u64 list option \<Rightarrow> nat \<Rightarrow> bool" where
  "candidate fs ignore i \<longleftrightarrow> block_data (data_blocks fs ! i) = replicate 512 0 \<and>
     \<not> (case ignore of None \<Rightarrow> False | Some v \<Rightarrow> (word_of_nat i :: u64) \<in> set v) \<and>
     \<not> direct_used fs (word_of_nat i)"

lemma find_empty_in_find:
  assumes "\<And>i. i \<in> set is \<Longrightarrow> i < length (data_blocks fs)"
  shows "find_empty_in fs ignore is =
    (case find (candidate fs ignore) is of None \<Rightarrow> Err FsDiskFull | Some i \<Rightarrow> Ok (word_of_nat i))"
  using assms by (induction "is") (auto simp: candidate_def slice_simps)

lemma find_empty_data_block_find:
  assumes "wf_fs fs"
  shows "find_empty_data_block fs ignore =
    (case find (candidate fs ignore) [1..<length (data_blocks fs)] of
       None \<Rightarrow> Err FsDiskFull | Some i \<Rightarrow> Ok (word_of_nat i))"
  unfolding find_empty_data_block_def wf_fs_length [OF assms, symmetric]
  by (rule find_empty_in_find) simp

lemma candidate_free:
  assumes "wf_fs fs" and "0 < i" and "i < length (data_blocks fs)"
  shows "candidate fs ignore i \<longleftrightarrow> (word_of_nat i :: u64) \<in> free_blocks fs \<and>
    (\<forall>v. ignore = Some v \<longrightarrow> (word_of_nat i :: u64) \<notin> set v)"
proof -
  have u: "unat (word_of_nat i :: u64) = i"
    using assms by (simp add: wf_fs_length unat_word_of_nat_lt)
  show ?thesis using assms
    by (auto simp: candidate_def free_blocks_def u wf_fs_length split: option.splits)
qed

lemma find_empty_data_block_Ok:
  assumes "wf_fs fs" and "find_empty_data_block fs ignore = Ok p"
  shows "p \<in> free_blocks fs" and "ignore = Some v \<Longrightarrow> p \<notin> set v"
proof -
  obtain i where i: "find (candidate fs ignore) [1..<length (data_blocks fs)] = Some i"
    and p: "p = word_of_nat i"
    using assms by (auto simp: find_empty_data_block_find split: option.splits)
  from i have "candidate fs ignore i" and "0 < i" and "i < length (data_blocks fs)"
    by (auto simp: find_Some_iff Suc_le_eq [symmetric])
  then show "p \<in> free_blocks fs" and "ignore = Some v \<Longrightarrow> p \<notin> set v"
    using candidate_free [OF assms(1)] p by auto
qed

lemma find_empty_data_block_progress:
  assumes wf: "wf_fs fs" and q: "q \<in> free_blocks fs" and ig: "\<And>v. ignore = Some v \<Longrightarrow> q \<notin> set v"
  obtains p where "find_empty_data_block fs ignore = Ok p"
proof -
  have lt: "0 < unat q" "unat q < length (data_blocks fs)"
    using q wf by (auto simp: free_blocks_def wf_fs_length)
  have "candidate fs ignore (unat q)"
    using candidate_free [OF wf lt] q ig by simp
  then have "find (candidate fs ignore) [1..<length (data_blocks fs)] \<noteq> None"
    using lt by (auto simp: find_None_iff)
  then show thesis using that by (auto simp: find_empty_data_block_find [OF wf])
qed

lemma find_empty_data_block_full:
  assumes "wf_fs fs"
  shows "find_empty_data_block fs ignore = Err FsDiskFull \<longleftrightarrow>
    (\<forall>p \<in> free_blocks fs. \<exists>v. ignore = Some v \<and> p \<in> set v)"
proof
  assume "find_empty_data_block fs ignore = Err FsDiskFull"
  then show "\<forall>p \<in> free_blocks fs. \<exists>v. ignore = Some v \<and> p \<in> set v"
    using find_empty_data_block_progress [OF assms] by (metis outcome.distinct(1))
next
  assume "\<forall>p \<in> free_blocks fs. \<exists>v. ignore = Some v \<and> p \<in> set v"
  then have "find_empty_data_block fs ignore \<noteq> Ok p" for p
    using find_empty_data_block_Ok [OF assms, of ignore p] by blast
  then show "find_empty_data_block fs ignore = Err FsDiskFull"
    unfolding find_empty_data_block_find [OF assms]
    by (cases "find (candidate fs ignore) [1..<length (data_blocks fs)]") auto
qed

lemma find_empty_inode_in_find:
  assumes "\<And>i. i \<in> set is \<Longrightarrow> i < length (inode_table fs)"
  shows "find_empty_inode_in fs is =
    (case find (\<lambda>i. in_num_data_blocks (inode_table fs ! i) = 0) is of
       None \<Rightarrow> Err FsOutOfInodes | Some i \<Rightarrow> Ok i)"
  using assms by (induction "is") (auto simp: slice_simps)

lemma find_empty_inode_find:
  assumes "length (inode_table fs) = unat (num_inodes (superblock fs))"
  shows "find_empty_inode fs =
    (case find (\<lambda>i. in_num_data_blocks (inode_table fs ! i) = 0) [0..<length (inode_table fs)] of
       None \<Rightarrow> Err FsOutOfInodes | Some i \<Rightarrow> Ok i)"
  unfolding find_empty_inode_def assms [symmetric]
  by (rule find_empty_inode_in_find) simp

section \<open>Metadata\<close>

lemma u64_at_ok: "a + 8 \<le> length bs \<Longrightarrow> u64_at e bs a = Ok (from_le_bytes (take 8 (drop a bs)))"
  by (simp add: u64_at_def slice_def)

lemma put_u64_ok: "a + 8 \<le> length bs \<Longrightarrow> put_u64 bs a w = Ok (splice bs a (to_le_bytes w))"
  by (simp add: put_u64_def copy_from_slice_def)

lemma from_le_bytes_splice [simp]: "a + 8 \<le> length bs \<Longrightarrow>
    from_le_bytes (take 8 (drop a (splice bs a (to_le_bytes w)))) = w"
  using take_drop_splice [of a "to_le_bytes w" bs] by simp

lemma take_drop_splice_word [simp]: "a + 8 \<le> length bs \<Longrightarrow> b + n \<le> a \<or> a + 8 \<le> b \<Longrightarrow>
    take n (drop b (splice bs a (to_le_bytes w))) = take n (drop b bs)"
  using take_drop_splice_other [of a "to_le_bytes w" bs b n] by simp

definition metadata_bytes :: "FileMetadata \<Rightarrow> u8 list" where
  "metadata_bytes md = splice (splice (splice (splice (splice (replicate 512 0)
     0 (to_le_bytes (md_owner md))) 8 (to_le_bytes (creation_time md)))
     16 (to_le_bytes (modification_time md))) 24 (to_le_bytes (access_time md)))
     32 (to_le_bytes (permissions md))"

definition metadata_of :: "u8 list \<Rightarrow> FileMetadata" where
  "metadata_of bs = \<lparr>
     md_owner = from_le_bytes (take 8 bs),
     creation_time = from_le_bytes (take 8 (drop 8 bs)),
     modification_time = from_le_bytes (take 8 (drop 16 bs)),
     access_time = from_le_bytes (take 8 (drop 24 bs)),
     permissions = from_le_bytes (take 8 (drop 32 bs))\<rparr>"

lemma encode_metadata_bytes [simp]: "encode_metadata md = Ok (metadata_bytes md)"
  by (simp add: encode_metadata_def metadata_bytes_def put_u64_ok)

lemma length_metadata_bytes [simp]: "length (metadata_bytes md) = 512"
  by (simp add: metadata_bytes_def)

lemma decode_metadata_of: "length bs = 512 \<Longrightarrow> decode_metadata bs = Ok (metadata_of bs)"
  by (simp add: decode_metadata_def metadata_of_def u64_at_ok)

lemma metadata_of_bytes [simp]: "metadata_of (metadata_bytes md) = md"
proof -
  note take_drop_splice_word [where b = 0, simplified, simp]
    from_le_bytes_splice [where a = 0, simplified, simp]
  show ?thesis by (simp add: metadata_of_def metadata_bytes_def)
qed

section \<open>A block as pointers\<close>

lemma length_pointers_of [simp]: "length (pointers_of b) = 64"
  by (simp add: pointers_of_def)

lemma pointers_of_set_pointer:
  assumes "length (block_data b) = 512" and "k < 64"
  shows "pointers_of (set_pointer b k p) = (pointers_of b)[k := p]"
proof (rule nth_equalityI)
  show "length (pointers_of (set_pointer b k p)) = length ((pointers_of b)[k := p])" by simp
  fix j assume "j < length (pointers_of (set_pointer b k p))"
  then have j: "j < 64" by simp
  show "pointers_of (set_pointer b k p) ! j = (pointers_of b)[k := p] ! j"
  proof (cases "j = k")
    case True
    then show ?thesis using assms by (simp add: pointers_of_def set_pointer_def)
  next
    case False
    then have "8 * j + 8 \<le> 8 * k \<or> 8 * k + 8 \<le> 8 * j" by arith
    then show ?thesis using assms j False
      by (simp add: pointers_of_def set_pointer_def)
  qed
qed

lemma pointers_of_zero [simp]: "pointers_of zero_block = replicate 64 0"
  by (rule nth_equalityI)
    (simp_all add: pointers_of_def zero_block_def from_le_bytes_def numeral_eq_Suc)

section \<open>Names\<close>

definition padded :: "string \<Rightarrow> u8 list" where
  "padded name = as_bytes name @ replicate (384 - length name) 0"

definition no_name :: "u8 list" where
  "no_name = replicate 384 0"

definition valid_name :: "string \<Rightarrow> bool" where
  "valid_name name \<longleftrightarrow> name \<noteq> [] \<and> length name \<le> 384 \<and> CHR 0x00 \<notin> set name"

lemma of_char_byte_inj: "(of_char c :: u8) = of_char d \<longleftrightarrow> c = d"
  by (metis unat_of_char of_char_eq_iff)

lemma of_char_byte_zero: "(of_char c :: u8) = 0 \<longleftrightarrow> c = CHR 0x00"
  using of_char_byte_inj [of c "CHR 0x00"] by simp

lemma padded_inj:
  assumes "valid_name a" and "valid_name b" and "padded a = padded b"
  shows "a = b"
proof -
  have strip: "takeWhile (\<lambda>x. x \<noteq> 0) (padded n) = as_bytes n" if "valid_name n" for n
  proof -
    have "\<And>x. x \<in> set (as_bytes n) \<Longrightarrow> x \<noteq> 0"
      using that by (auto simp: as_bytes_def of_char_byte_zero valid_name_def)
    then show ?thesis by (simp add: padded_def takeWhile_append)
  qed
  have "as_bytes a = as_bytes b" using strip assms by metis
  then show ?thesis
    unfolding as_bytes_def
    by (rule map_injective) (auto simp: inj_def of_char_byte_inj)
qed

lemma padded_neq_no_name: "valid_name name \<Longrightarrow> padded name \<noteq> no_name"
proof
  assume v: "valid_name name" and eq: "padded name = no_name"
  then have "of_char (hd name) = (0 :: u8)"
    by (cases name) (auto simp: padded_def no_name_def as_bytes_def valid_name_def
        dest: arg_cong [where f = hd])
  then show False using v by (cases name) (auto simp: of_char_byte_zero valid_name_def)
qed

lemma length_padded: "length name \<le> 384 \<Longrightarrow> length (padded name) = 384"
  by (simp add: padded_def)

lemma pad_end_padded: "length name \<le> 384 \<Longrightarrow> pad_end (as_bytes name) = Ok (padded name)"
  by (simp add: pad_end_def copy_from_slice_def splice_def padded_def)

lemma position_Some: "position P xs = Some k \<Longrightarrow> k < length xs \<and> P (xs ! k) \<and> (\<forall>j < k. \<not> P (xs ! j))"
proof (induction xs arbitrary: k)
  case (Cons x xs)
  then show ?case by (auto simp: less_Suc_eq_0_disj split: if_splits)
qed simp

lemma position_None: "position P xs = None \<longleftrightarrow> (\<forall>x \<in> set xs. \<not> P x)"
  by (induction xs) auto

lemma position_map: "position P (map f xs) = position (\<lambda>x. P (f x)) xs"
  by (induction xs) auto

text \<open>The table slot of a name.\<close>

definition slot :: "PhysFs \<Rightarrow> u8 list \<Rightarrow> nat option" where
  "slot fs nm = position (\<lambda>i. file_name i = nm) (inode_table fs)"

lemma slot_map: "slot fs nm = position (\<lambda>n. n = nm) (map file_name (inode_table fs))"
  by (simp add: slot_def position_map)

lemma find_inode_in_position: "length name \<le> 384 \<Longrightarrow> find_inode_in (as_bytes name) is =
    (case position (\<lambda>i. file_name i = padded name) is of
       None \<Rightarrow> Err FsFileNotFound | Some k \<Rightarrow> Ok (is ! k))"
  by (induction "is") (auto simp: pad_end_padded split: option.splits)

lemma find_inode_by_name_slot: "length name \<le> 384 \<Longrightarrow> find_inode_by_name fs name =
    (case slot fs (padded name) of None \<Rightarrow> Err FsFileNotFound | Some k \<Rightarrow> Ok (inode_table fs ! k))"
  by (simp add: find_inode_by_name_def slot_def find_inode_in_position)

lemma slot_SomeD: "slot fs nm = Some k \<Longrightarrow> k < length (inode_table fs) \<and> file_name (inode_table fs ! k) = nm"
  by (auto simp: slot_def dest: position_Some)

lemma update_inode_slot:
  assumes "slot fs (file_name inode) = Some k"
  shows "update_inode inode fs = (Ok (), fs\<lparr>inode_table := (inode_table fs)[k := inode]\<rparr>)"
  using assms slot_SomeD [OF assms]
  by (simp add: update_inode_def slot_def [symmetric] bind_reads slice_simps modify_def)

section \<open>Writing whole blocks\<close>

lemma write_to_data_block_ok:
  assumes "wf_fs fs" and "unat p < length (data_blocks fs)" and "length bytes = 512"
  shows "write_to_data_block p bytes fs =
    (Ok (), fs\<lparr>data_blocks := (data_blocks fs)[unat p := \<lparr>block_data = bytes\<rparr>]\<rparr>)"
proof -
  have "\<not> num_data_blocks (superblock fs) \<le> p"
    using assms by (simp add: wf_fs_length word_le_nat_alt)
  then show ?thesis using assms wf_fs_block_length [OF assms(1,2)]
    by (simp add: write_to_data_block_def slice_simps)
qed

lemma wf_fs_set_block: "wf_fs fs \<Longrightarrow> length (block_data b) = 512 \<Longrightarrow>
    wf_fs (fs\<lparr>data_blocks := (data_blocks fs)[j := b]\<rparr>)"
  by (auto simp: wf_fs_def dest!: set_update_subset_insert [THEN subsetD])

lemma wf_fs_set_inode: "wf_fs fs \<Longrightarrow> wf_inode i \<Longrightarrow>
    wf_fs (fs\<lparr>inode_table := (inode_table fs)[k := i]\<rparr>)"
  by (auto simp: wf_fs_def dest!: set_update_subset_insert [THEN subsetD])

section \<open>Properties\<close>

text \<open>
  Allocation: \<open>find_empty_data_block\<close> returns a block that is in range, is not block 0,
  holds zeros, is no direct pointer of any inode and is not among the ignored ones, and
  answers \<open>DiskFull\<close> exactly when there is no such block; it never panics.
\<close>

lemma find_empty_data_block_spec:
  assumes "wf_fs fs"
  shows "case find_empty_data_block fs ignore of
      Ok p \<Rightarrow> p \<in> free_blocks fs \<and> (\<forall>v. ignore = Some v \<longrightarrow> p \<notin> set v)
    | Err e \<Rightarrow> e = FsDiskFull \<and> (\<forall>p \<in> free_blocks fs. \<exists>v. ignore = Some v \<and> p \<in> set v)
    | Panic \<Rightarrow> False"
proof -
  have "find_empty_data_block fs ignore = Err FsDiskFull \<or> (\<exists>p. find_empty_data_block fs ignore = Ok p)"
    by (auto simp: find_empty_data_block_find [OF assms] split: option.splits)
  then show ?thesis
    using find_empty_data_block_Ok [OF assms, of ignore] find_empty_data_block_full [OF assms, of ignore] by auto
qed

definition two_blocks :: PhysFs where
  "two_blocks = \<lparr>superblock = \<lparr>magic_number = MAGIC_NUMBER, disk_size = 0, inode_table_size = 0,
     data_block_size = 512, num_inodes = 0, num_data_blocks = 2\<rparr>,
     inode_table = [], data_blocks = [zero_block, zero_block]\<rparr>"

lemma find_empty_data_block_spec_example:
  "find_empty_data_block two_blocks None = Ok 1 \<and> 1 \<in> free_blocks two_blocks"
proof -
  have wf: "wf_fs two_blocks" by (simp add: two_blocks_def wf_fs_def zero_block_def)
  have "find_empty_data_block two_blocks None = Ok 1"
    by (simp add: find_empty_data_block_def two_blocks_def zero_block_def index_def direct_used_def
        upt_conv_Cons)
  then show ?thesis using find_empty_data_block_spec [OF wf, of None] by simp
qed

text \<open>The metadata of a file survives its block.\<close>

lemma metadata_codec: "obind (encode_metadata md) decode_metadata = Ok md"
  by (simp add: decode_metadata_of)

end
