(* ===== verification/Fs_Files.thy ===== *)
theory Fs_Files
  imports Fs_Alloc
begin

text \<open>
  The file operations of \<open>PhysFs\<close> against an abstract file store. \<open>direct_fs\<close> is the
  invariant of a filesystem whose files fit the twelve direct pointers of their inodes:
  no two files share a block, no two share a name, and a free inode is blank. \<open>files\<close>
  abstracts such a filesystem to a map from (padded) names to metadata and contents, and
  the lemmas show that \<open>read_file\<close>, \<open>create_file\<close> and \<open>write_file\<close> are lookup, insertion
  and update of that map, with every other file untouched.
\<close>

section \<open>The invariant\<close>

definition owned :: "Inode \<Rightarrow> u64 list" where
  "owned i = nonzero (data_block_pointers i)"

definition live :: "Inode \<Rightarrow> bool" where
  "live i \<longleftrightarrow> in_num_data_blocks i \<noteq> 0"

definition direct_inode :: "Inode \<Rightarrow> bool" where
  "direct_inode i \<longleftrightarrow>
     length (file_name i) = 384 \<and>
     data_block_pointers i = owned i @ replicate (12 - length (owned i)) 0 \<and>
     length (owned i) \<le> 12 \<and> distinct (owned i) \<and>
     single_indirect_block_pointer i = 0 \<and> double_indirect_block_pointer i = 0 \<and>
     triple_indirect_block_pointer i = 0 \<and>
     unat (in_num_data_blocks i) \<le> length (owned i) \<and>
     (live i \<longleftrightarrow> file_name i \<noteq> no_name) \<and> (\<not> live i \<longrightarrow> owned i = [])"

definition direct_fs :: "PhysFs \<Rightarrow> bool" where
  "direct_fs fs \<longleftrightarrow> wf_fs fs \<and>
     (\<forall>i \<in> set (inode_table fs). direct_inode i \<and>
        (\<forall>p \<in> set (owned i). unat p < length (data_blocks fs))) \<and>
     (\<forall>j < length (inode_table fs). \<forall>k < length (inode_table fs). j \<noteq> k \<longrightarrow>
        set (owned (inode_table fs ! j)) \<inter> set (owned (inode_table fs ! k)) = {} \<and>
        (file_name (inode_table fs ! j) = file_name (inode_table fs ! k) \<longrightarrow>
           file_name (inode_table fs ! j) = no_name))"

lemma direct_fs_wf: "direct_fs fs \<Longrightarrow> wf_fs fs"
  by (simp add: direct_fs_def)

lemma direct_fs_inode: "direct_fs fs \<Longrightarrow> k < length (inode_table fs) \<Longrightarrow> direct_inode (inode_table fs ! k)"
  by (simp add: direct_fs_def)

lemma direct_fs_owned_lt: "direct_fs fs \<Longrightarrow> k < length (inode_table fs) \<Longrightarrow>
    p \<in> set (owned (inode_table fs ! k)) \<Longrightarrow> unat p < length (data_blocks fs)"
  unfolding direct_fs_def by (meson nth_mem)

lemma direct_fs_disjoint: "direct_fs fs \<Longrightarrow> j < length (inode_table fs) \<Longrightarrow> k < length (inode_table fs) \<Longrightarrow>
    j \<noteq> k \<Longrightarrow> p \<in> set (owned (inode_table fs ! j)) \<Longrightarrow> p \<notin> set (owned (inode_table fs ! k))"
  unfolding direct_fs_def by blast

lemma direct_inode_wf: "direct_inode i \<Longrightarrow> wf_inode i"
  by (metis direct_inode_def wf_inode_def length_append length_replicate le_add_diff_inverse)

lemma direct_inode_live: "direct_inode i \<Longrightarrow> file_name i \<noteq> no_name \<Longrightarrow>
    owned i \<noteq> [] \<and> in_num_data_blocks i \<noteq> 0"
  by (auto simp: direct_inode_def live_def unat_eq_zero [symmetric] simp del: unat_eq_zero)

lemma direct_inode_pointer0: "direct_inode i \<Longrightarrow> owned i \<noteq> [] \<Longrightarrow>
    index (data_block_pointers i) 0 = Ok (hd (owned i))"
  by (metis direct_inode_def index_def append_is_Nil_conv hd_append2 hd_conv_nth length_greater_0_conv)

lemma owned_nonzero: "p \<in> set (owned i) \<Longrightarrow> p \<noteq> 0"
  by (simp add: owned_def nonzero_def)

lemma owned_used: "i \<in> set (inode_table fs) \<Longrightarrow> p \<in> set (owned i) \<Longrightarrow> direct_used fs p"
  by (auto simp: direct_used_def list_ex_iff owned_def nonzero_def)

lemma owned_not_free: "k < length (inode_table fs) \<Longrightarrow> p \<in> set (owned (inode_table fs ! k)) \<Longrightarrow>
    p \<notin> free_blocks fs"
  using owned_used [OF nth_mem] by (auto simp: free_blocks_def)

lemma direct_addresses: "direct_inode i \<Longrightarrow> get_all_block_addresses fs i = Ok (owned i)"
  by (simp add: get_all_block_addresses_def single_addresses_def double_addresses_def
      triple_addresses_def direct_inode_def owned_def)

section \<open>The abstract file store\<close>

definition blocks_at :: "PhysFs \<Rightarrow> u64 list \<Rightarrow> u8 list" where
  "blocks_at fs ps = concat (map (\<lambda>p. block_data (data_blocks fs ! unat p)) ps)"

definition file_of :: "PhysFs \<Rightarrow> Inode \<Rightarrow> FileMetadata \<times> u8 list" where
  "file_of fs i = (metadata_of (block_data (data_blocks fs ! unat (hd (owned i)))),
     blocks_at fs (take (unat (in_num_data_blocks i) - 1) (tl (owned i))))"

definition files :: "PhysFs \<Rightarrow> u8 list \<rightharpoonup> FileMetadata \<times> u8 list" where
  "files fs nm = (if nm = no_name then None
     else map_option (\<lambda>k. file_of fs (inode_table fs ! k)) (slot fs nm))"

lemma blocks_at_cong: "(\<And>p. p \<in> set ps \<Longrightarrow> data_blocks fs' ! unat p = data_blocks fs ! unat p) \<Longrightarrow>
    blocks_at fs' ps = blocks_at fs ps"
  unfolding blocks_at_def by (rule arg_cong [where f = concat]) (rule map_cong, simp_all)

lemma file_of_cong:
  assumes "owned i \<noteq> []"
    and "\<And>p. p \<in> set (owned i) \<Longrightarrow> data_blocks fs' ! unat p = data_blocks fs ! unat p"
  shows "file_of fs' i = file_of fs i"
proof -
  have "blocks_at fs' (take n (tl (owned i))) = blocks_at fs (take n (tl (owned i)))" for n
    using assms(2) by (intro blocks_at_cong) (meson in_set_takeD list.set_sel(2) assms(1))
  then show ?thesis using assms by (simp add: file_of_def)
qed

lemma position_upd: "xs ! k \<noteq> x \<Longrightarrow> y \<noteq> x \<Longrightarrow>
    position (\<lambda>n. n = x) (xs[k := y]) = position (\<lambda>n. n = x) xs"
proof (induction xs arbitrary: k)
  case (Cons a xs)
  then show ?case by (cases k) auto
qed simp

lemma position_upd_new: "k < length xs \<Longrightarrow> (\<And>j. j < k \<Longrightarrow> xs ! j \<noteq> y) \<Longrightarrow>
    position (\<lambda>n. n = y) (xs[k := y]) = Some k"
proof (induction xs arbitrary: k)
  case (Cons a xs)
  show ?case
  proof (cases k)
    case (Suc k')
    have "a \<noteq> y" using Cons.prems(2) [of 0] Suc by simp
    moreover have "position (\<lambda>n. n = y) (xs[k' := y]) = Some k'"
      using Cons.prems(1) Cons.prems(2) [of "Suc _"] Suc by (intro Cons.IH) auto
    ultimately show ?thesis using Suc by simp
  qed simp
qed simp

text \<open>
  Replacing the inode of slot \<open>k\<close>, which was free or had the same name, changes one file
  of the store when the blocks of all other files keep their contents.
\<close>

lemma files_upd:
  assumes fs: "direct_fs fs" and k: "k < length (inode_table fs)"
    and old: "file_name (inode_table fs ! k) = nm \<or> file_name (inode_table fs ! k) = no_name"
    and nm: "nm \<noteq> no_name"
    and uniq: "\<And>j. j < length (inode_table fs) \<Longrightarrow> j \<noteq> k \<Longrightarrow> file_name (inode_table fs ! j) \<noteq> nm"
    and table: "inode_table fs' = (inode_table fs)[k := i']" and name: "file_name i' = nm"
    and frame: "\<And>j p. j < length (inode_table fs) \<Longrightarrow> j \<noteq> k \<Longrightarrow>
        p \<in> set (owned (inode_table fs ! j)) \<Longrightarrow> data_blocks fs' ! unat p = data_blocks fs ! unat p"
  shows "files fs' = (files fs)(nm \<mapsto> file_of fs' i')"
proof
  fix nm'
  have names: "map file_name (inode_table fs') = (map file_name (inode_table fs))[k := nm]"
    by (simp add: table map_update name)
  show "files fs' nm' = ((files fs)(nm \<mapsto> file_of fs' i')) nm'"
  proof (cases "nm' = nm")
    case True
    have "slot fs' nm = Some k"
      unfolding slot_map names using k uniq by (intro position_upd_new) auto
    then show ?thesis using True nm k by (simp add: files_def table)
  next
    case False
    have "map_option (\<lambda>k. file_of fs' (inode_table fs' ! k)) (slot fs' nm') =
        map_option (\<lambda>k. file_of fs (inode_table fs ! k)) (slot fs nm')" if nm': "nm' \<noteq> no_name"
    proof -
      have slot': "slot fs' nm' = slot fs nm'"
        unfolding slot_map names using False nm' old k by (intro position_upd) auto
      have "file_of fs' (inode_table fs' ! j) = file_of fs (inode_table fs ! j)"
        if j: "slot fs nm' = Some j" for j
      proof -
        have jlt: "j < length (inode_table fs)" and jname: "file_name (inode_table fs ! j) = nm'"
          using slot_SomeD [OF j] by auto
        then have jk: "j \<noteq> k" using old nm' False by auto
        have "owned (inode_table fs ! j) \<noteq> []"
          using direct_inode_live [OF direct_fs_inode [OF fs jlt]] jname nm' by simp
        then have "file_of fs' (inode_table fs ! j) = file_of fs (inode_table fs ! j)"
          by (rule file_of_cong) (rule frame [OF jlt jk])
        then show ?thesis using jk by (simp add: table)
      qed
      then show ?thesis unfolding slot' by (cases "slot fs nm'") simp_all
    qed
    then show ?thesis using False by (simp add: files_def)
  qed
qed

lemma direct_fs_upd:
  assumes fs: "direct_fs fs" and k: "k < length (inode_table fs)"
    and wf: "wf_fs fs'" and i': "direct_inode i'"
    and table: "inode_table fs' = (inode_table fs)[k := i']"
    and len: "length (data_blocks fs') = length (data_blocks fs)"
    and lt: "\<And>p. p \<in> set (owned i') \<Longrightarrow> unat p < length (data_blocks fs)"
    and disj: "\<And>j p. j < length (inode_table fs) \<Longrightarrow> j \<noteq> k \<Longrightarrow> p \<in> set (owned i') \<Longrightarrow>
        p \<notin> set (owned (inode_table fs ! j))"
    and uniq: "\<And>j. j < length (inode_table fs) \<Longrightarrow> j \<noteq> k \<Longrightarrow>
        file_name (inode_table fs ! j) \<noteq> file_name i'"
  shows "direct_fs fs'"
proof -
  have "direct_inode i \<and> (\<forall>p \<in> set (owned i). unat p < length (data_blocks fs'))"
    if "i \<in> set (inode_table fs')" for i
  proof -
    have "i = i' \<or> i \<in> set (inode_table fs)"
      using that set_update_subset_insert [of "inode_table fs" k i'] by (auto simp: table)
    then show ?thesis using i' lt fs by (auto simp: direct_fs_def len)
  qed
  moreover have "set (owned (inode_table fs' ! j)) \<inter> set (owned (inode_table fs' ! m)) = {} \<and>
      (file_name (inode_table fs' ! j) = file_name (inode_table fs' ! m) \<longrightarrow>
         file_name (inode_table fs' ! j) = no_name)"
    if jm: "j < length (inode_table fs')" "m < length (inode_table fs')" "j \<noteq> m" for j m
  proof -
    have jl: "j < length (inode_table fs)" and ml: "m < length (inode_table fs)"
      using jm by (simp_all add: table)
    consider "j = k" | "m = k" | "j \<noteq> k" "m \<noteq> k" by blast
    then show ?thesis
    proof cases
      case 1
      then show ?thesis using jm(3) k disj [OF ml] uniq [OF ml] by (auto simp: table)
    next
      case 2
      then show ?thesis using jm(3) k disj [OF jl] uniq [OF jl] by (auto simp: table)
    next
      case 3
      then show ?thesis using fs jl ml jm(3) by (auto simp: table direct_fs_def)
    qed
  qed
  ultimately show ?thesis unfolding direct_fs_def using wf by blast
qed

text \<open>The same update takes no more free blocks than the set \<open>S\<close> it names.\<close>

lemma card_free_blocks_upd:
  assumes sb: "superblock fs' = superblock fs" and table: "inode_table fs' = (inode_table fs)[k := i']"
    and blocks: "\<And>q. q \<in> free_blocks fs \<Longrightarrow> q \<notin> S \<Longrightarrow> data_blocks fs' ! unat q = data_blocks fs ! unat q"
    and ptrs: "\<And>q. q \<in> set (owned i') \<Longrightarrow> q \<in> S \<or> q \<notin> free_blocks fs"
    and S: "finite S"
  shows "card (free_blocks fs) \<le> card (free_blocks fs') + card S"
proof -
  have "q \<in> free_blocks fs'" if q: "q \<in> free_blocks fs" "q \<notin> S" for q
  proof -
    have "q \<notin> set (data_block_pointers i')"
      using ptrs [of q] q free_blocks_nonzero [OF q(1)] by (auto simp: owned_def nonzero_def)
    moreover have "q \<notin> set (data_block_pointers i)" if "i \<in> set (inode_table fs)" for i
      using q(1) that by (auto simp: free_blocks_def direct_used_def list_ex_iff)
    ultimately have "\<not> direct_used fs' q"
      using set_update_subset_insert [of "inode_table fs" k i']
      by (auto simp: direct_used_def list_ex_iff table)
    then show ?thesis using q blocks by (simp add: free_blocks_def sb)
  qed
  then have "free_blocks fs \<subseteq> free_blocks fs' \<union> S" by blast
  then have "card (free_blocks fs) \<le> card (free_blocks fs' \<union> S)"
    using S by (intro card_mono) auto
  then show ?thesis using card_Un_le [of "free_blocks fs'" S] by linarith
qed

text \<open>A table longer than the number of files has a free inode.\<close>

lemma free_inode:
  assumes fs: "direct_fs fs" and room: "card (dom (files fs)) < length (inode_table fs)"
  shows "\<exists>i \<in> set (inode_table fs). \<not> live i"
proof (rule ccontr)
  assume "\<not> (\<exists>i \<in> set (inode_table fs). \<not> live i)"
  then have all: "file_name (inode_table fs ! j) \<noteq> no_name" if "j < length (inode_table fs)" for j
    using that direct_fs_inode [OF fs that] by (auto simp: direct_inode_def)
  have "distinct (map file_name (inode_table fs))"
    unfolding distinct_conv_nth using fs all by (auto simp: direct_fs_def)
  then have "card (set (map file_name (inode_table fs))) = length (inode_table fs)"
    using distinct_card by fastforce
  moreover have "set (map file_name (inode_table fs)) = dom (files fs)"
  proof (rule set_eqI)
    fix nm
    have "slot fs nm \<noteq> None \<longleftrightarrow> nm \<in> set (map file_name (inode_table fs))"
      by (auto simp: slot_def position_None)
    then show "nm \<in> set (map file_name (inode_table fs)) \<longleftrightarrow> nm \<in> dom (files fs)"
      using all by (auto simp: files_def dom_def in_set_conv_nth)
  qed
  ultimately show False using room by simp
qed

section \<open>read\_file\<close>

lemma map_nth_upt: "n \<le> length xs \<Longrightarrow> map ((!) xs) [a..<n] = drop a (take n xs)"
  by (rule nth_equalityI) simp_all

lemma read_file_files:
  assumes fs: "direct_fs fs" and name: "valid_name name"
  shows "read_file fs name = (case files fs (padded name) of
      None \<Rightarrow> Err FsFileNotFound | Some (md, bytes) \<Rightarrow> Ok (bytes, md))"
proof (cases "slot fs (padded name)")
  case None
  then show ?thesis using name
    by (simp add: read_file_def find_inode_by_name_slot files_def valid_name_def)
next
  case (Some k)
  define i where "i = inode_table fs ! k"
  have k: "k < length (inode_table fs)" and nm: "file_name i = padded name"
    using slot_SomeD [OF Some] by (auto simp: i_def)
  have di: "direct_inode i" using direct_fs_inode [OF fs k] by (simp add: i_def)
  have own: "owned i \<noteq> []" and num: "in_num_data_blocks i \<noteq> 0"
    using direct_inode_live [OF di] nm padded_neq_no_name [OF name] by auto
  have lt: "unat p < length (data_blocks fs)" if "p \<in> set (owned i)" for p
    using direct_fs_owned_lt [OF fs k] that by (simp add: i_def)
  have nle: "unat (in_num_data_blocks i) \<le> length (owned i)" using di by (simp add: direct_inode_def)
  have "concat_map_o (read_data_block fs (owned i)) [1..<unat (in_num_data_blocks i)] =
      Ok (concat (map (\<lambda>j. block_data (data_blocks fs ! unat (owned i ! j)))
        [1..<unat (in_num_data_blocks i)]))"
    using nle lt by (intro concat_map_o_Ok) (auto simp: read_data_block_def index_def)
  also have "map (\<lambda>j. block_data (data_blocks fs ! unat (owned i ! j))) [1..<unat (in_num_data_blocks i)]
      = map (\<lambda>p. block_data (data_blocks fs ! unat p)) (map ((!) (owned i)) [1..<unat (in_num_data_blocks i)])"
    by simp
  also have "map ((!) (owned i)) [1..<unat (in_num_data_blocks i)]
      = take (unat (in_num_data_blocks i) - 1) (tl (owned i))"
    using nle by (simp add: map_nth_upt drop_Suc tl_take)
  finally have data: "concat_map_o (read_data_block fs (owned i)) [1..<unat (in_num_data_blocks i)] =
      Ok (blocks_at fs (take (unat (in_num_data_blocks i) - 1) (tl (owned i))))"
    by (simp add: blocks_at_def)
  have "decode_metadata (block_data (data_blocks fs ! unat (hd (owned i)))) =
      Ok (metadata_of (block_data (data_blocks fs ! unat (hd (owned i)))))"
    using lt own by (intro decode_metadata_of wf_fs_block_length direct_fs_wf fs) simp
  then show ?thesis using Some name own lt data padded_neq_no_name [OF name]
    by (simp add: read_file_def find_inode_by_name_slot files_def valid_name_def i_def [symmetric]
        direct_inode_pointer0 [OF di] direct_addresses [OF di] index_ok file_of_def)
qed

section \<open>create\_file\<close>

lemma direct_fs_names: "direct_fs fs \<Longrightarrow> slot fs nm = Some k \<Longrightarrow> nm \<noteq> no_name \<Longrightarrow>
    j < length (inode_table fs) \<Longrightarrow> j \<noteq> k \<Longrightarrow> file_name (inode_table fs ! j) \<noteq> nm"
  unfolding direct_fs_def by (metis slot_SomeD)

lemma slot_None_names: "slot fs nm = None \<Longrightarrow> j < length (inode_table fs) \<Longrightarrow>
    file_name (inode_table fs ! j) \<noteq> nm"
  by (auto simp: slot_def position_None)

definition new_inode :: "u64 \<Rightarrow> string \<Rightarrow> Inode" where
  "new_inode p name = default_Inode\<lparr>in_num_data_blocks := 1,
     data_block_pointers := p # replicate 11 0, file_name := padded name\<rparr>"

definition new_metadata :: "(nat \<Rightarrow> u64) \<Rightarrow> perms \<Rightarrow> u64 \<Rightarrow> FileMetadata" where
  "new_metadata clk perms own = \<lparr>md_owner = own, creation_time = clk 0,
     modification_time = clk 1, access_time = clk 2, permissions = perms_bits perms\<rparr>"

lemma owned_new_inode: "p \<noteq> 0 \<Longrightarrow> owned (new_inode p name) = [p]"
  by (simp add: owned_def new_inode_def nonzero_def)

lemma direct_new_inode: "p \<noteq> 0 \<Longrightarrow> valid_name name \<Longrightarrow> direct_inode (new_inode p name)"
  using padded_neq_no_name [of name]
  by (simp add: direct_inode_def owned_new_inode live_def)
    (simp add: new_inode_def default_Inode_def valid_name_def length_padded)

lemma copy_name: "length name \<le> 384 \<Longrightarrow>
    copy_from_slice (replicate 384 0) 0 (length name) (as_bytes name) = Ok (padded name)"
  by (simp add: copy_from_slice_def splice_def padded_def)

lemma create_file_steps:
  assumes fs: "wf_fs fs" and name: "length name \<le> 384"
    and p: "find_empty_data_block fs None = Ok p"
  shows "create_file clk name perms own fs = create_inode (new_inode p name)
     (fs\<lparr>data_blocks := (data_blocks fs)[unat p :=
        \<lparr>block_data = metadata_bytes (new_metadata clk perms own)\<rparr>]\<rparr>)"
proof -
  have lt: "unat p < length (data_blocks fs)"
    using find_empty_data_block_Ok(1) [OF fs p] fs by (simp add: free_blocks_def wf_fs_length)
  have pointers: "index_set (replicate 12 0) 0 p = Ok (p # replicate 11 0)"
    by (simp add: index_set_def numeral_eq_Suc)
  show ?thesis
    by (simp add: create_file_def run_simps p pointers copy_name [OF name]
        write_to_data_block_ok [OF fs lt] new_metadata_def new_inode_def)
qed

lemma create_inode_ok:
  assumes "length (inode_table fs) = unat (num_inodes (superblock fs))"
    and "i \<in> set (inode_table fs)" and "\<not> live i"
  obtains k where "k < length (inode_table fs)" and "\<not> live (inode_table fs ! k)"
    and "create_inode inode fs = (Ok (), fs\<lparr>inode_table := (inode_table fs)[k := inode]\<rparr>)"
proof -
  obtain k where k: "find (\<lambda>i. in_num_data_blocks (inode_table fs ! i) = 0)
      [0..<length (inode_table fs)] = Some k"
    using assms(2,3) by (cases "find (\<lambda>i. in_num_data_blocks (inode_table fs ! i) = 0)
      [0..<length (inode_table fs)]") (auto simp: find_None_iff live_def in_set_conv_nth)
  then have "k < length (inode_table fs)" and "in_num_data_blocks (inode_table fs ! k) = 0"
    by (auto simp: find_Some_iff)
  then show thesis using k that [of k]
    by (simp add: create_inode_def bind_reads find_empty_inode_find [OF assms(1)] index_set_ok
        modify_def live_def)
qed

lemma create_file_refines:
  assumes fs: "direct_fs fs" and name: "valid_name name" and fresh: "files fs (padded name) = None"
    and block: "free_blocks fs \<noteq> {}"
    and table: "length (inode_table fs) = unat (num_inodes (superblock fs))"
    and slot: "i \<in> set (inode_table fs)" "\<not> live i"
  obtains fs' where "create_file clk name perms own fs = (Ok (), fs')" and "direct_fs fs'"
    and "files fs' = (files fs)(padded name \<mapsto> (new_metadata clk perms own, []))"
    and "superblock fs' = superblock fs" and "length (inode_table fs') = length (inode_table fs)"
    and "card (free_blocks fs) \<le> card (free_blocks fs') + 1"
proof -
  have wf: "wf_fs fs" using fs by (rule direct_fs_wf)
  have nm: "padded name \<noteq> no_name" and len: "length name \<le> 384"
    using name padded_neq_no_name by (auto simp: valid_name_def)
  obtain p where p: "find_empty_data_block fs None = Ok p"
    using find_empty_data_block_progress [OF wf] block by blast
  have free: "p \<in> free_blocks fs" using find_empty_data_block_Ok(1) [OF wf p] .
  have lt: "unat p < length (data_blocks fs)" using free wf by (simp add: free_blocks_def wf_fs_length)
  define fs1 where "fs1 = fs\<lparr>data_blocks := (data_blocks fs)[unat p :=
        \<lparr>block_data = metadata_bytes (new_metadata clk perms own)\<rparr>]\<rparr>"
  obtain k where k: "k < length (inode_table fs)" and dead: "\<not> live (inode_table fs ! k)"
    and run: "create_inode (new_inode p name) fs1 =
      (Ok (), fs1\<lparr>inode_table := (inode_table fs1)[k := new_inode p name]\<rparr>)"
    using create_inode_ok [of fs1 i "new_inode p name"] table slot by (auto simp: fs1_def)
  define fs' where "fs' = fs1\<lparr>inode_table := (inode_table fs1)[k := new_inode p name]\<rparr>"
  note p0 = free_blocks_nonzero [OF free]
  have "wf_fs fs1" using wf by (simp add: fs1_def wf_fs_set_block)
  then have wf': "wf_fs fs'"
    using direct_inode_wf [OF direct_new_inode [OF p0 name]]
    unfolding fs'_def by (rule wf_fs_set_inode)
  have none: "slot fs (padded name) = None" using fresh nm by (simp add: files_def)
  have other: "p \<notin> set (owned (inode_table fs ! j))" if "j < length (inode_table fs)" for j
    using owned_not_free [OF that] free by blast
  have name': "file_name (new_inode p name) = padded name" by (simp add: new_inode_def)
  have "direct_fs fs'"
    using lt other slot_None_names [OF none]
    by (intro direct_fs_upd [OF fs k wf' direct_new_inode [OF p0 name]])
      (auto simp: fs'_def fs1_def owned_new_inode [OF p0] name')
  moreover have "files fs' = (files fs)(padded name \<mapsto> file_of fs' (new_inode p name))"
  proof (rule files_upd [OF fs k _ nm])
    show "file_name (inode_table fs ! k) = padded name \<or> file_name (inode_table fs ! k) = no_name"
      using direct_fs_inode [OF fs k] dead by (simp add: direct_inode_def)
    show "data_blocks fs' ! unat q = data_blocks fs ! unat q"
      if "j < length (inode_table fs)" "q \<in> set (owned (inode_table fs ! j))" for j q
    proof -
      have "p \<noteq> q" using other [OF that(1)] that(2) by blast
      then show ?thesis by (simp add: fs'_def fs1_def nth_block_neq)
    qed
  qed (use slot_None_names [OF none] in \<open>auto simp: fs'_def fs1_def new_inode_def\<close>)
  moreover have "file_of fs' (new_inode p name) = (new_metadata clk perms own, [])"
    using lt by (simp add: file_of_def owned_new_inode [OF p0] blocks_at_def fs'_def fs1_def)
  moreover have "card (free_blocks fs) \<le> card (free_blocks fs') + card {p}"
    by (rule card_free_blocks_upd [where k = k and i' = "new_inode p name"])
      (auto simp: fs'_def fs1_def nth_block_neq owned_new_inode [OF p0])
  ultimately show thesis
    using that [of fs'] run create_file_steps [OF wf len p] by (simp add: fs'_def fs1_def)
qed

section \<open>Blank filesystems\<close>

lemma wf_default_Inode: "wf_inode default_Inode"
  by (simp add: wf_inode_def default_Inode_def)

lemma direct_default_Inode: "direct_inode default_Inode"
proof -
  have "owned default_Inode = []" by (simp add: owned_def nonzero_def default_Inode_def)
  then show ?thesis
    by (simp add: direct_inode_def live_def) (simp add: default_Inode_def no_name_def)
qed

lemma not_live_default [simp]: "\<not> live default_Inode"
  by (simp add: live_def default_Inode_def)

text \<open>An image in memory with blank inodes and zeroed blocks.\<close>

lemma blank_fs:
  assumes fs: "inode_table fs = replicate n default_Inode" "data_blocks fs = replicate m zero_block"
    and m: "unat (num_data_blocks (superblock fs)) = m"
  shows "direct_fs fs" and "files fs = Map.empty" and "card (free_blocks fs) = m - 1"
proof -
  have own: "owned default_Inode = []" by (simp add: owned_def nonzero_def default_Inode_def)
  show "direct_fs fs"
    using fs m direct_default_Inode wf_default_Inode
    by (auto simp: direct_fs_def wf_fs_def own zero_block_def) (simp_all add: default_Inode_def no_name_def)
  show "files fs = Map.empty"
  proof
    fix nm
    have "slot fs nm = None" if "nm \<noteq> no_name"
      using that fs by (auto simp: slot_def position_None default_Inode_def no_name_def)
    then show "files fs nm = None" by (simp add: files_def)
  qed
  have "p \<in> free_blocks fs \<longleftrightarrow> p \<in> word_of_nat ` {1..<m}" for p
  proof
    assume "p \<in> free_blocks fs"
    then have "unat p \<in> {1..<m}" using m by (auto simp: free_blocks_def)
    then show "p \<in> word_of_nat ` {1..<m}" 
      by (intro image_eqI [where x = "unat p"]) simp_all
  next
    assume "p \<in> word_of_nat ` {1..<m}"
    then obtain i where i: "p = word_of_nat i" "1 \<le> i" "i < m" by auto
    have u: "unat p = i" using i m unat_word_of_nat_lt [of i "num_data_blocks (superblock fs)"] by simp
    then have "p \<noteq> 0" using i by auto
    then have "\<not> direct_used fs p" using fs by (auto simp: direct_used_def list_ex_iff default_Inode_def)
    then show "p \<in> free_blocks fs" using u i m fs by (simp add: free_blocks_def zero_block_def)
  qed
  then have "free_blocks fs = word_of_nat ` {1..<m}" by blast
  moreover have "inj_on (word_of_nat :: nat \<Rightarrow> u64) {1..<m}"
  proof (rule inj_onI)
    fix i j assume "i \<in> {1..<m}" "j \<in> {1..<m}" and eq: "(word_of_nat i :: u64) = word_of_nat j"
    then have "i < unat (num_data_blocks (superblock fs))" "j < unat (num_data_blocks (superblock fs))"
      using m by simp_all
    then have "unat (word_of_nat i :: u64) = i" "unat (word_of_nat j :: u64) = j"
      by (blast intro: unat_word_of_nat_lt)+
    then show "i = j" unfolding eq by (rule trans [OF sym])
  qed
  ultimately show "card (free_blocks fs) = m - 1" by (simp add: card_image)
qed

text \<open>A small blank filesystem, on which the properties below are instantiated.\<close>

definition sample_fs :: PhysFs where
  "sample_fs = \<lparr>
     superblock = \<lparr>magic_number = MAGIC_NUMBER, disk_size = 25, inode_table_size = 8,
       data_block_size = 512, num_inodes = 8, num_data_blocks = 16\<rparr>,
     inode_table = replicate 8 default_Inode,
     data_blocks = replicate 16 zero_block\<rparr>"

lemma sample_fs_blank:
  shows "direct_fs sample_fs" and "files sample_fs = Map.empty" and "card (free_blocks sample_fs) = 15"
  using blank_fs [of sample_fs 8 16] by (simp_all add: sample_fs_def)

lemma sample_fs_table: "length (inode_table sample_fs) = unat (num_inodes (superblock sample_fs))"
    "default_Inode \<in> set (inode_table sample_fs)" "length (inode_table sample_fs) = 8"
  by (simp_all add: sample_fs_def)

lemma sample_fs_free: "free_blocks sample_fs \<noteq> {}"
  using sample_fs_blank(3) by auto

section \<open>Properties\<close>

text \<open>
  C15. Reading a file: on a filesystem that keeps the invariant, \<open>read_file\<close> returns the
  contents and the metadata that the store has under the padded name, and
  \<open>FileNotFound\<close> when it has none.
\<close>

theorem read_file_looks_up:
  assumes "direct_fs fs" and "valid_name name"
  shows "read_file fs name = (case files fs (padded name) of
      None \<Rightarrow> Err FsFileNotFound | Some (md, bytes) \<Rightarrow> Ok (bytes, md))"
  using assms by (rule read_file_files)

theorem read_file_looks_up_witness:
  "read_file sample_fs ''/etc/users'' = Err FsFileNotFound"
  using read_file_looks_up [OF sample_fs_blank(1), of "''/etc/users''"]
  by (simp add: sample_fs_blank(2) valid_name_def)

text \<open>
  C4. Creating a file: given a free block and a free inode, \<open>create_file\<close> succeeds, keeps
  the invariant and adds one empty file with the given owner and permissions to the store;
  every other file is as before.
\<close>

theorem create_file_inserts:
  assumes "direct_fs fs" and "valid_name name" and "files fs (padded name) = None"
    and "free_blocks fs \<noteq> {}"
    and "length (inode_table fs) = unat (num_inodes (superblock fs))"
    and "i \<in> set (inode_table fs)" and "\<not> live i"
  shows "\<exists>fs'. create_file clk name perms own fs = (Ok (), fs') \<and> direct_fs fs' \<and>
    files fs' = (files fs)(padded name \<mapsto> (new_metadata clk perms own, []))"
  using create_file_refines [OF assms] by blast

theorem create_file_inserts_witness:
  "\<exists>fs'. create_file (\<lambda>_. 7) ''/a'' (6, 6, 6) 0 sample_fs = (Ok (), fs') \<and> direct_fs fs' \<and>
    files fs' = [padded ''/a'' \<mapsto> (new_metadata (\<lambda>_. 7) (6, 6, 6) 0, [])]"
  using create_file_inserts [OF sample_fs_blank(1), of "''/a''" default_Inode]
  by (simp add: sample_fs_blank(2) sample_fs_free sample_fs_table valid_name_def)

end
