(* ===== verification/Fs_Write.thy ===== *)
theory Fs_Write
  imports Fs_Files
begin

text \<open>
  \<open>write_file\<close> on a file that fits the direct pointers: with enough free blocks it
  succeeds, keeps the invariant of \<open>Fs_Files\<close>, and replaces exactly one file of the
  abstract store by the padded bytes and the updated metadata.
\<close>

section \<open>Sizes\<close>

lemma free_blocks_lt: "wf_fs fs \<Longrightarrow> p \<in> free_blocks fs \<Longrightarrow> unat p < length (data_blocks fs)"
  by (simp add: free_blocks_def wf_fs_length)

definition blocks_needed :: "nat \<Rightarrow> nat" where
  "blocks_needed len = len div 512 + 1"

lemma length_pad_data: "length (pad_data bytes) = 512 * blocks_needed (length bytes)"
proof -
  define q r where "q = length bytes div 512" and "r = length bytes mod 512"
  have "length bytes = 512 * q + r" and "r < 512" by (simp_all add: q_def r_def)
  then show ?thesis
    unfolding pad_data_def blocks_needed_def length_resize q_def [symmetric] r_def [symmetric]
    by simp
qed

lemma ceil_blocks_pad_data [simp]: "ceil_blocks (length (pad_data bytes)) = blocks_needed (length bytes)"
  by (simp add: length_pad_data ceil_blocks_def)

lemma pad_data_prefix: "pad_data bytes = bytes @ replicate (512 - length bytes mod 512) 0"
  by (simp add: pad_data_def resize_grow)

lemma concat_chunks: "length xs = m * n \<Longrightarrow> concat (map (\<lambda>k. take m (drop (m * k) xs)) [0..<n]) = xs"
proof (induction n arbitrary: xs)
  case (Suc n)
  have "concat (map (\<lambda>k. take m (drop (m * k) (drop m xs))) [0..<n]) = drop m xs"
    using Suc.prems by (intro Suc.IH) simp
  then have "concat (map (\<lambda>k. take m (drop (m * Suc k) xs)) [0..<n]) = drop m xs"
    by (simp add: add.commute)
  moreover have "[0..<Suc n] = 0 # map Suc [0..<n]"
    by (simp add: map_Suc_upt upt_conv_Cons del: upt_Suc)
  ultimately show ?case by (simp add: comp_def del: upt_Suc)
qed simp

section \<open>The steps of write\_file\<close>

definition updated_metadata :: "(nat \<Rightarrow> u64) \<Rightarrow> perms option \<Rightarrow> u64 option \<Rightarrow> FileMetadata \<Rightarrow> FileMetadata" where
  "updated_metadata clk perms own md = \<lparr>
     md_owner = (case own of None \<Rightarrow> md_owner md | Some u \<Rightarrow> u),
     creation_time = creation_time md,
     modification_time = clk 0,
     access_time = access_time md,
     permissions = (case perms of None \<Rightarrow> permissions md | Some p \<Rightarrow> perms_bits p)\<rparr>"

lemma write_metadata_ok:
  assumes wf: "wf_fs fs" and di: "direct_inode i" and own: "owned i \<noteq> []"
    and lt: "unat (hd (owned i)) < length (data_blocks fs)"
  shows "write_metadata clk i perms u fs = (Ok (), fs\<lparr>data_blocks := (data_blocks fs)
     [unat (hd (owned i)) := \<lparr>block_data = metadata_bytes (updated_metadata clk perms u
        (metadata_of (block_data (data_blocks fs ! unat (hd (owned i))))))\<rparr>]\<rparr>)"
proof -
  have len: "length (block_data (data_blocks fs ! unat (hd (owned i)))) = 512"
    using wf_fs_block_length [OF wf lt] .
  show ?thesis
    by (simp add: write_metadata_def run_simps direct_inode_pointer0 [OF di own] index_ok [OF lt]
        copy_from_slice_full len decode_metadata_of [OF len] write_to_data_block_ok [OF wf lt]
        updated_metadata_def)
qed

lemma choose_blocks:
  assumes wf: "wf_fs fs" and n: "0 < n" and p0: "p0 \<notin> free_blocks fs"
    and ex: "set existing \<inter> free_blocks fs = {}"
    and room: "n - length existing \<le> card (free_blocks fs)"
  obtains news where "for_acc (choose_block existing) [0..<n] ((replicate n 0)[0 := p0]) fs =
      (Ok (take n existing @ news), fs)"
    and "length news = n - length existing" and "distinct news" and "set news \<subseteq> free_blocks fs"
proof -
  let ?P = "\<lambda>i v s. s = fs \<and> length v = n \<and> set (drop i v) \<subseteq> {0, p0} \<and>
    (\<exists>news. take i v = take i existing @ news \<and> length news = i - length existing \<and>
       distinct news \<and> set news \<subseteq> free_blocks fs)"
  have "\<exists>v' s'. for_acc (choose_block existing) [0..<n] ((replicate n 0)[0 := p0]) fs = (Ok v', s') \<and> ?P n v' s'"
  proof (rule for_acc_upt [where P = ?P])
    have "set ((replicate n 0)[0 := p0]) \<subseteq> insert p0 (set (replicate n 0))"
      by (rule set_update_subset_insert)
    then show "?P 0 ((replicate n 0)[0 := p0]) fs" by (auto split: if_splits)
  next
    fix i v s assume i: "i < n" and P: "?P i v s"
    then obtain news where s: "s = fs" and len: "length v = n" and rest: "set (drop i v) \<subseteq> {0, p0}"
      and tk: "take i v = take i existing @ news" and ln: "length news = i - length existing"
      and d: "distinct news" and sub: "set news \<subseteq> free_blocks fs" by blast
    have step: "?P (Suc i) (v[i := p]) fs"
      if "\<exists>news. take (Suc i) (v[i := p]) = take (Suc i) existing @ news \<and>
          length news = Suc i - length existing \<and> distinct news \<and> set news \<subseteq> free_blocks fs" for p
    proof -
      have "set (drop (Suc i) (v[i := p])) \<subseteq> set (drop i v)"
        by (simp add: set_drop_subset_set_drop)
      then show ?thesis using that rest len by auto
    qed
    have tk': "take (Suc i) (v[i := p]) = take i v @ [p]" for p
      using i len by (simp add: take_Suc_conv_app_nth)
    show "\<exists>v' s'. choose_block existing i v s = (Ok v', s') \<and> ?P (Suc i) v' s'"
    proof (cases "i < length existing")
      case True
      then have "news = []" using ln by simp
      then have "?P (Suc i) (v[i := existing ! i]) fs"
        using True tk tk' by (intro step) (auto simp: take_Suc_conv_app_nth)
      then show ?thesis using True s i len by (auto simp: choose_block_def run_simps index_set_ok)
    next
      case False
      have "card (set news) < card (free_blocks fs)"
        using d ln False i room by (simp add: distinct_card)
      then obtain q where q: "q \<in> free_blocks fs" "q \<notin> set news"
        using sub by (metis card_mono finite_free_blocks finite_set leD subsetI)
      have "q \<notin> set v"
      proof -
        have "set v = set (take i v) \<union> set (drop i v)" by (metis append_take_drop_id set_append)
        moreover have "q \<notin> set existing" "q \<noteq> 0" "q \<noteq> p0"
          using q(1) ex p0 free_blocks_nonzero by auto
        ultimately show ?thesis using rest tk q(2) by (auto dest: in_set_takeD)
      qed
      then obtain p where p: "find_empty_data_block fs (Some v) = Ok p"
        using find_empty_data_block_progress [OF wf q(1), of "Some v"] by auto
      have pf: "p \<in> free_blocks fs" and pv: "p \<notin> set v"
        using find_empty_data_block_Ok [OF wf p] by auto
      have "p \<notin> set news" using pv tk by (metis Un_iff in_set_takeD set_append)
      then have "?P (Suc i) (v[i := p]) fs"
        using False tk tk' ln d sub pf
        by (intro step exI [of _ "news @ [p]"]) auto
      then show ?thesis using False s i len p by (auto simp: choose_block_def run_simps index_set_ok)
    qed
  qed simp
  then show thesis using that by auto
qed


definition chunk :: "u8 list \<Rightarrow> nat \<Rightarrow> u8 list" where
  "chunk bytes k = take 512 (drop (512 * k) bytes)"

lemma write_blocks:
  assumes wf: "wf_fs fs" and d: "distinct ptrs" and lt: "\<And>p. p \<in> set ptrs \<Longrightarrow> unat p < length (data_blocks fs)"
    and len: "length bytes = 512 * length ptrs"
  obtains fs' where "for_each (write_block ptrs bytes) [0..<length ptrs] fs = (Ok (), fs')"
    and "wf_fs fs'" and "superblock fs' = superblock fs" and "inode_table fs' = inode_table fs"
    and "length (data_blocks fs') = length (data_blocks fs)"
    and "blocks_at fs' ptrs = bytes"
    and "\<And>q. q \<notin> set ptrs \<Longrightarrow> data_blocks fs' ! unat q = data_blocks fs ! unat q"
proof -
  let ?P = "\<lambda>i s. wf_fs s \<and> superblock s = superblock fs \<and> inode_table s = inode_table fs \<and>
    length (data_blocks s) = length (data_blocks fs) \<and>
    (\<forall>k < i. data_blocks s ! unat (ptrs ! k) = \<lparr>block_data = chunk bytes k\<rparr>) \<and>
    (\<forall>q. q \<notin> set ptrs \<longrightarrow> data_blocks s ! unat q = data_blocks fs ! unat q)"
  have "\<exists>s'. for_each (write_block ptrs bytes) [0..<length ptrs] fs = (Ok (), s') \<and> ?P (length ptrs) s'"
  proof (rule for_each_upt [where P = ?P])
    fix i s assume i: "i < length ptrs" and P: "?P i s"
    have s: "wf_fs s" and ilt: "unat (ptrs ! i) < length (data_blocks s)"
      using P lt i by auto
    have lc: "length (chunk bytes i) = 512" using i len by (simp add: chunk_def)
    define s' where "s' = s\<lparr>data_blocks := (data_blocks s)[unat (ptrs ! i) := \<lparr>block_data = chunk bytes i\<rparr>]\<rparr>"
    have "slice bytes (i * 512) ((i + 1) * 512) = (Ok (chunk bytes i) :: (FsError, u8 list) outcome)"
      using i len by (simp add: slice_def chunk_def mult.commute)
    then have run: "write_block ptrs bytes i s = (Ok (), s')"
      using i by (simp add: write_block_def run_simps index_ok write_to_data_block_ok [OF s ilt lc] s'_def)
    have "data_blocks s' ! unat (ptrs ! k) = \<lparr>block_data = chunk bytes k\<rparr>" if "k < Suc i" for k
    proof (cases "k = i")
      case True
      then show ?thesis using ilt by (simp add: s'_def)
    next
      case False
      then have "ptrs ! i \<noteq> ptrs ! k" using that i d by (auto simp: nth_eq_iff_index_eq)
      then show ?thesis using P False that by (simp add: s'_def nth_block_neq)
    qed
    moreover have "data_blocks s' ! unat q = data_blocks fs ! unat q" if "q \<notin> set ptrs" for q
    proof -
      have "ptrs ! i \<noteq> q" using that i by auto
      then show ?thesis using P that by (simp add: s'_def nth_block_neq)
    qed
    moreover have "wf_fs s'" unfolding s'_def using s lc by (simp add: wf_fs_set_block)
    ultimately have "?P (Suc i) s'" using P by (simp add: s'_def)
    then show "\<exists>s'. write_block ptrs bytes i s = (Ok (), s') \<and> ?P (Suc i) s'"
      using run by blast
  qed (use wf in simp_all)
  then obtain fs' where run: "for_each (write_block ptrs bytes) [0..<length ptrs] fs = (Ok (), fs')"
    and P: "?P (length ptrs) fs'" by blast
  have "map (\<lambda>p. block_data (data_blocks fs' ! unat p)) ptrs = map (chunk bytes) [0..<length ptrs]"
    using P by (intro nth_equalityI) simp_all
  then have "blocks_at fs' ptrs = concat (map (chunk bytes) [0..<length ptrs])"
    unfolding blocks_at_def by simp
  also have "\<dots> = bytes" unfolding chunk_def using len by (rule concat_chunks)
  finally have "blocks_at fs' ptrs = bytes" .
  then show thesis using that [OF run] P by blast
qed

lemma link_blocks:
  assumes "length d = 12" and "length ptrs \<le> 11" and "data_block_pointers u = d"
  shows "for_acc (link_block ptrs) [0..<length ptrs] u fs =
    (Ok (u\<lparr>data_block_pointers := take 1 d @ ptrs @ drop (length ptrs + 1) d\<rparr>), fs)"
proof -
  let ?P = "\<lambda>i v s. s = fs \<and> v = u\<lparr>data_block_pointers := take 1 d @ take i ptrs @ drop (i + 1) d\<rparr>"
  have "\<exists>v' s'. for_acc (link_block ptrs) [0..<length ptrs] u fs = (Ok v', s') \<and> ?P (length ptrs) v' s'"
  proof (rule for_acc_upt [where P = ?P])
    show "?P 0 u fs" using assms(3) by (simp add: append_take_drop_id [of 1 d, simplified])
  next
    fix i v s assume i: "i < length ptrs" and P: "?P i v s"
    have "(take 1 d @ take i ptrs @ drop (i + 1) d)[i + 1 := ptrs ! i] =
        take 1 d @ take (Suc i) ptrs @ drop (Suc i + 1) d"
      using assms i by (auto simp: list_update_append take_Suc_conv_app_nth
          Cons_nth_drop_Suc [of "Suc i" d, symmetric] min_def)
    then have "link_block ptrs i v s = (Ok (u\<lparr>data_block_pointers :=
        take 1 d @ take (Suc i) ptrs @ drop (Suc i + 1) d\<rparr>), fs)"
      using P assms i by (simp add: link_block_def run_simps index_ok index_set_def)
    then show "\<exists>v' s'. link_block ptrs i v s = (Ok v', s') \<and> ?P (Suc i) v' s'" by blast
  qed simp
  then show ?thesis by auto
qed

section \<open>write\_file\<close>

text \<open>The data blocks a file already owns: its block list without the metadata block.\<close>

definition capacity :: "PhysFs \<Rightarrow> u8 list \<Rightarrow> nat" where
  "capacity fs nm = (case slot fs nm of None \<Rightarrow> 0
     | Some k \<Rightarrow> length (owned (inode_table fs ! k)) - 1)"

lemma free_blocks_set_used: "direct_used fs p \<Longrightarrow>
    free_blocks (fs\<lparr>data_blocks := (data_blocks fs)[unat p := b]\<rparr>) = free_blocks fs"
  by (auto simp: free_blocks_def direct_used_def nth_block_neq)
    (metis nth_block_neq)+

text \<open>The inode that \<open>write_file\<close> leaves.\<close>

definition rewritten :: "u64 list \<Rightarrow> Inode \<Rightarrow> Inode" where
  "rewritten ptrs i = i\<lparr>in_num_data_blocks := word_of_nat (length ptrs + 1),
     data_block_pointers := take 1 (data_block_pointers i) @ ptrs @
       drop (length ptrs + 1) (data_block_pointers i)\<rparr>"

lemma owned_rewritten:
  assumes "direct_inode i" and "owned i = p0 # existing" and "0 \<notin> set ptrs"
  shows "owned (rewritten ptrs i) = p0 # ptrs @ drop (length ptrs) existing"
proof -
  obtain m where d: "data_block_pointers i = p0 # existing @ replicate m 0"
    using assms by (simp add: direct_inode_def)
  have "p0 \<noteq> 0" and "0 \<notin> set existing"
    using assms(2) owned_nonzero [of _ i] by force+
  moreover from this have "filter (\<lambda>p. p \<noteq> 0) (drop (length ptrs) existing) = drop (length ptrs) existing"
    by (intro filter_True) (auto dest: in_set_dropD)
  moreover have "filter (\<lambda>p. p \<noteq> 0) ptrs = ptrs"
    using assms(3) by (intro filter_True) auto
  ultimately show ?thesis by (simp add: owned_def nonzero_def rewritten_def d)
qed

lemma direct_rewritten:
  assumes di: "direct_inode i" and own: "owned i = p0 # existing" and z: "0 \<notin> set ptrs"
    and d: "distinct (p0 # ptrs @ drop (length ptrs) existing)" and len: "length ptrs \<le> 11"
    and lv: "live i"
  shows "direct_inode (rewritten ptrs i)"
proof -
  have own': "owned (rewritten ptrs i) = p0 # ptrs @ drop (length ptrs) existing"
    using owned_rewritten [OF di own z] .
  have ex: "length existing \<le> 11" using di own by (simp add: direct_inode_def)
  have dbp: "data_block_pointers i = p0 # existing @ replicate (11 - length existing) 0"
    using di own by (simp add: direct_inode_def)
  have "data_block_pointers (rewritten ptrs i) =
      owned (rewritten ptrs i) @ replicate (12 - length (owned (rewritten ptrs i))) 0"
    using len ex unfolding own' by (simp add: rewritten_def dbp)
  moreover have "unat (in_num_data_blocks (rewritten ptrs i)) = length ptrs + 1"
    using len by (simp add: rewritten_def unat_of_nat del: of_nat_Suc of_nat_add)
  moreover have "live (rewritten ptrs i)"
    using calculation(2) by (auto simp: live_def)
  ultimately show ?thesis
    using di d len ex lv by (simp add: direct_inode_def own') (simp add: rewritten_def)
qed

text \<open>What a file of the store is in the image: its slot, inode and blocks.\<close>

lemma files_lookup:
  assumes fs: "direct_fs fs" and nm: "files fs nm = Some (md, old)"
  obtains k i p0 existing where "slot fs nm = Some k" and "k < length (inode_table fs)"
    and "inode_table fs ! k = i" and "file_name i = nm" and "nm \<noteq> no_name" and "direct_inode i"
    and "live i" and "owned i = p0 # existing"
    and "metadata_of (block_data (data_blocks fs ! unat p0)) = md"
    and "\<forall>p \<in> set (owned i). unat p < length (data_blocks fs) \<and> p \<notin> free_blocks fs"
    and "direct_used fs p0"
proof -
  obtain k where k: "slot fs nm = Some k" and ne: "nm \<noteq> no_name"
    and contents: "file_of fs (inode_table fs ! k) = (md, old)"
    using nm by (auto simp: files_def split: if_splits)
  have klt: "k < length (inode_table fs)" and name: "file_name (inode_table fs ! k) = nm"
    using slot_SomeD [OF k] by auto
  note di = direct_fs_inode [OF fs klt]
  obtain p0 existing where own: "owned (inode_table fs ! k) = p0 # existing"
    using direct_inode_live [OF di] name ne by (cases "owned (inode_table fs ! k)") auto
  show thesis
    using that [OF k klt refl name ne di _ own] direct_inode_live [OF di] name ne contents own
      direct_fs_owned_lt [OF fs klt] owned_not_free [OF klt] owned_used [OF nth_mem [OF klt]]
    by (auto simp: live_def file_of_def)
qed

lemma write_file_run:
  assumes fs: "direct_fs fs" and name: "valid_name name"
    and exists: "files fs (padded name) = Some (md, old)"
    and small: "blocks_needed (length bytes) \<le> 11"
    and room: "blocks_needed (length bytes) - capacity fs (padded name) \<le> card (free_blocks fs)"
  obtains k i p0 existing ptrs fs2 where
      "slot fs (padded name) = Some k" and "inode_table fs ! k = i" and "owned i = p0 # existing"
    and "write_file clk name bytes perms own fs =
           (Ok (), fs2\<lparr>inode_table := (inode_table fs)[k := rewritten ptrs i]\<rparr>)"
    and "length ptrs = blocks_needed (length bytes)"
    and "distinct (p0 # ptrs @ drop (length ptrs) existing)"
    and "\<And>p. p \<in> set ptrs \<Longrightarrow> p \<in> set existing \<or> p \<in> free_blocks fs"
    and "card (set ptrs - set existing) \<le> length ptrs - length existing"
    and "wf_fs fs2" and "superblock fs2 = superblock fs" and "inode_table fs2 = inode_table fs"
    and "length (data_blocks fs2) = length (data_blocks fs)"
    and "blocks_at fs2 ptrs = pad_data bytes"
    and "block_data (data_blocks fs2 ! unat p0) = metadata_bytes (updated_metadata clk perms own md)"
    and "\<And>q. q \<noteq> p0 \<Longrightarrow> q \<notin> set ptrs \<Longrightarrow> data_blocks fs2 ! unat q = data_blocks fs ! unat q"
proof -
  let ?n = "blocks_needed (length bytes)"
  note wf = direct_fs_wf [OF fs]
  have len: "length name \<le> 384" using name by (simp add: valid_name_def)
  obtain k i p0 existing where k: "slot fs (padded name) = Some k" and klt: "k < length (inode_table fs)"
    and i: "inode_table fs ! k = i" and iname: "file_name i = padded name" and "padded name \<noteq> no_name"
    and di: "direct_inode i" and "live i" and own: "owned i = p0 # existing"
    and md: "metadata_of (block_data (data_blocks fs ! unat p0)) = md"
    and blocks: "\<forall>p \<in> set (owned i). unat p < length (data_blocks fs) \<and> p \<notin> free_blocks fs"
    and used: "direct_used fs p0"
    using files_lookup [OF fs exists] by blast
  have own0: "owned i \<noteq> []" using own by simp
  \<comment> \<open>the metadata block\<close>
  define fs1 where "fs1 = fs\<lparr>data_blocks := (data_blocks fs)
     [unat p0 := \<lparr>block_data = metadata_bytes (updated_metadata clk perms own md)\<rparr>]\<rparr>"
  have run1: "write_metadata clk i perms own fs = (Ok (), fs1)"
    using write_metadata_ok [OF wf di own0, of clk perms own] blocks own md by (simp add: fs1_def)
  have wf1: "wf_fs fs1" using wf by (simp add: fs1_def wf_fs_set_block)
  have free1: "free_blocks fs1 = free_blocks fs"
    unfolding fs1_def using used by (rule free_blocks_set_used)
  \<comment> \<open>the data blocks\<close>
  obtain news where run2: "for_acc (choose_block existing) [0..<?n] ((replicate ?n 0)[0 := p0]) fs1 =
      (Ok (take ?n existing @ news), fs1)" and lnews: "length news = ?n - length existing"
    and dnews: "distinct news" and fnews: "set news \<subseteq> free_blocks fs"
    using choose_blocks [OF wf1, of ?n p0 existing] blocks own room k
    by (auto simp: free1 capacity_def i blocks_needed_def disjoint_iff)
  define ptrs where "ptrs = take ?n existing @ news"
  have lptrs: "length ptrs = ?n" using lnews by (simp add: ptrs_def min_def)
  have sub: "p \<in> set existing \<or> p \<in> free_blocks fs" if "p \<in> set ptrs" for p
    using that fnews by (auto simp: ptrs_def dest: in_set_takeD)
  have fresh: "card (set ptrs - set existing) \<le> length ptrs - length existing"
  proof -
    have "set ptrs - set existing \<subseteq> set news" by (auto simp: ptrs_def dest: in_set_takeD)
    then have "card (set ptrs - set existing) \<le> length news"
      by (meson List.finite_set card_length card_mono le_trans)
    then show ?thesis using lnews lptrs by simp
  qed
  have dall: "distinct (p0 # ptrs @ drop ?n existing)"
  proof -
    have "distinct (owned i)" using di by (simp add: direct_inode_def)
    moreover have "set news \<inter> set (owned i) = {}" using fnews blocks by blast
    ultimately have "distinct (p0 # news @ existing)" using dnews own by auto
    then have "distinct (p0 # news @ take ?n existing @ drop ?n existing)"
      by (simp only: append_take_drop_id)
    then show ?thesis
      by (simp only: ptrs_def distinct.simps distinct_append set_append append_assoc) blast
  qed
  have ltp: "unat p < length (data_blocks fs1)" if "p \<in> set ptrs" for p
    using sub [OF that] blocks own free_blocks_lt [OF wf] by (auto simp: fs1_def)
  obtain fs2 where run3: "for_each (write_block ptrs (pad_data bytes)) [0..<?n] fs1 = (Ok (), fs2)"
    and fs2: "wf_fs fs2" "superblock fs2 = superblock fs1"
    and table2: "inode_table fs2 = inode_table fs1"
    and len2: "length (data_blocks fs2) = length (data_blocks fs1)"
    and data2: "blocks_at fs2 ptrs = pad_data bytes"
    and frame2: "\<And>q. q \<notin> set ptrs \<Longrightarrow> data_blocks fs2 ! unat q = data_blocks fs1 ! unat q"
    using write_blocks [OF wf1, of ptrs "pad_data bytes"] dall ltp
    by (auto simp: length_pad_data lptrs)
  \<comment> \<open>the inode\<close>
  define u1 where "u1 = i\<lparr>in_num_data_blocks := word_of_nat (Suc (length ptrs))\<rparr>"
  define fs3 where "fs3 = fs2\<lparr>inode_table := (inode_table fs2)[k := u1]\<rparr>"
  have run4: "update_inode u1 fs2 = (Ok (), fs3)"
    unfolding fs3_def using k iname by (intro update_inode_slot) (simp add: u1_def slot_def table2 fs1_def)
  have run5: "for_acc (link_block ptrs) [0..<length ptrs] u1 fs3 = (Ok (rewritten ptrs i), fs3)"
    using link_blocks [of "data_block_pointers i" ptrs u1 fs3] direct_inode_wf [OF di] lptrs small
    by (simp add: u1_def rewritten_def wf_inode_def)
  have "map file_name (inode_table fs3) = map file_name (inode_table fs)"
    using iname klt i by (simp add: fs3_def table2 fs1_def map_update u1_def list_update_same_conv)
  then have run6: "update_inode (rewritten ptrs i) fs3 =
      (Ok (), fs3\<lparr>inode_table := (inode_table fs3)[k := rewritten ptrs i]\<rparr>)"
    using k iname by (intro update_inode_slot) (simp add: slot_map rewritten_def)
  have idx: "obind (index (data_block_pointers i) 0) (\<lambda>p0. index_set (replicate ?n 0) 0 p0) =
      (Ok ((replicate ?n 0)[0 := p0]) :: (FsError, u64 list) outcome)"
    using direct_inode_pointer0 [OF di own0] own by (simp add: index_set_def blocks_needed_def)
  have "write_file clk name bytes perms own fs =
      (Ok (), fs3\<lparr>inode_table := (inode_table fs3)[k := rewritten ptrs i]\<rparr>)"
    unfolding write_file_def ceil_blocks_pad_data Let_def
    by (simp add: run_simps find_inode_by_name_slot [OF len] k i idx direct_addresses [OF di] own
        run1 run2 ptrs_def [symmetric] run3 u1_def [symmetric] run4 run5 run6
        del: of_nat_Suc of_nat_add)
  also have "fs3\<lparr>inode_table := (inode_table fs3)[k := rewritten ptrs i]\<rparr> =
      fs2\<lparr>inode_table := (inode_table fs)[k := rewritten ptrs i]\<rparr>"
    by (simp add: fs3_def table2 fs1_def)
  finally show thesis
    using that [OF k i own] lptrs dall sub fresh fs2 table2 len2 data2 frame2 blocks own
    by (simp add: fs1_def nth_block_neq)
qed

lemma write_file_refines:
  assumes fs: "direct_fs fs" and name: "valid_name name"
    and exists: "files fs (padded name) = Some (md, old)"
    and small: "blocks_needed (length bytes) \<le> 11"
    and room: "blocks_needed (length bytes) - capacity fs (padded name) \<le> card (free_blocks fs)"
  obtains fs' where "write_file clk name bytes perms own fs = (Ok (), fs')" and "direct_fs fs'"
    and "files fs' = (files fs)(padded name \<mapsto> (updated_metadata clk perms own md, pad_data bytes))"
    and "superblock fs' = superblock fs" and "length (inode_table fs') = length (inode_table fs)"
    and "card (free_blocks fs) \<le> card (free_blocks fs') + (blocks_needed (length bytes) - capacity fs (padded name))"
proof -
  let ?n = "blocks_needed (length bytes)"
  obtain k i p0 existing ptrs fs2 where k: "slot fs (padded name) = Some k"
    and i: "inode_table fs ! k = i" and own: "owned i = p0 # existing"
    and run: "write_file clk name bytes perms own fs =
      (Ok (), fs2\<lparr>inode_table := (inode_table fs)[k := rewritten ptrs i]\<rparr>)"
    and lptrs: "length ptrs = ?n" and dall: "distinct (p0 # ptrs @ drop (length ptrs) existing)"
    and sub: "\<And>p. p \<in> set ptrs \<Longrightarrow> p \<in> set existing \<or> p \<in> free_blocks fs"
    and fresh: "card (set ptrs - set existing) \<le> length ptrs - length existing"
    and fs2: "wf_fs fs2" "superblock fs2 = superblock fs" "inode_table fs2 = inode_table fs"
      "length (data_blocks fs2) = length (data_blocks fs)"
    and data: "blocks_at fs2 ptrs = pad_data bytes"
    and meta: "block_data (data_blocks fs2 ! unat p0) = metadata_bytes (updated_metadata clk perms own md)"
    and frame: "\<And>q. q \<noteq> p0 \<Longrightarrow> q \<notin> set ptrs \<Longrightarrow> data_blocks fs2 ! unat q = data_blocks fs ! unat q"
    using write_file_run [OF assms, of clk perms own] by blast
  have klt: "k < length (inode_table fs)" and iname: "file_name i = padded name"
    using slot_SomeD [OF k] i by auto
  note nm = padded_neq_no_name [OF name] and di = direct_fs_inode [OF fs klt, unfolded i]
  have lv: "live i" using direct_inode_live [OF di] iname nm by (simp add: live_def)
  have blocks: "unat p < length (data_blocks fs)" if "p \<in> set (owned i)" for p
    using direct_fs_owned_lt [OF fs klt] that i by simp
  define fs' where "fs' = fs2\<lparr>inode_table := (inode_table fs)[k := rewritten ptrs i]\<rparr>"
  have table: "inode_table fs' = (inode_table fs)[k := rewritten ptrs i]" by (simp add: fs'_def)
  have z: "0 \<notin> set ptrs" using sub free_blocks_nonzero owned_nonzero [of 0 i] own by auto
  have di': "direct_inode (rewritten ptrs i)"
    using dall lptrs small lv by (intro direct_rewritten [OF di own z]) simp_all
  have own': "owned (rewritten ptrs i) = p0 # ptrs @ drop (length ptrs) existing"
    using di own z by (rule owned_rewritten)
  have wf': "wf_fs fs'"
    using wf_fs_set_inode [OF fs2(1) direct_inode_wf [OF di'], of k] by (simp add: fs'_def fs2)
  have name': "file_name (rewritten ptrs i) = padded name" by (simp add: rewritten_def iname)
  have own_sub: "p \<in> set (owned i) \<or> p \<in> free_blocks fs" if "p \<in> set (owned (rewritten ptrs i))" for p
    using that sub own by (auto simp: own' dest: in_set_dropD)
  have other: "p \<notin> set (owned i)" "p \<notin> free_blocks fs"
    if "j < length (inode_table fs)" "j \<noteq> k" "p \<in> set (owned (inode_table fs ! j))" for j p
    using direct_fs_disjoint [OF fs that(1) klt that(2,3)] owned_not_free [OF that(1,3)] i by auto
  have same: "data_blocks fs' ! unat p = data_blocks fs ! unat p"
    if "j < length (inode_table fs)" "j \<noteq> k" "p \<in> set (owned (inode_table fs ! j))" for j p
    using other [OF that] sub own frame by (auto simp: fs'_def)
  have "direct_fs fs'"
  proof (rule direct_fs_upd [OF fs klt wf' di' table])
    show "length (data_blocks fs') = length (data_blocks fs)" by (simp add: fs'_def fs2)
    show "unat p < length (data_blocks fs)" if "p \<in> set (owned (rewritten ptrs i))" for p
      using own_sub [OF that] blocks free_blocks_lt [OF direct_fs_wf [OF fs]] by blast
    show "p \<notin> set (owned (inode_table fs ! j))"
      if "j < length (inode_table fs)" "j \<noteq> k" "p \<in> set (owned (rewritten ptrs i))" for j p
      using own_sub [OF that(3)] other [OF that(1,2)] by blast
  qed (use direct_fs_names [OF fs k nm] name' in simp)
  moreover have "files fs' = (files fs)(padded name \<mapsto> file_of fs' (rewritten ptrs i))"
    using iname i direct_fs_names [OF fs k nm]
    by (intro files_upd [OF fs klt _ nm _ table name' same]) auto
  moreover have "file_of fs' (rewritten ptrs i) = (updated_metadata clk perms own md, pad_data bytes)"
  proof -
    have "unat (in_num_data_blocks (rewritten ptrs i)) - 1 = length ptrs"
      using small by (simp add: rewritten_def lptrs unat_of_nat del: of_nat_Suc of_nat_add)
    moreover have "blocks_at fs' ptrs = pad_data bytes"
      using data by (simp add: fs'_def blocks_at_def)
    ultimately show ?thesis using meta by (simp add: file_of_def own' fs'_def)
  qed
  moreover have "card (free_blocks fs) \<le> card (free_blocks fs') + card (set ptrs - set existing)"
  proof (rule card_free_blocks_upd [OF _ table])
    have mine: "p \<notin> free_blocks fs" if "p \<in> set (owned i)" for p
      using owned_not_free [OF klt] that i by simp
    show "data_blocks fs' ! unat q = data_blocks fs ! unat q"
      if "q \<in> free_blocks fs" "q \<notin> set ptrs - set existing" for q
      using that mine own frame [of q] by (auto simp: fs'_def)
    show "q \<in> set ptrs - set existing \<or> q \<notin> free_blocks fs"
      if "q \<in> set (owned (rewritten ptrs i))" for q
      using that mine own by (auto simp: own' dest: in_set_dropD)
  qed (simp_all add: fs'_def fs2)
  ultimately show thesis using that [of fs'] run fs2 fresh k i own lptrs
    by (simp add: fs'_def capacity_def)
qed

section \<open>Properties\<close>

text \<open>The sample filesystem with one empty file.\<close>

definition sample_file_fs :: PhysFs where
  "sample_file_fs = snd (create_file (\<lambda>_. 7) ''/a'' (6, 6, 6) 0 sample_fs)"

lemma sample_file_fs_facts:
  shows "direct_fs sample_file_fs"
    and "files sample_file_fs = [padded ''/a'' \<mapsto> (new_metadata (\<lambda>_. 7) (6, 6, 6) 0, [])]"
    and "14 \<le> card (free_blocks sample_file_fs)"
    and "superblock sample_file_fs = superblock sample_fs"
    and "length (inode_table sample_file_fs) = 8"
proof -
  have name: "valid_name ''/a''" by (simp add: valid_name_def)
  have fresh: "files sample_fs (padded ''/a'') = None" by (simp add: sample_fs_blank(2))
  obtain fs' where "create_file (\<lambda>_. 7) ''/a'' (6, 6, 6) 0 sample_fs = (Ok (), fs')" and "direct_fs fs'"
    and "files fs' = (files sample_fs)(padded ''/a'' \<mapsto> (new_metadata (\<lambda>_. 7) (6, 6, 6) 0, []))"
    and "superblock fs' = superblock sample_fs" and "length (inode_table fs') = length (inode_table sample_fs)"
    and "card (free_blocks sample_fs) \<le> card (free_blocks fs') + 1"
    using create_file_refines [OF sample_fs_blank(1) name fresh sample_fs_free sample_fs_table(1,2) not_live_default]
    by blast
  then show "direct_fs sample_file_fs"
    and "files sample_file_fs = [padded ''/a'' \<mapsto> (new_metadata (\<lambda>_. 7) (6, 6, 6) 0, [])]"
    and "14 \<le> card (free_blocks sample_file_fs)"
    and "superblock sample_file_fs = superblock sample_fs"
    and "length (inode_table sample_file_fs) = 8"
    by (simp_all add: sample_file_fs_def sample_fs_blank sample_fs_table(3))
qed

text \<open>
  C3. Writing a file: when the data fits eleven blocks and there are enough free blocks
  beyond those the file owns, \<open>write_file\<close> succeeds, keeps the invariant and replaces one
  file of the store by the padded data and the metadata with the new modification time
  (and owner and permissions where given); every other file is as before.
\<close>

theorem write_file_replaces:
  assumes "direct_fs fs" and "valid_name name" and "files fs (padded name) = Some (md, old)"
    and "blocks_needed (length bytes) \<le> 11"
    and "blocks_needed (length bytes) - capacity fs (padded name) \<le> card (free_blocks fs)"
  shows "\<exists>fs'. write_file clk name bytes perms own fs = (Ok (), fs') \<and> direct_fs fs' \<and>
    files fs' = (files fs)(padded name \<mapsto> (updated_metadata clk perms own md, pad_data bytes))"
  using write_file_refines [OF assms] by blast

theorem write_file_replaces_witness:
  "\<exists>fs'. write_file (\<lambda>_. 9) ''/a'' [1, 2, 3] None (Some 5) sample_file_fs = (Ok (), fs') \<and>
    direct_fs fs' \<and> files fs' = [padded ''/a'' \<mapsto>
      (updated_metadata (\<lambda>_. 9) None (Some 5) (new_metadata (\<lambda>_. 7) (6, 6, 6) 0), pad_data [1, 2, 3])]"
  using write_file_replaces [OF sample_file_fs_facts(1), of "''/a''" _ _ "[1, 2, 3]" "\<lambda>_. 9" None "Some 5"]
    sample_file_fs_facts(3)
  by (simp add: sample_file_fs_facts(2) valid_name_def blocks_needed_def)

text \<open>
  Padding: the data written is the argument followed by zeros up to the next multiple of
  512, and a whole block of zeros when the length is a multiple already.
\<close>

lemma pad_data_spec:
  "\<exists>n. pad_data bytes = bytes @ replicate n 0 \<and> 0 < n \<and> n \<le> 512 \<and>
     length (pad_data bytes) = 512 * (length bytes div 512 + 1)"
proof -
  have len: "length (pad_data bytes) = 512 * (length bytes div 512 + 1)"
    by (simp add: length_pad_data blocks_needed_def)
  have "0 < 512 - length bytes mod 512" and "512 - length bytes mod 512 \<le> 512" by simp_all
  with pad_data_prefix len show ?thesis by blast
qed

end
