(* ===== verification/Fs_Disk.thy ===== *)
theory Fs_Disk
  imports Fs_Alloc
begin

text \<open>
  The on-disk format of \<open>kernel/src/internal/fs.rs\<close>: the superblock in sector 0, one
  sector per inode, then the data blocks; \<open>read_from_disk\<close> and \<open>write_to_disk\<close>. The sector
  reader and writer are arguments, computations on the state of the device, because the
  kernel passes the ATA driver and the loader an image file. The locale \<open>block_device\<close>
  states what both rely on of a device, and proves once that a filesystem written to such
  a device is read back unchanged.
\<close>

section \<open>Sectors\<close>

type_synonym 'd sector_reader = "u32 \<Rightarrow> ('d, unit, u8 list) prog"
type_synonym 'd sector_writer = "u32 \<Rightarrow> u8 list \<Rightarrow> ('d, unit, unit) prog"

text \<open>
  \<open>ata_read n buf\<close> stands for \<open>ata::read(bus, dsk, n, &mut buf)\<close> and returns the buffer it
  leaves.
\<close>

definition read_sector :: "(u32 \<Rightarrow> u8 list \<Rightarrow> ('d, unit, u8 list) prog) \<Rightarrow> 'd sector_reader" where
  "read_sector ata_read n = ata_read n (replicate BLOCK_SIZE 0)"

definition decode_superblock :: "u8 list \<Rightarrow> (FsError, Superblock) outcome" where
  "decode_superblock sector_data =
     obind (u64_at FsInvalidSuperblock sector_data 0) (\<lambda>magic.
     obind (u64_at FsInvalidSuperblock sector_data 8) (\<lambda>size.
     obind (u64_at FsInvalidSuperblock sector_data 16) (\<lambda>table_size.
     obind (u64_at FsInvalidSuperblock sector_data 24) (\<lambda>block_size.
     obind (u64_at FsInvalidSuperblock sector_data 32) (\<lambda>inodes.
     obind (u64_at FsInvalidSuperblock sector_data 40) (\<lambda>blocks.
     Ok \<lparr>magic_number = magic, disk_size = size, inode_table_size = table_size,
         data_block_size = block_size, num_inodes = inodes, num_data_blocks = blocks\<rparr>))))))"

definition decode_inode :: "u8 list \<Rightarrow> (FsError, Inode) outcome" where
  "decode_inode sector_data =
     obind (u64_at FsInvalidInode sector_data 0) (\<lambda>num.
     obind (concat_map_o (\<lambda>j. obind (u64_at FsInvalidInode sector_data (8 * j + 8)) (\<lambda>p. Ok [p]))
              [0..<12]) (\<lambda>direct.
     obind (u64_at FsInvalidInode sector_data 104) (\<lambda>single.
     obind (u64_at FsInvalidInode sector_data 112) (\<lambda>double.
     obind (u64_at FsInvalidInode sector_data 120) (\<lambda>triple.
     obind (slice sector_data 128 512) (\<lambda>name.
     if length name = 384
     then Ok \<lparr>in_num_data_blocks = num, data_block_pointers = direct,
              single_indirect_block_pointer = single, double_indirect_block_pointer = double,
              triple_indirect_block_pointer = triple, file_name = name\<rparr>
     else Err FsInvalidInode))))))"

section \<open>Reading\<close>

definition read_inode :: "'d sector_reader \<Rightarrow> nat \<Rightarrow> Inode list \<Rightarrow> ('d, FsError, Inode list) prog" where
  "read_inode rs i table =
     bind (map_err_prog (\<lambda>_. FsReadError) (rs (word_of_nat (1 + i)))) (\<lambda>sector_data.
     bind (reads (\<lambda>_. decode_inode sector_data)) (\<lambda>inode.
     reads (\<lambda>_. index_set table i inode)))"

definition block_sector :: "Superblock \<Rightarrow> nat \<Rightarrow> (FsError, u32) outcome" where
  "block_sector sb i =
     obind (usize_add 1 (unat (inode_table_size sb))) (\<lambda>a.
     obind (usize_add a i) (\<lambda>n. Ok (word_of_nat n)))"

definition read_block :: "'d sector_reader \<Rightarrow> Superblock \<Rightarrow> nat \<Rightarrow> DataBlock list
    \<Rightarrow> ('d, FsError, DataBlock list) prog" where
  "read_block rs sb i blocks =
     bind (reads (\<lambda>_. block_sector sb i)) (\<lambda>n.
     bind (map_err_prog (\<lambda>_. FsReadError) (rs n)) (\<lambda>sector_data.
     if length sector_data = 512
     then reads (\<lambda>_. index_set blocks i \<lparr>block_data = sector_data\<rparr>)
     else throw FsInvalidDataBlock))"

definition read_from_disk :: "'d sector_reader \<Rightarrow> ('d, FsError, PhysFs) prog" where
  "read_from_disk rs =
     bind (map_err_prog (\<lambda>_. FsReadError) (rs 0)) (\<lambda>sector_data.
     bind (reads (\<lambda>_. decode_superblock sector_data)) (\<lambda>sb.
     if magic_number sb \<noteq> MAGIC_NUMBER then throw FsInvalidSuperblock
     else
       bind (for_acc (read_inode rs) [0..<unat (inode_table_size sb)]
               (replicate (unat (num_inodes sb)) default_Inode)) (\<lambda>table.
       bind (for_acc (read_block rs sb) [0..<unat (num_data_blocks sb)]
               (replicate (unat (num_data_blocks sb)) zero_block)) (\<lambda>blocks.
       ret \<lparr>superblock = sb, inode_table = table, data_blocks = blocks\<rparr>))))"

section \<open>Writing\<close>

definition encode_superblock :: "Superblock \<Rightarrow> (FsError, u8 list) outcome" where
  "encode_superblock sb =
     obind (put_u64 (replicate BLOCK_SIZE 0) 0 (magic_number sb)) (\<lambda>b.
     obind (put_u64 b 8 (disk_size sb)) (\<lambda>b.
     obind (put_u64 b 16 (inode_table_size sb)) (\<lambda>b.
     obind (put_u64 b 24 (data_block_size sb)) (\<lambda>b.
     obind (put_u64 b 32 (num_inodes sb)) (\<lambda>b.
     put_u64 b 40 (num_data_blocks sb))))))"

fun put_pointers :: "u64 list \<Rightarrow> nat list \<Rightarrow> u8 list \<Rightarrow> (FsError, u8 list) outcome" where
  "put_pointers ps [] b = Ok b"
| "put_pointers ps (j # js) b =
     obind (index ps j) (\<lambda>p. obind (put_u64 b (j * 8 + 8) p) (put_pointers ps js))"

definition encode_inode :: "Inode \<Rightarrow> (FsError, u8 list) outcome" where
  "encode_inode inode =
     obind (put_u64 (replicate BLOCK_SIZE 0) 0 (in_num_data_blocks inode)) (\<lambda>b.
     obind (put_pointers (data_block_pointers inode) [0..<12] b) (\<lambda>b.
     obind (put_u64 b 104 (single_indirect_block_pointer inode)) (\<lambda>b.
     obind (put_u64 b 112 (double_indirect_block_pointer inode)) (\<lambda>b.
     obind (put_u64 b 120 (triple_indirect_block_pointer inode)) (\<lambda>b.
     copy_from_slice b 128 512 (file_name inode))))))"

text \<open>\<open>1 + i as u32\<close>: the cast truncates, the addition is checked.\<close>

definition inode_sector :: "nat \<Rightarrow> (FsError, u32) outcome" where
  "inode_sector i = (let w = word_of_nat i :: u32 in if w = - 1 then Panic else Ok (1 + w))"

definition write_inode :: "(nat \<Rightarrow> (FsError, u32) outcome) \<Rightarrow> 'd sector_writer \<Rightarrow> PhysFs \<Rightarrow> nat
    \<Rightarrow> ('d, FsError, unit) prog" where
  "write_inode sector_of ws fs i =
     bind (reads (\<lambda>_. index (inode_table fs) i)) (\<lambda>inode.
     bind (reads (\<lambda>_. encode_inode inode)) (\<lambda>sector_data.
     bind (reads (\<lambda>_. sector_of i)) (\<lambda>n.
     map_err_prog (\<lambda>_. FsWriteError) (ws n sector_data))))"

definition write_data_sector :: "'d sector_writer \<Rightarrow> PhysFs \<Rightarrow> nat \<Rightarrow> ('d, FsError, unit) prog" where
  "write_data_sector ws fs i =
     bind (reads (\<lambda>_. index (data_blocks fs) i)) (\<lambda>block.
     bind (reads (\<lambda>_. copy_from_slice (replicate BLOCK_SIZE 0) 0 BLOCK_SIZE (block_data block))) (\<lambda>sector_data.
     bind (reads (\<lambda>_. block_sector (superblock fs) i)) (\<lambda>n.
     map_err_prog (\<lambda>_. FsWriteError) (ws n sector_data))))"

definition write_sectors :: "(nat \<Rightarrow> (FsError, u32) outcome) \<Rightarrow> 'd sector_writer \<Rightarrow> PhysFs
    \<Rightarrow> ('d, FsError, unit) prog" where
  "write_sectors sector_of ws fs =
     bind (reads (\<lambda>_. encode_superblock (superblock fs))) (\<lambda>sector_data.
     bind (map_err_prog (\<lambda>_. FsWriteError) (ws 0 sector_data)) (\<lambda>_.
     bind (for_each (write_inode sector_of ws fs) [0..<unat (inode_table_size (superblock fs))]) (\<lambda>_.
     for_each (write_data_sector ws fs) [0..<unat (num_data_blocks (superblock fs))])))"

definition write_to_disk :: "'d sector_writer \<Rightarrow> PhysFs \<Rightarrow> ('d, FsError, unit) prog" where
  "write_to_disk ws fs = write_sectors inode_sector ws fs"

section \<open>The sector codecs\<close>

text \<open>The sectors that hold a superblock and an inode, field after field.\<close>

definition superblock_bytes :: "Superblock \<Rightarrow> u8 list" where
  "superblock_bytes sb = concat (map to_le_bytes [magic_number sb, disk_size sb,
     inode_table_size sb, data_block_size sb, num_inodes sb, num_data_blocks sb]) @ replicate 464 0"

definition inode_bytes :: "Inode \<Rightarrow> u8 list" where
  "inode_bytes i = concat (map to_le_bytes (in_num_data_blocks i # data_block_pointers i @
     [single_indirect_block_pointer i, double_indirect_block_pointer i,
      triple_indirect_block_pointer i])) @ file_name i"

lemma put_u64_append:
  "n = length pre \<Longrightarrow> 8 \<le> m \<Longrightarrow> put_u64 (pre @ replicate m 0) n w =
     Ok ((pre @ to_le_bytes w) @ replicate (m - 8) 0)"
  by (simp add: put_u64_ok splice_def)

lemma u64_at_concat:
  assumes "k < length ws"
  shows "u64_at e (concat (map to_le_bytes ws) @ rest) (8 * k) = Ok (ws ! k)"
proof -
  have len: "length (concat (map to_le_bytes xs)) = 8 * length xs" for xs
    by (induction xs) simp_all
  have "ws = take k ws @ ws ! k # drop (Suc k) ws" using assms by (rule id_take_nth_drop)
  then have "concat (map to_le_bytes ws) = concat (map to_le_bytes (take k ws)) @
      to_le_bytes (ws ! k) @ concat (map to_le_bytes (drop (Suc k) ws))"
    by (metis concat.simps(2) concat_append list.simps(9) map_append)
  then show ?thesis using assms
    by (simp add: u64_at_def slice_def len)
qed

lemma length_concat_words [simp]: "length (concat (map to_le_bytes ws)) = 8 * length ws"
  by (induction ws) simp_all

lemma put_pointers_append:
  "j \<le> length ps \<Longrightarrow> length pre = 8 + 8 * j \<Longrightarrow> 8 * (length ps - j) \<le> m \<Longrightarrow>
   put_pointers ps [j..<length ps] (pre @ replicate m 0) =
     Ok (pre @ concat (map to_le_bytes (drop j ps)) @ replicate (m - 8 * (length ps - j)) 0)"
proof (induction "length ps - j" arbitrary: j pre m)
  case 0
  then show ?case by simp
next
  case (Suc n)
  then have j: "j < length ps" by simp
  have "put_pointers ps [Suc j..<length ps] ((pre @ to_le_bytes (ps ! j)) @ replicate (m - 8) 0) =
      Ok ((pre @ to_le_bytes (ps ! j)) @ concat (map to_le_bytes (drop (Suc j) ps)) @
        replicate (m - 8 - 8 * (length ps - Suc j)) 0)"
    using Suc.hyps(2) Suc.prems j by (intro Suc.hyps(1)) auto
  moreover have "put_u64 (pre @ replicate m 0) (j * 8 + 8) (ps ! j) =
      (Ok ((pre @ to_le_bytes (ps ! j)) @ replicate (m - 8) 0) :: (FsError, u8 list) outcome)"
    using Suc.prems j by (intro put_u64_append) auto
  ultimately show ?case using Suc.prems j
    by (simp add: upt_conv_Cons [OF j] index_ok Cons_nth_drop_Suc [OF j, symmetric])
qed

lemma put_u64_words:
  "k = 8 * length ws \<Longrightarrow> 8 \<le> m \<Longrightarrow> put_u64 (concat (map to_le_bytes ws) @ replicate m 0) k w =
     Ok (concat (map to_le_bytes (ws @ [w])) @ replicate (m - 8) 0)"
  by (simp add: put_u64_append)

lemma encode_superblock_bytes: "encode_superblock sb = Ok (superblock_bytes sb)"
proof -
  note step = put_u64_words [of _ "[]", simplified] put_u64_words [of _ "[_]", simplified]
    put_u64_words [of _ "[_, _]", simplified] put_u64_words [of _ "[_, _, _]", simplified]
    put_u64_words [of _ "[_, _, _, _]", simplified] put_u64_words [of _ "[_, _, _, _, _]", simplified]
  show ?thesis by (simp add: encode_superblock_def superblock_bytes_def step)
qed

lemma decode_superblock_bytes: "decode_superblock (superblock_bytes sb) = Ok sb"
proof -
  let ?ws = "[magic_number sb, disk_size sb, inode_table_size sb, data_block_size sb,
    num_inodes sb, num_data_blocks sb]"
  have "u64_at FsInvalidSuperblock (superblock_bytes sb) (8 * k) = Ok (?ws ! k)" if "k < 6" for k
    unfolding superblock_bytes_def using that by (intro u64_at_concat) simp
  from this [of 0] this [of 1] this [of 2] this [of 3] this [of 4] this [of 5]
  show ?thesis by (simp add: decode_superblock_def)
qed

lemma length_superblock_bytes [simp]: "length (superblock_bytes sb) = 512"
  by (simp add: superblock_bytes_def)

lemma length_inode_bytes [simp]: "wf_inode i \<Longrightarrow> length (inode_bytes i) = 512"
  by (simp add: inode_bytes_def wf_inode_def)

lemma encode_inode_bytes:
  assumes "wf_inode i"
  shows "encode_inode i = Ok (inode_bytes i)"
proof -
  let ?ps = "data_block_pointers i"
  have len: "length ?ps = 12" "length (file_name i) = 384" using assms by (auto simp: wf_inode_def)
  have first: "put_u64 (replicate 512 0) 0 (in_num_data_blocks i) =
      (Ok (to_le_bytes (in_num_data_blocks i) @ replicate 504 0) :: (FsError, u8 list) outcome)"
    using put_u64_words [of 0 "[]" 512] by simp
  have ptrs: "put_pointers ?ps [0..<12] (to_le_bytes (in_num_data_blocks i) @ replicate 504 0) =
      Ok (concat (map to_le_bytes (in_num_data_blocks i # ?ps)) @ replicate 408 0)"
    using put_pointers_append [of 0 ?ps "to_le_bytes (in_num_data_blocks i)" 504] len by simp
  note word = put_u64_words [of _ "in_num_data_blocks i # ?ps", simplified]
    put_u64_words [of _ "in_num_data_blocks i # ?ps @ [_]", simplified]
    put_u64_words [of _ "in_num_data_blocks i # ?ps @ [_, _]", simplified]
  show ?thesis using first ptrs len
    by (simp add: encode_inode_def word copy_from_slice_def splice_def inode_bytes_def)
qed

lemma decode_inode_bytes:
  assumes "wf_inode i"
  shows "decode_inode (inode_bytes i) = Ok i"
proof -
  let ?ps = "data_block_pointers i"
  let ?ws = "in_num_data_blocks i # ?ps @ [single_indirect_block_pointer i,
    double_indirect_block_pointer i, triple_indirect_block_pointer i]"
  have len: "length ?ps = 12" "length (file_name i) = 384" using assms by (auto simp: wf_inode_def)
  have at: "u64_at FsInvalidInode (inode_bytes i) (8 * k) = Ok (?ws ! k)" if "k < 16" for k
    unfolding inode_bytes_def using that len by (intro u64_at_concat) simp
  have "concat_map_o (\<lambda>j. obind (u64_at FsInvalidInode (inode_bytes i) (8 * j + 8)) (\<lambda>p. Ok [p]))
      [0..<12] = Ok (concat (map (\<lambda>j. [?ps ! j]) [0..<12]))"
  proof (rule concat_map_o_Ok)
    fix j :: nat assume "j \<in> set [0..<12]"
    then show "obind (u64_at FsInvalidInode (inode_bytes i) (8 * j + 8)) (\<lambda>p. Ok [p]) = Ok [?ps ! j]"
      using at [of "Suc j"] len by (simp add: nth_append add.commute)
  qed
  also have "concat (map (\<lambda>j. [?ps ! j]) [0..<12]) = ?ps"
    using map_nth [of ?ps] len by (simp add: concat_map_singleton)
  finally have ptrs: "concat_map_o (\<lambda>j. obind (u64_at FsInvalidInode (inode_bytes i) (8 * j + 8))
      (\<lambda>p. Ok [p])) [0..<12] = Ok ?ps" .
  have name: "slice (inode_bytes i) 128 512 = (Ok (file_name i) :: (FsError, u8 list) outcome)"
    using len by (simp add: slice_def inode_bytes_def)
  show ?thesis
    using at [of 0] at [of 13] at [of 14] at [of 15] ptrs name len
    by (simp add: decode_inode_def nth_append)
qed

section \<open>Devices\<close>

text \<open>
  What the filesystem relies on of a device. \<open>sector d n\<close> is the content of sector \<open>n\<close>,
  or \<open>None\<close> where nothing can be read; \<open>ready d\<close> says that the device answers. Reading
  returns the content and leaves it (\<open>sector_source\<close>, all that mounting needs); writing
  replaces one sector and keeps the others, for the sector numbers below \<open>cap\<close>
  (\<open>block_device\<close>).
\<close>

locale sector_source =
  fixes rs :: "u32 \<Rightarrow> 'd \<Rightarrow> (unit, u8 list) outcome \<times> 'd"
    and sector :: "'d \<Rightarrow> u32 \<Rightarrow> u8 list option"
    and ready :: "'d \<Rightarrow> bool"
  assumes sector_read: "ready d \<Longrightarrow> sector d n = Some bs \<Longrightarrow>
      \<exists>d'. rs n d = (Ok bs, d') \<and> ready d' \<and> sector d' = sector d"

locale block_device = sector_source rs sector ready
  for rs :: "u32 \<Rightarrow> 'd \<Rightarrow> (unit, u8 list) outcome \<times> 'd" and sector and ready +
  fixes ws :: "u32 \<Rightarrow> u8 list \<Rightarrow> 'd \<Rightarrow> (unit, unit) outcome \<times> 'd"
    and cap :: nat
  assumes sector_write: "ready d \<Longrightarrow> unat n < cap \<Longrightarrow> length bs = 512 \<Longrightarrow>
      \<exists>d'. ws n bs d = (Ok (), d') \<and> ready d' \<and> sector d' n = Some bs \<and>
        (\<forall>m. m \<noteq> n \<longrightarrow> sector d m \<noteq> None \<longrightarrow> sector d' m = sector d m)"

text \<open>
  The filesystems the format can hold: as many table entries as inode sectors, and all
  sector numbers within 32 bits.
\<close>

definition disk_fs :: "PhysFs \<Rightarrow> bool" where
  "disk_fs fs \<longleftrightarrow> wf_fs fs \<and> magic_number (superblock fs) = MAGIC_NUMBER \<and>
     length (inode_table fs) = unat (inode_table_size (superblock fs)) \<and>
     num_inodes (superblock fs) = inode_table_size (superblock fs) \<and>
     1 + length (inode_table fs) + length (data_blocks fs) \<le> 2 ^ 32"

text \<open>The sectors of such a filesystem, in order.\<close>

definition fs_sectors :: "PhysFs \<Rightarrow> u8 list list" where
  "fs_sectors fs = superblock_bytes (superblock fs) # map inode_bytes (inode_table fs) @
     map block_data (data_blocks fs)"

lemma length_fs_sectors: "length (fs_sectors fs) = 1 + length (inode_table fs) + length (data_blocks fs)"
  by (simp add: fs_sectors_def)

lemma fs_sectors_inode: "i < length (inode_table fs) \<Longrightarrow>
    fs_sectors fs ! (1 + i) = inode_bytes (inode_table fs ! i)"
  by (simp add: fs_sectors_def nth_append)

lemma fs_sectors_block: "i < length (data_blocks fs) \<Longrightarrow>
    fs_sectors fs ! (1 + length (inode_table fs) + i) = block_data (data_blocks fs ! i)"
  by (simp add: fs_sectors_def nth_append)

lemma block_sector_ok: "disk_fs fs \<Longrightarrow> i < length (data_blocks fs) \<Longrightarrow>
    block_sector (superblock fs) i = Ok (word_of_nat (1 + length (inode_table fs) + i))"
  by (simp add: block_sector_def usize_add_def disk_fs_def)

lemma word_of_nat_32_inj:
  assumes "i < 2 ^ 32" and "j < 2 ^ 32"
  shows "(word_of_nat i :: u32) = word_of_nat j \<longleftrightarrow> i = j"
proof
  assume "(word_of_nat i :: u32) = word_of_nat j"
  then have "unat (word_of_nat i :: u32) = unat (word_of_nat j :: u32)" by simp
  then show "i = j" using assms by (simp add: unat_of_nat)
qed simp

lemma inode_sector_ok: "1 + i < 2 ^ 32 \<Longrightarrow> inode_sector i = Ok (word_of_nat (1 + i))"
proof -
  assume i: "1 + i < 2 ^ 32"
  have "(word_of_nat i :: u32) \<noteq> - 1"
  proof
    assume "(word_of_nat i :: u32) = - 1"
    then have "(word_of_nat i :: u32) = word_of_nat (2 ^ 32 - 1)" by simp
    then show False using i word_of_nat_32_inj [of i "2 ^ 32 - 1"] by simp
  qed
  then show ?thesis by (simp add: inode_sector_def)
qed


lemma DataBlock_eta [simp]: "\<lparr>block_data = block_data b\<rparr> = b"
  by simp

context sector_source
begin

text \<open>\<open>holds secs n d\<close>: the first \<open>n\<close> sectors of the device are those of the list.\<close>

definition holds :: "u8 list list \<Rightarrow> nat \<Rightarrow> 'd \<Rightarrow> bool" where
  "holds secs n d \<longleftrightarrow> ready d \<and> (\<forall>k < n. sector d (word_of_nat k) = Some (secs ! k))"

lemma holds_read:
  assumes "holds secs n d" and "k < n"
  obtains d' where "rs (word_of_nat k) d = (Ok (secs ! k), d')" and "holds secs n d'"
  using sector_read [of d "word_of_nat k" "secs ! k"] assms unfolding holds_def by metis

lemma read_from_disk_holds:
  assumes fs: "disk_fs fs" and h: "holds (fs_sectors fs) (length (fs_sectors fs)) d"
  obtains d' where "read_from_disk rs d = (Ok fs, d')" and "holds (fs_sectors fs) (length (fs_sectors fs)) d'"
proof -
  let ?secs = "fs_sectors fs" and ?n = "length (inode_table fs)" and ?m = "length (data_blocks fs)"
  have wf: "wf_fs fs" and magic: "magic_number (superblock fs) = MAGIC_NUMBER"
    and sizes: "unat (inode_table_size (superblock fs)) = ?n" "unat (num_inodes (superblock fs)) = ?n"
      "unat (num_data_blocks (superblock fs)) = ?m"
    using fs by (auto simp: disk_fs_def wf_fs_length)
  let ?H = "holds ?secs (length ?secs)"
  obtain d1 where run1: "rs (word_of_nat 0) d = (Ok (?secs ! 0), d1)" and d1: "?H d1"
    using holds_read [OF h, of 0] by (auto simp: length_fs_sectors)
  have "\<exists>t d2. for_acc (read_inode rs) [0..<?n] (replicate ?n default_Inode) d1 = (Ok t, d2) \<and>
      (?H d2 \<and> t = take ?n (inode_table fs) @ replicate (?n - ?n) default_Inode)"
  proof (rule for_acc_upt [where P = "\<lambda>i t d. ?H d \<and> t = take i (inode_table fs) @ replicate (?n - i) default_Inode"])
    fix i t d assume i: "i < ?n" and P: "?H d \<and> t = take i (inode_table fs) @ replicate (?n - i) default_Inode"
    have wfi: "wf_inode (inode_table fs ! i)" using wf i by (simp add: wf_fs_def)
    obtain d' where d': "rs (word_of_nat (1 + i)) d = (Ok (?secs ! (1 + i)), d')" "?H d'"
      using holds_read [OF conjunct1 [OF P], of "1 + i"] i by (auto simp: length_fs_sectors)
    have "t[i := inode_table fs ! i] = take (Suc i) (inode_table fs) @ replicate (?n - Suc i) default_Inode"
      using P i by (simp add: list_update_append take_Suc_conv_app_nth Suc_diff_Suc [symmetric] min_def
          list_update_beyond)
    then show "\<exists>t' d'. read_inode rs i t d = (Ok t', d') \<and>
        (?H d' \<and> t' = take (Suc i) (inode_table fs) @ replicate (?n - Suc i) default_Inode)"
      using d' P i wfi fs_sectors_inode [OF i]
      by (simp add: read_inode_def run_simps decode_inode_bytes index_set_def del: of_nat_Suc of_nat_add plus_1_eq_Suc)
  qed (use d1 in simp_all)
  then obtain d2 where run2: "for_acc (read_inode rs) [0..<?n] (replicate ?n default_Inode) d1 =
      (Ok (inode_table fs), d2)" and d2: "?H d2" by auto
  have "\<exists>t d3. for_acc (read_block rs (superblock fs)) [0..<?m] (replicate ?m zero_block) d2 = (Ok t, d3) \<and>
      (?H d3 \<and> t = take ?m (data_blocks fs) @ replicate (?m - ?m) zero_block)"
  proof (rule for_acc_upt [where P = "\<lambda>i t d. ?H d \<and> t = take i (data_blocks fs) @ replicate (?m - i) zero_block"])
    fix i t d assume i: "i < ?m" and P: "?H d \<and> t = take i (data_blocks fs) @ replicate (?m - i) zero_block"
    have len: "length (block_data (data_blocks fs ! i)) = 512" using wf i by (rule wf_fs_block_length)
    obtain d' where d': "rs (word_of_nat (1 + ?n + i)) d = (Ok (?secs ! (1 + ?n + i)), d')" "?H d'"
      using holds_read [OF conjunct1 [OF P], of "1 + ?n + i"] i by (auto simp: length_fs_sectors)
    have "t[i := data_blocks fs ! i] = take (Suc i) (data_blocks fs) @ replicate (?m - Suc i) zero_block"
      using P i by (simp add: list_update_append take_Suc_conv_app_nth Suc_diff_Suc [symmetric] min_def
          list_update_beyond)
    then show "\<exists>t' d'. read_block rs (superblock fs) i t d = (Ok t', d') \<and>
        (?H d' \<and> t' = take (Suc i) (data_blocks fs) @ replicate (?m - Suc i) zero_block)"
      using d' P i len fs_sectors_block [OF i]
      by (simp add: read_block_def run_simps index_set_def block_sector_ok [OF fs i] del: of_nat_Suc of_nat_add)
  qed (use d2 in simp_all)
  then obtain d3 where run3: "for_acc (read_block rs (superblock fs)) [0..<?m] (replicate ?m zero_block) d2 =
      (Ok (data_blocks fs), d3)" and d3: "?H d3" by auto
  have "read_from_disk rs d = (Ok fs, d3)"
    using run1 run2 run3 magic
    by (simp add: read_from_disk_def run_simps fs_sectors_def decode_superblock_bytes sizes)
  then show thesis using that d3 by blast
qed

end

context block_device
begin

lemma holds_write:
  assumes "holds secs n d" and "n < 2 ^ 32" and "length (secs ! n) = 512" and "n < cap"
  obtains d' where "ws (word_of_nat n) (secs ! n) d = (Ok (), d')" and "holds secs (Suc n) d'"
proof -
  have "unat (word_of_nat n :: u32) < cap" using assms(2,4) by (simp add: unat_of_nat)
  then obtain d' where d': "ws (word_of_nat n) (secs ! n) d = (Ok (), d')" "ready d'"
    "sector d' (word_of_nat n) = Some (secs ! n)"
    and keep: "\<forall>m. m \<noteq> word_of_nat n \<longrightarrow> sector d m \<noteq> None \<longrightarrow> sector d' m = sector d m"
    using sector_write [of d "word_of_nat n" "secs ! n"] assms unfolding holds_def by blast
  have "sector d' (word_of_nat k) = Some (secs ! k)" if "k < Suc n" for k
  proof (cases "k = n")
    case False
    then have "k < n" and "(word_of_nat k :: u32) \<noteq> word_of_nat n"
      using that assms(2) word_of_nat_32_inj [of k n] by auto
    then show ?thesis using keep assms(1) by (simp add: holds_def)
  qed (simp add: d')
  then show thesis using that [OF d'(1)] d'(2) by (simp add: holds_def)
qed

lemma write_sectors_holds:
  assumes fs: "disk_fs fs" and d: "ready d" and fit: "length (fs_sectors fs) \<le> cap"
    and so: "\<And>i. 1 + i < 2 ^ 32 \<Longrightarrow> sector_of i = Ok (word_of_nat (1 + i))"
  obtains d' where "write_sectors sector_of ws fs d = (Ok (), d')"
    and "holds (fs_sectors fs) (length (fs_sectors fs)) d'"
proof -
  let ?secs = "fs_sectors fs" and ?n = "length (inode_table fs)" and ?m = "length (data_blocks fs)"
  have cap: "1 + ?n + ?m \<le> cap" using fit by (simp add: length_fs_sectors)
  have wf: "wf_fs fs" and bound: "1 + ?n + ?m \<le> 2 ^ 32"
    and sizes: "unat (inode_table_size (superblock fs)) = ?n" "unat (num_data_blocks (superblock fs)) = ?m"
    using fs by (auto simp: disk_fs_def wf_fs_length)
  have "holds ?secs 0 d" using d by (simp add: holds_def)
  then obtain d1 where run1: "ws (word_of_nat 0) (?secs ! 0) d = (Ok (), d1)" and d1: "holds ?secs 1 d1"
    by (rule holds_write) (use cap in \<open>simp_all add: fs_sectors_def\<close>)
  have "\<exists>d2. for_each (write_inode sector_of ws fs) [0..<?n] d1 = (Ok (), d2) \<and> holds ?secs (1 + ?n) d2"
  proof (rule for_each_upt [where P = "\<lambda>i d. holds ?secs (1 + i) d"])
    fix i d assume i: "i < ?n" and h: "holds ?secs (1 + i) d"
    have wfi: "wf_inode (inode_table fs ! i)" using wf i by (simp add: wf_fs_def)
    obtain d' where "ws (word_of_nat (1 + i)) (?secs ! (1 + i)) d = (Ok (), d')"
      and "holds ?secs (Suc (1 + i)) d'"
      using holds_write [OF h] i bound cap fs_sectors_inode [OF i] wfi by force
    then show "\<exists>d'. write_inode sector_of ws fs i d = (Ok (), d') \<and> holds ?secs (1 + Suc i) d'"
      using i bound wfi so [of i] fs_sectors_inode [OF i]
      by (simp add: write_inode_def run_simps index_ok encode_inode_bytes del: of_nat_Suc of_nat_add)
  qed (use d1 in simp_all)
  then obtain d2 where run2: "for_each (write_inode sector_of ws fs) [0..<?n] d1 = (Ok (), d2)"
    and d2: "holds ?secs (1 + ?n) d2" by blast
  have "\<exists>d3. for_each (write_data_sector ws fs) [0..<?m] d2 = (Ok (), d3) \<and> holds ?secs (1 + ?n + ?m) d3"
  proof (rule for_each_upt [where P = "\<lambda>i d. holds ?secs (1 + ?n + i) d"])
    fix i d assume i: "i < ?m" and h: "holds ?secs (1 + ?n + i) d"
    have len: "length (block_data (data_blocks fs ! i)) = 512" using wf i by (rule wf_fs_block_length)
    obtain d' where "ws (word_of_nat (1 + ?n + i)) (?secs ! (1 + ?n + i)) d = (Ok (), d')"
      and "holds ?secs (Suc (1 + ?n + i)) d'"
      using holds_write [OF h] i bound cap fs_sectors_block [OF i] len by force
    then show "\<exists>d'. write_data_sector ws fs i d = (Ok (), d') \<and> holds ?secs (1 + ?n + Suc i) d'"
      using i len fs_sectors_block [OF i]
      by (simp add: write_data_sector_def run_simps index_ok copy_from_slice_full
          block_sector_ok [OF fs i] del: of_nat_Suc of_nat_add)
  qed (use d2 in simp_all)
  then obtain d3 where run3: "for_each (write_data_sector ws fs) [0..<?m] d2 = (Ok (), d3)"
    and d3: "holds ?secs (1 + ?n + ?m) d3" by blast
  have "write_sectors sector_of ws fs d = (Ok (), d3)"
    using run1 run2 run3
    by (simp add: write_sectors_def run_simps encode_superblock_bytes fs_sectors_def sizes)
  then show thesis using that d3 by (simp add: length_fs_sectors)
qed

text \<open>A filesystem written to the device is read back unchanged.\<close>

lemma write_then_read:
  assumes "disk_fs fs" and "ready d" and "length (fs_sectors fs) \<le> cap"
    and "\<And>i. 1 + i < 2 ^ 32 \<Longrightarrow> sector_of i = Ok (word_of_nat (1 + i))"
  shows "\<exists>d' d''. write_sectors sector_of ws fs d = (Ok (), d') \<and> ready d' \<and>
    read_from_disk rs d' = (Ok fs, d'')"
proof -
  obtain d' where d': "write_sectors sector_of ws fs d = (Ok (), d')"
    and h: "holds (fs_sectors fs) (length (fs_sectors fs)) d'"
    using write_sectors_holds [OF assms] by blast
  moreover obtain d'' where "read_from_disk rs d' = (Ok fs, d'')"
    using read_from_disk_holds [OF assms(1) h] by blast
  ultimately show ?thesis by (auto simp: holds_def)
qed

text \<open>A table with fewer entries than the superblock says makes writing panic.\<close>

lemma write_sectors_short_table:
  assumes wf: "wf_fs fs" and d: "ready d"
    and short: "length (inode_table fs) < unat (inode_table_size (superblock fs))"
    and bound: "length (inode_table fs) < 2 ^ 32" and cap: "length (inode_table fs) < cap"
    and so: "\<And>i. 1 + i < 2 ^ 32 \<Longrightarrow> sector_of i = Ok (word_of_nat (1 + i))"
  shows "fst (write_sectors sector_of ws fs d) = Panic"
proof -
  let ?n = "length (inode_table fs)" and ?m = "unat (inode_table_size (superblock fs))"
  obtain d1 where run1: "ws 0 (superblock_bytes (superblock fs)) d = (Ok (), d1)" and d1: "ready d1"
    using sector_write [OF d, of 0 "superblock_bytes (superblock fs)"] cap by auto
  have "\<exists>d2. for_each (write_inode sector_of ws fs) [0..<?n] d1 = (Ok (), d2) \<and> ready d2"
  proof (rule for_each_upt [where P = "\<lambda>_ d. ready d"])
    fix i d assume i: "i < ?n" and d: "ready d"
    have wfi: "wf_inode (inode_table fs ! i)" using wf i by (simp add: wf_fs_def)
    have "unat (word_of_nat (1 + i) :: u32) < cap"
      using i bound cap by (simp add: unat_of_nat del: of_nat_Suc of_nat_add)
    then obtain d' where "ws (word_of_nat (1 + i)) (inode_bytes (inode_table fs ! i)) d = (Ok (), d')" "ready d'"
      using sector_write [OF d _ length_inode_bytes [OF wfi]] by blast
    then show "\<exists>d'. write_inode sector_of ws fs i d = (Ok (), d') \<and> ready d'"
      using i bound so [of i]
      by (simp add: write_inode_def run_simps index_ok encode_inode_bytes [OF wfi] del: of_nat_Suc of_nat_add)
  qed (use d1 in simp_all)
  then obtain d2 where run2: "for_each (write_inode sector_of ws fs) [0..<?n] d1 = (Ok (), d2)" by blast
  have "[0..<?m] = [0..<?n] @ ?n # [Suc ?n..<?m]"
    using short by (metis upt_add_eq_append upt_conv_Cons le_add_diff_inverse less_imp_le_nat zero_le)
  then have "for_each (write_inode sector_of ws fs) [0..<?m] d1 = (Panic, d2)"
    using run2 by (simp add: for_each_append write_inode_def run_simps index_def)
  then show ?thesis using run1
    by (simp add: write_sectors_def run_simps encode_superblock_bytes)
qed

end

section \<open>Properties\<close>

text \<open>An inode with twelve pointers and a 384-byte name survives its sector.\<close>

lemma inode_codec:
  assumes "wf_inode i"
  shows "obind (encode_inode i) decode_inode = Ok i"
  using assms by (simp add: encode_inode_bytes decode_inode_bytes)

lemma inode_codec_example: "obind (encode_inode default_Inode) decode_inode = Ok default_Inode"
  by (rule inode_codec) (simp add: wf_inode_def default_Inode_def)

text \<open>A superblock survives its sector.\<close>

lemma superblock_codec: "obind (encode_superblock sb) decode_superblock = Ok sb"
  by (simp add: encode_superblock_bytes decode_superblock_bytes)

text \<open>
  Mounting refuses a disk whose first sector does not carry the magic number, and
  reads nothing else of it.
\<close>

lemma read_from_disk_magic:
  assumes "rs 0 d = (Ok (superblock_bytes sb), d')" and "magic_number sb \<noteq> MAGIC_NUMBER"
  shows "read_from_disk rs d = (Err FsInvalidSuperblock, d')"
  using assms by (simp add: read_from_disk_def run_simps decode_superblock_bytes)

lemma read_from_disk_magic_example:
  "\<exists>sb. read_from_disk (\<lambda>n d. (Ok (superblock_bytes sb), d)) () = (Err FsInvalidSuperblock, ())"
  by (rule exI, rule read_from_disk_magic [where sb = "\<lparr>magic_number = 1, disk_size = 0,
        inode_table_size = 0, data_block_size = 512, num_inodes = 0, num_data_blocks = 0\<rparr>"])
    (simp_all add: MAGIC_NUMBER_def)

end
