(* ===== verification/Loader.thy ===== *)
theory Loader
  imports Fs_Write Fs_Disk
begin

text \<open>
  The host program \<open>fs-loader\<close> that builds the disk image the kernel mounts: the image
  file (\<open>img.rs\<close>), its copy of the filesystem (\<open>fs-loader/src/fs.rs\<close>, which differs from
  the kernel's in the sector I/O, in time stamps of 0 and in \<open>unwrap\<close> for \<open>?\<close>), and
  \<open>main.rs\<close>. The image file is an interpretation of \<open>block_device\<close>. The last lemmas show
  that the image holds exactly the files it was given.
\<close>

section \<open>The image file\<close>

text \<open>
  The contents of \<open>disk.img\<close>, or \<open>None\<close> when there is no such file: both operations
  unwrap the result of \<open>open\<close>. \<open>read_exact\<close> fails past the end of the file; \<open>write_all\<close>
  extends it, and the gap left by seeking past the end reads as zeros. Failures of the
  host's own disk are not modelled.
\<close>

type_synonym image = "u8 list option"

definition img_read :: "u32 \<Rightarrow> u8 list \<Rightarrow> (image, unit, u8 list) prog" where
  "img_read block buf img = (case img of
      None \<Rightarrow> (Panic, img)
    | Some bytes \<Rightarrow>
        if unat block * 512 + length buf \<le> length bytes
        then (Ok (take (length buf) (drop (unat block * 512) bytes)), img)
        else (Panic, img))"

definition write_at :: "u8 list \<Rightarrow> nat \<Rightarrow> u8 list \<Rightarrow> u8 list" where
  "write_at bytes pos buf = splice (bytes @ replicate (pos - length bytes) 0) pos buf"

definition img_write :: "u32 \<Rightarrow> u8 list \<Rightarrow> (image, unit, unit) prog" where
  "img_write block buf img = (case img of
      None \<Rightarrow> (Panic, img)
    | Some bytes \<Rightarrow> (Ok (), Some (write_at bytes (unat block * 512) buf)))"

section \<open>The loader's filesystem\<close>

definition loader_read_sector :: "image sector_reader" where
  "loader_read_sector n = expect_prog (img_read n (replicate BLOCK_SIZE 0))"

definition loader_write_sector :: "image sector_writer" where
  "loader_write_sector n buf = expect_prog (img_write n buf)"

definition loader_read_from_disk :: "(image, FsError, PhysFs) prog" where
  "loader_read_from_disk = read_from_disk loader_read_sector"

definition loader_write_to_disk :: "PhysFs \<Rightarrow> (image, FsError, unit) prog" where
  "loader_write_to_disk = write_sectors (\<lambda>i. Ok (word_of_nat (1 + i))) loader_write_sector"

definition loader_create_file :: "string \<Rightarrow> perms \<Rightarrow> u64 \<Rightarrow> (PhysFs, FsError, unit) prog" where
  "loader_create_file = create_file (\<lambda>_. 0)"

definition loader_read_file :: "PhysFs \<Rightarrow> string \<Rightarrow> (FsError, u8 list \<times> FileMetadata) outcome" where
  "loader_read_file = read_file"

definition loader_write_file :: "string \<Rightarrow> u8 list \<Rightarrow> perms option \<Rightarrow> u64 option
    \<Rightarrow> (PhysFs, FsError, unit) prog" where
  "loader_write_file = write_file (\<lambda>_. 0)"

definition loader_init :: PhysFs where
  "loader_init = \<lparr>
     superblock = \<lparr>magic_number = MAGIC_NUMBER, disk_size = 8192 + 1024 + 1,
       inode_table_size = 1024, data_block_size = 512, num_inodes = 1024, num_data_blocks = 8192\<rparr>,
     inode_table = replicate 1024 default_Inode,
     data_blocks = replicate 8192 zero_block\<rparr>"

section \<open>The main program\<close>

text \<open>
  \<open>list_files\<close> walks the host's directory tree; its result, in the order in which the
  hash map is iterated, is the argument of \<open>loader_main\<close>. The names it produces start
  with a slash.
\<close>

definition loader_name :: "string \<Rightarrow> string" where
  "loader_name relative_path =
     (if \<not> starts_with relative_path ''/'' then ''/'' @ relative_path else relative_path)"

definition loader_put :: "string \<times> u8 list \<Rightarrow> (PhysFs, unit, unit) prog" where
  "loader_put entry = (case entry of (name, contents) \<Rightarrow>
     bind (expect_prog (loader_create_file name (7, 7, 7) 0)) (\<lambda>_.
     expect_prog (loader_write_file name contents (Some (7, 7, 7)) (Some 0))))"

definition loader_main :: "(string \<times> u8 list) list \<Rightarrow> (image, unit, unit) prog" where
  "loader_main entries =
     bind (expect_prog (loader_write_to_disk loader_init)) (\<lambda>_ img.
     case for_each loader_put entries loader_init of
       (Ok _, phys_fs) \<Rightarrow> expect_prog (loader_write_to_disk phys_fs) img
     | (Err e, _) \<Rightarrow> (Err e, img)
     | (Panic, _) \<Rightarrow> (Panic, img))"

section \<open>The image as a block device\<close>

definition image_sector :: "image \<Rightarrow> u32 \<Rightarrow> u8 list option" where
  "image_sector img n = (case img of None \<Rightarrow> None
    | Some bytes \<Rightarrow> if unat n * 512 + 512 \<le> length bytes
        then Some (take 512 (drop (unat n * 512) bytes)) else None)"

lemma take_drop_splice_apart:
  assumes a: "a \<le> length xs" and "b + n \<le> a \<or> a + length ys \<le> b"
  shows "take n (drop b (splice xs a ys)) = take n (drop b xs)"
  using assms(2)
proof
  assume le: "b + n \<le> a"
  then have "take n (drop b (splice xs a ys)) = take n (drop b (take a xs))"
    using a by (simp add: splice_def)
  also have "\<dots> = take n (drop b xs)" using le by (simp add: drop_take min_def)
  finally show ?thesis .
next
  assume le: "a + length ys \<le> b"
  then have "drop b (splice xs a ys) = drop b xs" using a by (simp add: splice_def)
  then show ?thesis by simp
qed

lemma write_at_sector:
  assumes "length buf = 512"
  shows "image_sector (Some (write_at bytes (unat n * 512) buf)) n = Some buf"
  using assms take_drop_splice [of "unat n * 512" buf]
  by (simp add: image_sector_def write_at_def splice_def)

lemma write_at_other:
  assumes len: "length buf = 512" and mn: "m \<noteq> n" and m: "image_sector (Some bytes) m \<noteq> None"
  shows "image_sector (Some (write_at bytes (unat n * 512) buf)) m = image_sector (Some bytes) m"
proof -
  let ?pos = "unat n * 512" and ?ext = "bytes @ replicate (unat n * 512 - length bytes) 0"
  have mlt: "unat m * 512 + 512 \<le> length bytes" using m by (simp add: image_sector_def split: if_splits)
  have "unat m \<noteq> unat n" using mn by (simp add: word_unat_eq_iff)
  then have apart: "unat m * 512 + 512 \<le> ?pos \<or> ?pos + length buf \<le> unat m * 512"
    using len by (cases "unat m < unat n") auto
  have "take 512 (drop (unat m * 512) (write_at bytes ?pos buf)) = take 512 (drop (unat m * 512) ?ext)"
    unfolding write_at_def using apart by (intro take_drop_splice_apart) simp_all
  also have "\<dots> = take 512 (drop (unat m * 512) bytes)" using mlt by simp
  finally show ?thesis using mlt len by (simp add: image_sector_def write_at_def splice_def)
qed

definition image_ready :: "image \<Rightarrow> bool" where
  "image_ready img \<longleftrightarrow> img \<noteq> None"

interpretation image: block_device loader_read_sector image_sector image_ready loader_write_sector "2 ^ 32"
proof
  fix d n bs assume "image_sector d n = Some bs"
  then show "\<exists>d'. loader_read_sector n d = (Ok bs, d') \<and> image_ready d' \<and> image_sector d' = image_sector d"
    by (auto simp: image_ready_def loader_read_sector_def expect_prog_def img_read_def image_sector_def
        split: option.splits if_splits)
next
  fix d :: image and bs :: "u8 list" and n :: u32
  assume "image_ready d" and len: "length bs = 512"
  then obtain bytes where d: "d = Some bytes" by (auto simp: image_ready_def)
  show "\<exists>d'. loader_write_sector n bs d = (Ok (), d') \<and> image_ready d' \<and> image_sector d' n = Some bs \<and>
      (\<forall>m. m \<noteq> n \<longrightarrow> image_sector d m \<noteq> None \<longrightarrow> image_sector d' m = image_sector d m)"
    unfolding d using write_at_sector [OF len] write_at_other [OF len]
    by (simp add: loader_write_sector_def expect_prog_def img_write_def image_ready_def)
qed

section \<open>What the image holds\<close>

definition loaded_metadata :: FileMetadata where
  "loaded_metadata = \<lparr>md_owner = 0, creation_time = 0, modification_time = 0, access_time = 0,
     permissions = perms_bits (7, 7, 7)\<rparr>"

text \<open>The store that holds the given files and no other.\<close>

definition stored :: "(string \<times> u8 list) list \<Rightarrow> u8 list \<rightharpoonup> FileMetadata \<times> u8 list" where
  "stored entries = map_of (map (\<lambda>(name, contents). (padded name, loaded_metadata, pad_data contents)) entries)"

lemma loader_init_blank:
  shows "direct_fs loader_init" and "files loader_init = Map.empty"
    and "card (free_blocks loader_init) = 8191"
  using blank_fs [of loader_init 1024 8192] by (simp_all add: loader_init_def)

lemma disk_fs_loader:
  assumes "direct_fs fs" and "superblock fs = superblock loader_init" and "length (inode_table fs) = 1024"
  shows "disk_fs fs"
  using direct_fs_wf [OF assms(1)] assms(2,3) wf_fs_length [OF direct_fs_wf [OF assms(1)]]
  by (simp add: disk_fs_def loader_init_def)

lemma length_loader_sectors:
  assumes "direct_fs fs" and "superblock fs = superblock loader_init" and "length (inode_table fs) = 1024"
  shows "length (fs_sectors fs) = 9217"
  using wf_fs_length [OF direct_fs_wf [OF assms(1)]] assms(2,3) by (simp add: length_fs_sectors loader_init_def)

text \<open>One file: it needs a free inode, a block for its metadata and its data blocks.\<close>

definition blocks_for :: "u8 list \<Rightarrow> nat" where
  "blocks_for contents = 1 + blocks_needed (length contents)"

lemma loader_put_ok:
  assumes fs: "direct_fs fs" and table: "length (inode_table fs) = unat (num_inodes (superblock fs))"
    and name: "valid_name name" and fresh: "files fs (padded name) = None"
    and small: "length contents < 5632"
    and inode: "card (dom (files fs)) < length (inode_table fs)"
    and room: "blocks_for contents \<le> card (free_blocks fs)"
  obtains fs' where "loader_put (name, contents) fs = (Ok (), fs')" and "direct_fs fs'"
    and "files fs' = (files fs)(padded name \<mapsto> (loaded_metadata, pad_data contents))"
    and "superblock fs' = superblock fs" and "length (inode_table fs') = length (inode_table fs)"
    and "card (free_blocks fs) \<le> card (free_blocks fs') + blocks_for contents"
proof -
  obtain i where i: "i \<in> set (inode_table fs)" "\<not> live i" using free_inode [OF fs inode] by blast
  have free: "free_blocks fs \<noteq> {}" using room by (auto simp: blocks_for_def)
  obtain fs1 where run1: "create_file (\<lambda>_. 0) name (7, 7, 7) 0 fs = (Ok (), fs1)" and fs1: "direct_fs fs1"
    and files1: "files fs1 = (files fs)(padded name \<mapsto> (new_metadata (\<lambda>_. 0) (7, 7, 7) 0, []))"
    and same1: "superblock fs1 = superblock fs" "length (inode_table fs1) = length (inode_table fs)"
    and card1: "card (free_blocks fs) \<le> card (free_blocks fs1) + 1"
    using create_file_refines [OF fs name fresh free table i] by blast
  have small': "blocks_needed (length contents) \<le> 11"
    using small by (simp add: blocks_needed_def less_mult_imp_div_less)
  have room1: "blocks_needed (length contents) - capacity fs1 (padded name) \<le> card (free_blocks fs1)"
    using room card1 by (simp add: blocks_for_def)
  have exists1: "files fs1 (padded name) = Some (new_metadata (\<lambda>_. 0) (7, 7, 7) 0, [])"
    by (simp add: files1)
  obtain fs2 where run2: "write_file (\<lambda>_. 0) name contents (Some (7, 7, 7)) (Some 0) fs1 = (Ok (), fs2)"
    and fs2: "direct_fs fs2"
    and files2: "files fs2 = (files fs1)(padded name \<mapsto> (updated_metadata (\<lambda>_. 0) (Some (7, 7, 7)) (Some 0)
        (new_metadata (\<lambda>_. 0) (7, 7, 7) 0), pad_data contents))"
    and same2: "superblock fs2 = superblock fs1" "length (inode_table fs2) = length (inode_table fs1)"
    and card2: "card (free_blocks fs1) \<le>
        card (free_blocks fs2) + (blocks_needed (length contents) - capacity fs1 (padded name))"
    using write_file_refines [OF fs1 name exists1 small' room1] by blast
  have "loader_put (name, contents) fs = (Ok (), fs2)"
    using run1 run2
    by (simp add: loader_put_def loader_create_file_def loader_write_file_def run_simps del: perms_bits.simps)
  moreover have "files fs2 = (files fs)(padded name \<mapsto> (loaded_metadata, pad_data contents))"
    by (simp add: files2 files1 updated_metadata_def new_metadata_def loaded_metadata_def)
  ultimately show thesis using that fs2 same1 same2 card1 card2 by (simp add: blocks_for_def)
qed

lemma loader_puts_ok:
  assumes "direct_fs fs" and "superblock fs = superblock loader_init" and "length (inode_table fs) = 1024"
    and "distinct (map fst entries)"
    and "\<forall>(name, contents) \<in> set entries. valid_name name \<and> length contents < 5632 \<and>
      files fs (padded name) = None"
    and "card (dom (files fs)) + length entries \<le> 1024" and "finite (dom (files fs))"
    and "sum_list (map (blocks_for \<circ> snd) entries) \<le> card (free_blocks fs)"
  shows "\<exists>fs'. for_each loader_put entries fs = (Ok (), fs') \<and> disk_fs fs' \<and> direct_fs fs' \<and>
    files fs' = files fs ++ stored entries \<and> length (fs_sectors fs') = 9217"
  using assms
proof (induction entries arbitrary: fs)
  case Nil
  then show ?case by (simp add: disk_fs_loader stored_def length_loader_sectors)
next
  case (Cons e entries)
  obtain name contents where e: "e = (name, contents)" by (cases e)
  let ?file = "(loaded_metadata, pad_data contents)"
  have new: "valid_name name" "files fs (padded name) = None" "length contents < 5632"
    using Cons.prems(5) by (simp_all add: e)
  have table: "length (inode_table fs) = unat (num_inodes (superblock fs))"
    using Cons.prems(2,3) by (simp add: loader_init_def)
  have room: "card (dom (files fs)) < length (inode_table fs)" "blocks_for contents \<le> card (free_blocks fs)"
    using Cons.prems(3,6,8) by (simp_all add: e)
  obtain fs1 where run: "loader_put (name, contents) fs = (Ok (), fs1)" and fs1: "direct_fs fs1"
    and files1: "files fs1 = (files fs)(padded name \<mapsto> ?file)"
    and same: "superblock fs1 = superblock fs" "length (inode_table fs1) = length (inode_table fs)"
    and card1: "card (free_blocks fs) \<le> card (free_blocks fs1) + blocks_for contents"
    using loader_put_ok [OF Cons.prems(1) table new room] by blast
  have rest: "padded n \<noteq> padded name \<and> valid_name n \<and> length c < 5632 \<and> files fs1 (padded n) = None"
    if "(n, c) \<in> set entries" for n c
  proof -
    have n: "valid_name n" "length c < 5632" "files fs (padded n) = None"
      using Cons.prems(5) that by auto
    moreover have "n \<noteq> name" using Cons.prems(4) that by (force simp: e)
    ultimately show ?thesis using padded_inj [OF n(1) new(1)] by (auto simp: files1)
  qed
  have dom1: "card (dom (files fs1)) \<le> Suc (card (dom (files fs)))" "finite (dom (files fs1))"
    using Cons.prems(7) by (simp_all add: files1 card_insert_if)
  have prem: "\<forall>(n, c) \<in> set entries. valid_name n \<and> length c < 5632 \<and> files fs1 (padded n) = None"
    using rest by blast
  have "\<exists>fs'. for_each loader_put entries fs1 = (Ok (), fs') \<and> disk_fs fs' \<and> direct_fs fs' \<and>
      files fs' = files fs1 ++ stored entries \<and> length (fs_sectors fs') = 9217"
    using Cons.prems(2-4,6,8) same card1 dom1
    by (intro Cons.IH [OF fs1 _ _ _ prem]) (simp_all add: e)
  then obtain fs' where fs': "for_each loader_put entries fs1 = (Ok (), fs')" "disk_fs fs'" "direct_fs fs'"
    "files fs' = files fs1 ++ stored entries" "length (fs_sectors fs') = 9217"
    by blast
  have "padded name \<notin> dom (stored entries)"
  proof
    assume "padded name \<in> dom (stored entries)"
    then obtain n c where "(n, c) \<in> set entries" "padded n = padded name"
      by (auto simp: stored_def dom_map_of_conv_image_fst)
    then show False using rest by blast
  qed
  then have "files fs' = (files fs ++ stored entries)
      (padded name \<mapsto> ?file)"
    unfolding fs'(4) files1 by (rule map_add_upd_left)
  moreover have "stored ((name, contents) # entries) = (stored entries)(padded name \<mapsto> ?file)"
    by (simp add: stored_def)
  ultimately show ?case using run fs' by (simp add: e bind_Ok del: fun_upd_apply)
qed

text \<open>
  The file lists the image can hold: distinct, valid names, contents that fit the direct
  pointers, and no more inodes and blocks than there are.
\<close>

definition loadable :: "(string \<times> u8 list) list \<Rightarrow> bool" where
  "loadable entries \<longleftrightarrow> distinct (map fst entries) \<and>
     (\<forall>(name, contents) \<in> set entries. valid_name name \<and> length contents < 5632) \<and>
     length entries \<le> 1024 \<and> sum_list (map (blocks_for \<circ> snd) entries) \<le> 8191"

lemma stored_lookup:
  assumes "loadable entries" and "(name, contents) \<in> set entries"
  shows "stored entries (padded name) = Some (loaded_metadata, pad_data contents)"
  unfolding stored_def
proof (rule map_of_is_SomeI)
  have valid: "valid_name n" if "n \<in> fst ` set entries" for n
    using assms(1) that by (force simp: loadable_def)
  have "inj_on padded (fst ` set entries)"
    by (rule inj_onI) (blast intro: padded_inj valid)
  then have "distinct (map padded (map fst entries))"
    using assms(1) distinct_map [of padded "map fst entries"] by (simp add: loadable_def del: map_map)
  then show "distinct (map fst (map (\<lambda>(name, contents). (padded name, loaded_metadata, pad_data contents)) entries))"
    by (simp add: comp_def split_beta)
qed (use assms(2) in force)

lemma loader_write_to_disk_ok:
  assumes "disk_fs fs"
  obtains img' where "loader_write_to_disk fs (Some img) = (Ok (), Some img')"
    and "image.holds (fs_sectors fs) (length (fs_sectors fs)) (Some img')"
proof -
  have "image_ready (Some img)" by (simp add: image_ready_def)
  moreover have "length (fs_sectors fs) \<le> 2 ^ 32" using assms by (simp add: disk_fs_def length_fs_sectors)
  ultimately obtain d where d: "loader_write_to_disk fs (Some img) = (Ok (), d)"
    and h: "image.holds (fs_sectors fs) (length (fs_sectors fs)) d"
    unfolding loader_write_to_disk_def
    using image.write_sectors_holds [OF assms, of "Some img" "\<lambda>i. Ok (word_of_nat (1 + i))"] by blast
  have "image_ready d" using h by (simp add: image.holds_def)
  then show thesis using that d h by (auto simp: image_ready_def)
qed

lemma loader_main_ok:
  assumes "loadable entries"
  obtains img' fs where "loader_main entries (Some img) = (Ok (), Some img')"
    and "direct_fs fs" and "disk_fs fs"
    and "image.holds (fs_sectors fs) (length (fs_sectors fs)) (Some img')"
    and "files fs = stored entries" and "length (fs_sectors fs) = 9217"
proof -
  have len: "length (inode_table loader_init) = 1024" by (simp add: loader_init_def)
  have init: "disk_fs loader_init" using loader_init_blank(1) refl len by (rule disk_fs_loader)
  obtain img1 where run1: "loader_write_to_disk loader_init (Some img) = (Ok (), Some img1)"
    using loader_write_to_disk_ok [OF init] by blast
  have "\<exists>fs. for_each loader_put entries loader_init = (Ok (), fs) \<and> disk_fs fs \<and> direct_fs fs \<and>
      files fs = files loader_init ++ stored entries \<and> length (fs_sectors fs) = 9217"
    using assms loader_init_blank len by (intro loader_puts_ok) (auto simp: loadable_def)
  then obtain fs where run2: "for_each loader_put entries loader_init = (Ok (), fs)"
    and fs: "disk_fs fs" "direct_fs fs" "files fs = stored entries" "length (fs_sectors fs) = 9217"
    by (auto simp: loader_init_blank(2))
  obtain img' where run3: "loader_write_to_disk fs (Some img1) = (Ok (), Some img')"
    and h: "image.holds (fs_sectors fs) (length (fs_sectors fs)) (Some img')"
    using loader_write_to_disk_ok [OF fs(1)] by blast
  have "loader_main entries (Some img) = (Ok (), Some img')"
    using run1 run2 run3 by (simp add: loader_main_def run_simps)
  then show thesis using that fs h by blast
qed

section \<open>Properties\<close>

text \<open>
  C2. From the loader to the kernel: for a list of files that fits, \<open>main\<close> runs to its end,
  and the kernel mounting a device with the sectors of the image it leaves obtains a
  filesystem in which every file reads back as its contents, padded, with the loader's
  metadata, and which has no other file.
\<close>

theorem loader_image_mounts:
  assumes "loadable entries" and source: "sector_source rs sector ready"
  shows "\<exists>img' fs. loader_main entries (Some img) = (Ok (), Some img') \<and>
    (\<forall>d. ready d \<longrightarrow> sector d = image_sector (Some img') \<longrightarrow> (\<exists>d'. read_from_disk rs d = (Ok fs, d'))) \<and>
    (\<forall>(name, contents) \<in> set entries. read_file fs name = Ok (pad_data contents, loaded_metadata)) \<and>
    dom (files fs) = (padded \<circ> fst) ` set entries"
proof -
  obtain img' fs where run: "loader_main entries (Some img) = (Ok (), Some img')"
    and fs: "direct_fs fs" "disk_fs fs" and h: "image.holds (fs_sectors fs) (length (fs_sectors fs)) (Some img')"
    and files: "files fs = stored entries"
    using loader_main_ok [OF assms(1)] by blast
  have "\<exists>d'. read_from_disk rs d = (Ok fs, d')" if "ready d" "sector d = image_sector (Some img')" for d
  proof -
    have "sector_source.holds sector ready (fs_sectors fs) (length (fs_sectors fs)) d"
      using h that by (simp add: image.holds_def sector_source.holds_def [OF source])
    then show ?thesis using sector_source.read_from_disk_holds [OF source fs(2)] by blast
  qed
  moreover have "read_file fs name = Ok (pad_data contents, loaded_metadata)"
    if "(name, contents) \<in> set entries" for name contents
    using that assms(1) fs(1) stored_lookup [OF assms(1) that] files
    by (auto simp: read_file_files loadable_def)
  moreover have "dom (files fs) = (padded \<circ> fst) ` set entries"
    unfolding files stored_def dom_map_of_conv_image_fst by force
  ultimately show ?thesis using run by blast
qed

theorem loader_image_mounts_witness:
  "\<exists>img' fs. loader_main [(''/motd'', [104, 105])] (Some []) = (Ok (), Some img') \<and>
    (\<exists>d'. read_from_disk loader_read_sector (Some img') = (Ok fs, d')) \<and>
    read_file fs ''/motd'' = Ok (pad_data [104, 105], loaded_metadata)"
proof -
  have "loadable [(''/motd'', [104, 105])]"
    by (simp add: loadable_def valid_name_def blocks_for_def blocks_needed_def)
  then obtain img' fs where "loader_main [(''/motd'', [104, 105])] (Some []) = (Ok (), Some img')"
    and mount: "\<forall>d. image_ready d \<longrightarrow> image_sector d = image_sector (Some img') \<longrightarrow>
      (\<exists>d'. read_from_disk loader_read_sector d = (Ok fs, d'))"
    and "read_file fs ''/motd'' = Ok (pad_data [104, 105], loaded_metadata)"
    using loader_image_mounts [of "[(''/motd'', [104, 105])]", OF _ image.sector_source_axioms, of "[]"] by auto
  moreover have "\<exists>d'. read_from_disk loader_read_sector (Some img') = (Ok fs, d')"
    using mount by (simp add: image_ready_def)
  ultimately show ?thesis by blast
qed

text \<open>
  The disk format: a filesystem that \<open>write_to_disk\<close> puts on a working device is read
  back unchanged by \<open>read_from_disk\<close>.
\<close>

lemma disk_roundtrip:
  assumes "block_device rs sector ready ws cap" and "disk_fs fs" and "ready d"
    and "length (fs_sectors fs) \<le> cap"
  shows "\<exists>d' d''. write_to_disk ws fs d = (Ok (), d') \<and> read_from_disk rs d' = (Ok fs, d'')"
  using block_device.write_then_read [OF assms, of inode_sector] inode_sector_ok
  unfolding write_to_disk_def by blast

lemma disk_roundtrip_example:
  "\<exists>img'. write_to_disk loader_write_sector loader_init (Some []) = (Ok (), img') \<and>
    fst (read_from_disk loader_read_sector img') = Ok loader_init"
proof -
  have "disk_fs loader_init"
    by (rule disk_fs_loader [OF loader_init_blank(1) refl]) (simp add: loader_init_def)
  moreover from this have "length (fs_sectors loader_init) \<le> 2 ^ 32" by (simp add: disk_fs_def length_fs_sectors)
  moreover have "image_ready (Some [])" by (simp add: image_ready_def)
  ultimately show ?thesis
    using disk_roundtrip [OF image.block_device_axioms, of loader_init "Some []"] by force
qed

end
