(* ===== verification/Virt_Fs.thy ===== *)
theory Virt_Fs
  imports Fs_Write Fs_Disk
begin

text \<open>
  The virtual layer of \<open>kernel/src/internal/fs.rs\<close>: the table of mounted filesystems
  (\<open>FILESYSTEMS\<close>), the file handles with their \<open>Stream\<close> operations, the \<open>FileSystem\<close>
  operations of \<open>VirtFs\<close>, and the functions that mount, add and select filesystems. This
  theory holds the definitions; \<open>Virt_Facts\<close> proves what they do.

  The methods of \<open>VirtFs\<close> use of \<open>self\<close> only its bus and device, with which they look the
  filesystem up in the table again: \<open>self\<close> is the key here. The order in which the hash
  map is iterated is an argument \<open>iter\<close>, a list of the keys.
\<close>

section \<open>Data\<close>

record FileHandle =
  fh_file_name :: string
  fh_bus :: nat
  fh_dsk :: nat
  fh_flags :: u8
  file_pos :: nat

record VirtFs =
  phys_fs :: PhysFs
  vf_bus :: nat
  vf_dsk :: nat
  open_files :: "FileHandle list"

type_synonym fs_key = "nat \<times> nat"
type_synonym filesystems = "fs_key \<rightharpoonup> VirtFs"

definition fh_key :: "FileHandle \<Rightarrow> fs_key" where
  "fh_key h = (fh_bus h, fh_dsk h)"

text \<open>\<open>file_systems.get(&key).ok_or(..)\<close>, and storing a changed \<open>phys_fs\<close> back.\<close>

definition get_fs :: "filesystems \<Rightarrow> fs_key \<Rightarrow> (FileError, VirtFs) outcome" where
  "get_fs fss key = ok_or (NotFoundError (inner_from FsFilesystemNotFound)) (fss key)"

definition on_phys :: "fs_key \<Rightarrow> (PhysFs, FsError, 'a) prog \<Rightarrow> (filesystems, FileError, 'a) prog" where
  "on_phys key m fss = (case fss key of
      None \<Rightarrow> (Err (NotFoundError (inner_from FsFilesystemNotFound)), fss)
    | Some fs \<Rightarrow> (case m (phys_fs fs) of
        (r, p) \<Rightarrow> (map_err FileError_from r, fss(key \<mapsto> fs\<lparr>phys_fs := p\<rparr>))))"

section \<open>File handles\<close>

definition FileHandle_new :: "string \<Rightarrow> nat \<Rightarrow> nat \<Rightarrow> u8 \<Rightarrow> FileHandle" where
  "FileHandle_new name bus dsk flags =
     \<lparr>fh_file_name = name, fh_bus = bus, fh_dsk = dsk, fh_flags = flags, file_pos = 0\<rparr>"

fun likely_fs :: "filesystems \<Rightarrow> string \<Rightarrow> u8 \<Rightarrow> fs_key list \<Rightarrow> (FileError, FileHandle) outcome" where
  "likely_fs fss name flags [] = Err (NotFoundError (inner_from FsFileNotFound))"
| "likely_fs fss name flags (key # keys) = (case fss key of
      None \<Rightarrow> likely_fs fss name flags keys
    | Some fs \<Rightarrow> (case find_inode_by_name (phys_fs fs) name of
        Ok _ \<Rightarrow> Ok (FileHandle_new name (fst key) (snd key) flags)
      | Err _ \<Rightarrow> likely_fs fss name flags keys
      | Panic \<Rightarrow> Panic))"

definition new_with_likely_fs :: "(filesystems \<Rightarrow> fs_key list) \<Rightarrow> filesystems \<Rightarrow> string \<Rightarrow> u8
    \<Rightarrow> (FileError, FileHandle) outcome" where
  "new_with_likely_fs iter fss name flags = likely_fs fss name flags (iter fss)"

text \<open>\<open>read\<close> fills the buffer and returns the number of bytes; the handle advances.\<close>

definition handle_read :: "filesystems \<Rightarrow> u8 list \<Rightarrow> (FileHandle, FileError, nat \<times> u8 list) prog" where
  "handle_read fss buf h =
     bind (reads (\<lambda>h. get_fs fss (fh_key h))) (\<lambda>fs.
     if \<not> is_set FlagRead (fh_flags h) then throw (PermissionError (inner_from FsReadError))
     else
       bind (reads (\<lambda>h. map_err FileError_from (read_file (phys_fs fs) (fh_file_name h)))) (\<lambda>(bytes, _).
       bind (reads (\<lambda>h. usize_sub (length bytes) (file_pos h))) (\<lambda>rest.
       let len = min (length buf) rest in
       bind (reads (\<lambda>h. slice bytes (file_pos h) (file_pos h + len))) (\<lambda>part.
       bind (reads (\<lambda>_. copy_from_slice buf 0 len part)) (\<lambda>buf'.
       bind (modify (\<lambda>h. h\<lparr>file_pos := file_pos h + len\<rparr>)) (\<lambda>_.
       ret (len, buf'))))))) h"

text \<open>The bytes that \<open>write\<close> passes to \<open>write_file\<close>.\<close>

definition overlay :: "u8 list \<Rightarrow> nat \<Rightarrow> u8 list \<Rightarrow> (FileError, u8 list) outcome" where
  "overlay bytes pos buf =
     (let bytes = (if pos > length bytes then resize bytes pos 0 else bytes) in
      obind (usize_add pos (length buf)) (\<lambda>fin.
      let bytes = (if fin > length bytes then resize bytes fin 0 else bytes) in
      copy_from_slice bytes pos fin buf))"

definition handle_write :: "(nat \<Rightarrow> u64) \<Rightarrow> u8 list \<Rightarrow> (FileHandle \<times> filesystems, FileError, nat) prog" where
  "handle_write clk buf = (\<lambda>(h, fss).
     case get_fs fss (fh_key h) of
       Err e \<Rightarrow> (Err e, (h, fss))
     | Panic \<Rightarrow> (Panic, (h, fss))
     | Ok fs \<Rightarrow>
       if \<not> is_set FlagWrite (fh_flags h) then (Err (PermissionError (inner_from FsWriteError)), (h, fss))
       else (case obind (map_err FileError_from (read_file (phys_fs fs) (fh_file_name h))) (\<lambda>(bytes, _).
               overlay bytes (file_pos h) buf) of
         Err e \<Rightarrow> (Err e, (h, fss))
       | Panic \<Rightarrow> (Panic, (h, fss))
       | Ok bytes \<Rightarrow> (case on_phys (fh_key h) (write_file clk (fh_file_name h) bytes None None) fss of
           (Ok _, fss') \<Rightarrow> (Ok (length buf), (h\<lparr>file_pos := file_pos h + length buf\<rparr>, fss'))
         | (Err e, fss') \<Rightarrow> (Err e, (h, fss'))
         | (Panic, fss') \<Rightarrow> (Panic, (h, fss')))))"

definition handle_close :: "FileHandle \<Rightarrow> (filesystems, FileError, unit) prog" where
  "handle_close h =
     bind (reads (\<lambda>fss. get_fs fss (fh_key h))) (\<lambda>fs.
     modify (\<lambda>fss. fss(fh_key h \<mapsto>
       fs\<lparr>open_files := filter (\<lambda>f. fh_file_name f \<noteq> fh_file_name h) (open_files fs)\<rparr>)))"

text \<open>\<open>ata bus dsk n buf\<close> stands for \<open>ata::write(bus, dsk, n, &buf)\<close>.\<close>

definition handle_flush :: "(u8 \<Rightarrow> u8 \<Rightarrow> 'd sector_writer) \<Rightarrow> filesystems \<Rightarrow> FileHandle
    \<Rightarrow> ('d, FileError, unit) prog" where
  "handle_flush ata fss h =
     bind (reads (\<lambda>_. get_fs fss (fh_key h))) (\<lambda>fs.
     map_err_prog FileError_from
       (write_to_disk (ata (word_of_nat (vf_bus fs)) (word_of_nat (vf_dsk fs))) (phys_fs fs)))"

fun handle_poll :: "FileHandle \<Rightarrow> IOEvent \<Rightarrow> bool" where
  "handle_poll h EventRead = (\<not> is_set FlagRead (fh_flags h))"
| "handle_poll h EventWrite = (\<not> is_set FlagWrite (fh_flags h))"

definition handle_seek :: "nat \<Rightarrow> (FileHandle, FileError, nat) prog" where
  "handle_seek pos = bind (modify (\<lambda>h. h\<lparr>file_pos := pos\<rparr>)) (\<lambda>_. ret pos)"

section \<open>Operations of a filesystem\<close>

definition vfs_open :: "(nat \<Rightarrow> u64) \<Rightarrow> fs_key \<Rightarrow> string \<Rightarrow> u8 \<Rightarrow> (filesystems, FileError, FileHandle) prog" where
  "vfs_open clk key path flags =
     bind (reads (\<lambda>fss. get_fs fss key)) (\<lambda>fs.
     bind (case read_file (phys_fs fs) path of
             Ok _ \<Rightarrow> ret ()
           | Err _ \<Rightarrow> if is_set FlagCreate flags then on_phys key (create_file clk path (6, 6, 6) 0)
                      else throw (NotFoundError (inner_from FsFileNotFound))
           | Panic \<Rightarrow> panic) (\<lambda>_.
     let handle = FileHandle_new path (fst key) (snd key) flags in
     if is_set FlagAppend flags then
       bind (on_phys key (reads (\<lambda>p. read_file p path))) (\<lambda>(bytes, _).
       ret (handle\<lparr>file_pos := length bytes\<rparr>))
     else ret handle))"

definition delete_block :: "Inode \<Rightarrow> nat \<Rightarrow> (PhysFs, FsError, unit) prog" where
  "delete_block inode i =
     bind (reads (\<lambda>_. index (data_block_pointers inode) i)) (\<lambda>p.
     bind (reads (\<lambda>fs. index_set (data_blocks fs) (unat p) zero_block)) (\<lambda>blocks.
     modify (\<lambda>fs. fs\<lparr>data_blocks := blocks\<rparr>)))"

definition phys_delete :: "string \<Rightarrow> (PhysFs, FsError, unit) prog" where
  "phys_delete path =
     bind (reads (\<lambda>fs. find_inode_by_name fs path)) (\<lambda>inode.
     bind (for_each (delete_block inode) [0..<unat (in_num_data_blocks inode)]) (\<lambda>_.
     modify (\<lambda>fs. fs\<lparr>inode_table :=
       filter (\<lambda>i. file_name i \<noteq> file_name inode) (inode_table fs)\<rparr>)))"

definition vfs_delete :: "fs_key \<Rightarrow> string \<Rightarrow> (filesystems, FileError, unit) prog" where
  "vfs_delete key path = on_phys key (phys_delete path)"

definition vfs_exists :: "filesystems \<Rightarrow> fs_key \<Rightarrow> string \<Rightarrow> (FileError, bool) outcome" where
  "vfs_exists fss key path = (case fss key of
      None \<Rightarrow> Panic
    | Some fs \<Rightarrow> (case find_inode_by_name (phys_fs fs) path of
        Ok _ \<Rightarrow> Ok True | Err _ \<Rightarrow> Ok False | Panic \<Rightarrow> Panic))"

text \<open>
  \<open>chmod\<close> and \<open>chown\<close> rewrite the metadata block with one field changed and store the
  unchanged inode again.
\<close>

definition change_metadata :: "(FileMetadata \<Rightarrow> FileMetadata) \<Rightarrow> string \<Rightarrow> (PhysFs, FsError, unit) prog" where
  "change_metadata f path =
     bind (reads (\<lambda>fs. find_inode_by_name fs path)) (\<lambda>inode.
     bind (reads (\<lambda>_. index (data_block_pointers inode) 0)) (\<lambda>p0.
     bind (reads (\<lambda>fs. index (data_blocks fs) (unat p0))) (\<lambda>b.
     bind (reads (\<lambda>_. decode_metadata (block_data b))) (\<lambda>metadata.
     bind (reads (\<lambda>_. encode_metadata (f metadata))) (\<lambda>metadata_block.
     bind (write_to_data_block p0 metadata_block) (\<lambda>_.
     update_inode inode))))))"

definition vfs_chmod :: "fs_key \<Rightarrow> string \<Rightarrow> perms \<Rightarrow> (filesystems, FileError, unit) prog" where
  "vfs_chmod key path perms =
     on_phys key (change_metadata (\<lambda>md. md\<lparr>permissions := perms_bits perms\<rparr>) path)"

definition vfs_chown :: "fs_key \<Rightarrow> string \<Rightarrow> u64 \<Rightarrow> (filesystems, FileError, unit) prog" where
  "vfs_chown key path own = on_phys key (change_metadata (\<lambda>md. md\<lparr>md_owner := own\<rparr>) path)"

definition get_metadata :: "PhysFs \<Rightarrow> string \<Rightarrow> (FsError, FileMetadata) outcome" where
  "get_metadata fs path =
     obind (find_inode_by_name fs path) (\<lambda>inode.
     obind (index (data_block_pointers inode) 0) (\<lambda>p0.
     obind (index (data_blocks fs) (unat p0)) (\<lambda>b.
     decode_metadata (block_data b))))"

definition vfs_get_owner :: "filesystems \<Rightarrow> fs_key \<Rightarrow> string \<Rightarrow> (FileError, u64) outcome" where
  "vfs_get_owner fss key path =
     obind (get_fs fss key) (\<lambda>fs.
     obind (map_err FileError_from (get_metadata (phys_fs fs) path)) (\<lambda>md. Ok (md_owner md)))"

definition vfs_get_perms :: "filesystems \<Rightarrow> fs_key \<Rightarrow> string \<Rightarrow> (FileError, u8 list) outcome" where
  "vfs_get_perms fss key path =
     obind (get_fs fss key) (\<lambda>fs.
     obind (map_err FileError_from (get_metadata (phys_fs fs) path)) (\<lambda>md.
     slice (to_le_bytes (permissions md)) 0 3))"

text \<open>\<open>String::from_utf8(..).unwrap()\<close>: the bytes have to be well-formed UTF-8.\<close>

definition continuation :: "u8 \<Rightarrow> bool" where
  "continuation b \<longleftrightarrow> 0x80 \<le> b \<and> b \<le> 0xBF"

fun utf8_valid :: "u8 list \<Rightarrow> bool" where
  "utf8_valid [] = True"
| "utf8_valid (a # bs) =
     (if a \<le> 0x7F then utf8_valid bs
      else if 0xC2 \<le> a \<and> a \<le> 0xDF then
        (case bs of b # cs \<Rightarrow> continuation b \<and> utf8_valid cs | _ \<Rightarrow> False)
      else if 0xE0 \<le> a \<and> a \<le> 0xEF then
        (case bs of b # c # cs \<Rightarrow>
           continuation b \<and> continuation c \<and> (a = 0xE0 \<longrightarrow> 0xA0 \<le> b) \<and> (a = 0xED \<longrightarrow> b \<le> 0x9F) \<and>
           utf8_valid cs | _ \<Rightarrow> False)
      else if 0xF0 \<le> a \<and> a \<le> 0xF4 then
        (case bs of b # c # d # cs \<Rightarrow>
           continuation b \<and> continuation c \<and> continuation d \<and> (a = 0xF0 \<longrightarrow> 0x90 \<le> b) \<and>
           (a = 0xF4 \<longrightarrow> b \<le> 0x8F) \<and> utf8_valid cs | _ \<Rightarrow> False)
      else False)"

definition from_utf8 :: "u8 list \<Rightarrow> string option" where
  "from_utf8 bytes = (if utf8_valid bytes then Some (map (\<lambda>b. char_of (unat b)) bytes) else None)"

fun list_names :: "string \<Rightarrow> Inode list \<Rightarrow> (FileError, string list) outcome" where
  "list_names path [] = Ok []"
| "list_names path (inode # table) = (case from_utf8 (file_name inode) of
      None \<Rightarrow> Panic
    | Some name \<Rightarrow> obind (list_names path table) (\<lambda>names.
        Ok (if starts_with name path then name # names else names)))"

definition vfs_list :: "filesystems \<Rightarrow> fs_key \<Rightarrow> string \<Rightarrow> (FileError, string list) outcome" where
  "vfs_list fss key path =
     obind (get_fs fss key) (\<lambda>fs. list_names path (inode_table (phys_fs fs)))"

section \<open>Mounting\<close>

text \<open>\<open>(disk_size / 512) - 1024 - 1\<close> panics for a disk of less than 1025 sectors.\<close>

definition blank_VirtFs :: "nat \<Rightarrow> nat \<Rightarrow> u64 \<Rightarrow> ('e, VirtFs) outcome" where
  "blank_VirtFs bus dsk bytes =
     obind (usize_sub (unat bytes div 512) 1024) (\<lambda>a.
     obind (usize_sub a 1) (\<lambda>blocks.
     Ok \<lparr>phys_fs = \<lparr>
           superblock = \<lparr>magic_number = MAGIC_NUMBER, disk_size = bytes, inode_table_size = 1024,
             data_block_size = 512, num_inodes = 1024, num_data_blocks = word_of_nat blocks\<rparr>,
           inode_table = replicate 1024 default_Inode,
           data_blocks = replicate 1024 zero_block\<rparr>,
         vf_bus = bus, vf_dsk = dsk, open_files = []\<rparr>))"

definition VirtFs_new :: "nat \<Rightarrow> nat \<Rightarrow> u64 \<Rightarrow> (filesystems, FileError, unit) prog" where
  "VirtFs_new bus dsk bytes =
     bind (reads (\<lambda>_. blank_VirtFs bus dsk bytes)) (\<lambda>fs.
     modify (\<lambda>fss. fss((bus, dsk) \<mapsto> fs)))"

definition add_fs :: "nat \<Rightarrow> nat \<Rightarrow> u32 option \<Rightarrow> (filesystems, FileError, unit) prog" where
  "add_fs bus dsk size_of_new =
     bind (reads (\<lambda>fss. if fss (bus, dsk) \<noteq> None
                        then Err (WriteError (inner_from FsFilesystemExists)) else Ok ())) (\<lambda>_.
     case size_of_new of
       None \<Rightarrow> throw (NotFoundError (inner_from FsFilesystemNotFound))
     | Some n \<Rightarrow>
         bind (reads (\<lambda>_. blank_VirtFs bus dsk (ucast n))) (\<lambda>fs.
         modify (\<lambda>fss. fss((bus, dsk) \<mapsto> fs))))"

text \<open>Mounting reads the disk and inserts the filesystem.\<close>

definition from_disk :: "(u8 \<Rightarrow> u8 \<Rightarrow> 'd sector_reader) \<Rightarrow> nat \<Rightarrow> nat
    \<Rightarrow> (filesystems \<times> 'd, FsError, unit) prog" where
  "from_disk ata bus dsk = (\<lambda>(fss, d).
     case read_from_disk (ata (word_of_nat bus) (word_of_nat dsk)) d of
       (Ok p, d') \<Rightarrow> (Ok (), (fss((bus, dsk) \<mapsto>
           \<lparr>phys_fs = p, vf_bus = bus, vf_dsk = dsk, open_files = []\<rparr>), d'))
     | (Err e, d') \<Rightarrow> (Err e, (fss, d'))
     | (Panic, d') \<Rightarrow> (Panic, (fss, d')))"

definition load_fs :: "(u8 \<Rightarrow> u8 \<Rightarrow> 'd sector_reader) \<Rightarrow> nat \<Rightarrow> nat
    \<Rightarrow> (filesystems \<times> 'd, FileError, unit) prog" where
  "load_fs ata bus dsk = map_err_prog FileError_from (from_disk ata bus dsk)"

text \<open>A failure to load is logged and ignored.\<close>

definition fs_init :: "(u8 \<Rightarrow> u8 \<Rightarrow> 'd sector_reader) \<Rightarrow> (filesystems \<times> 'd, FileError, unit) prog" where
  "fs_init ata s = (case load_fs ata 0 1 s of
      (Err _, s') \<Rightarrow> (Ok (), s')
    | (r, s') \<Rightarrow> (r, s'))"

definition get_buffer_size :: "filesystems \<Rightarrow> nat \<Rightarrow> nat \<Rightarrow> string \<Rightarrow> (FileError, nat) outcome" where
  "get_buffer_size fss bus dsk path =
     obind (get_fs fss (bus, dsk)) (\<lambda>fs.
     obind (map_err FileError_from (read_file (phys_fs fs) path)) (\<lambda>(bytes, _). Ok (length bytes)))"

text \<open>\<open>get_fs_mut\<close> hands out a leaked clone: changing it does not change the table.\<close>

definition get_fs_mut :: "filesystems \<Rightarrow> nat \<Rightarrow> nat \<Rightarrow> (FileError, VirtFs) outcome" where
  "get_fs_mut fss bus dsk = get_fs fss (bus, dsk)"

definition get_first_good_fs :: "(filesystems \<Rightarrow> fs_key list) \<Rightarrow> filesystems \<Rightarrow> (FileError, fs_key) outcome" where
  "get_first_good_fs iter fss = (case iter fss of
      key # _ \<Rightarrow> Ok key
    | [] \<Rightarrow> Err (NotFoundError (inner_from FsFilesystemNotFound)))"

end
