(* ===== verification/File_Store.thy ===== *)
theory File_Store
  imports Fs_Write
begin

text \<open>
  The contract of a filesystem as its clients see it (the handles of \<open>Virt_Fs\<close>, the
  loader): a map from names to metadata and contents that \<open>read_file\<close> looks up and that
  \<open>create_file\<close> and \<open>write_file\<close> update at one name. The locale \<open>file_store\<close> states it and
  proves the clients' lemmas once; the operations of \<open>PhysFs\<close> are its interpretation.
\<close>

section \<open>The contract\<close>

locale file_store =
  fixes rd :: "'s \<Rightarrow> string \<Rightarrow> (FsError, u8 list \<times> FileMetadata) outcome"
    and wr :: "string \<Rightarrow> u8 list \<Rightarrow> perms option \<Rightarrow> u64 option \<Rightarrow> 's \<Rightarrow> (FsError, unit) outcome \<times> 's"
    and cr :: "string \<Rightarrow> perms \<Rightarrow> u64 \<Rightarrow> 's \<Rightarrow> (FsError, unit) outcome \<times> 's"
    and inv :: "'s \<Rightarrow> bool"
    and store :: "'s \<Rightarrow> u8 list \<rightharpoonup> FileMetadata \<times> u8 list"
    and fits :: "'s \<Rightarrow> string \<Rightarrow> nat \<Rightarrow> bool"
    and room :: "'s \<Rightarrow> bool"
    and touch :: "perms option \<Rightarrow> u64 option \<Rightarrow> FileMetadata \<Rightarrow> FileMetadata"
    and fresh :: "perms \<Rightarrow> u64 \<Rightarrow> FileMetadata"
  assumes rd_law: "inv s \<Longrightarrow> valid_name n \<Longrightarrow> rd s n = (case store s (padded n) of
        None \<Rightarrow> Err FsFileNotFound | Some (md, bytes) \<Rightarrow> Ok (bytes, md))"
    and wr_law: "inv s \<Longrightarrow> valid_name n \<Longrightarrow> store s (padded n) = Some (md, old) \<Longrightarrow>
        fits s n (length bytes) \<Longrightarrow>
        \<exists>s'. wr n bytes p u s = (Ok (), s') \<and> inv s' \<and>
          store s' = (store s)(padded n \<mapsto> (touch p u md, pad_data bytes))"
    and cr_law: "inv s \<Longrightarrow> valid_name n \<Longrightarrow> store s (padded n) = None \<Longrightarrow> room s \<Longrightarrow>
        \<exists>s'. cr n perms v s = (Ok (), s') \<and> inv s' \<and>
          store s' = (store s)(padded n \<mapsto> (fresh perms v, []))"
begin

lemma padded_neq: "valid_name m \<Longrightarrow> valid_name n \<Longrightarrow> m \<noteq> n \<Longrightarrow> padded m \<noteq> padded n"
  using padded_inj by blast

lemma write_then_read:
  assumes "inv s" and "valid_name n" and "store s (padded n) = Some (md, old)"
    and "fits s n (length bytes)"
  obtains s' where "wr n bytes p u s = (Ok (), s')" and "inv s'"
    and "rd s' n = Ok (pad_data bytes, touch p u md)"
    and "\<forall>m. valid_name m \<longrightarrow> m \<noteq> n \<longrightarrow> rd s' m = rd s m"
proof -
  obtain s' where s': "wr n bytes p u s = (Ok (), s')" "inv s'"
    and upd: "store s' = (store s)(padded n \<mapsto> (touch p u md, pad_data bytes))"
    using wr_law [OF assms] by blast
  have "rd s' m = rd s m" if "valid_name m" "m \<noteq> n" for m
    using that assms(1,2) s'(2) padded_neq [OF that(1) assms(2) that(2)] by (simp add: rd_law upd)
  then show thesis using that s' assms(2) by (simp add: rd_law upd)
qed

lemma create_then_read:
  assumes "inv s" and "valid_name n" and "store s (padded n) = None" and "room s"
  obtains s' where "cr n perms u s = (Ok (), s')" and "inv s'"
    and "rd s' n = Ok ([], fresh perms u)"
    and "\<forall>m. valid_name m \<longrightarrow> m \<noteq> n \<longrightarrow> rd s' m = rd s m"
proof -
  obtain s' where s': "cr n perms u s = (Ok (), s')" "inv s'"
    and upd: "store s' = (store s)(padded n \<mapsto> (fresh perms u, []))"
    using cr_law [OF assms] by blast
  have "rd s' m = rd s m" if "valid_name m" "m \<noteq> n" for m
    using that assms(1,2) s'(2) padded_neq [OF that(1) assms(2) that(2)] by (simp add: rd_law upd)
  then show thesis using that s' assms(2) by (simp add: rd_law upd)
qed

lemma missing_iff: "inv s \<Longrightarrow> valid_name n \<Longrightarrow>
    rd s n = Err FsFileNotFound \<longleftrightarrow> store s (padded n) = None"
  by (auto simp: rd_law split: option.splits)

text \<open>The last write wins.\<close>

lemma overwrite:
  assumes "inv s" and n: "valid_name n" and "store s (padded n) = Some (md, old)"
    and "fits s n (length bytes)"
    and again: "\<And>s'. wr n bytes p u s = (Ok (), s') \<Longrightarrow> fits s' n (length bytes')"
  obtains s' s'' where "wr n bytes p u s = (Ok (), s')" and "wr n bytes' q v s' = (Ok (), s'')"
    and "rd s'' n = Ok (pad_data bytes', touch q v (touch p u md))"
proof -
  obtain s' where s': "wr n bytes p u s = (Ok (), s')" "inv s'"
    and upd: "store s' = (store s)(padded n \<mapsto> (touch p u md, pad_data bytes))"
    using wr_law [OF assms(1-4)] by blast
  have "store s' (padded n) = Some (touch p u md, pad_data bytes)" by (simp add: upd)
  then obtain s'' where "wr n bytes' q v s' = (Ok (), s'')"
    "rd s'' n = Ok (pad_data bytes', touch q v (touch p u md))"
    using write_then_read [OF s'(2) n _ again [OF s'(1)]] by metis
  then show thesis using that s'(1) by blast
qed

end

section \<open>PhysFs keeps the contract\<close>

definition fits :: "PhysFs \<Rightarrow> string \<Rightarrow> nat \<Rightarrow> bool" where
  "fits fs name len \<longleftrightarrow> blocks_needed len \<le> 11 \<and>
     blocks_needed len - capacity fs (padded name) \<le> card (free_blocks fs)"

definition room :: "PhysFs \<Rightarrow> bool" where
  "room fs \<longleftrightarrow> free_blocks fs \<noteq> {} \<and> length (inode_table fs) = unat (num_inodes (superblock fs)) \<and>
     (\<exists>i \<in> set (inode_table fs). \<not> live i)"

interpretation phys: file_store read_file "write_file clk" "create_file clk" direct_fs files fits room
  "updated_metadata clk" "new_metadata clk"
  for clk
proof
  fix s n assume "direct_fs s" and "valid_name n"
  then show "read_file s n = (case files s (padded n) of
      None \<Rightarrow> Err FsFileNotFound | Some (md, bytes) \<Rightarrow> Ok (bytes, md))"
    by (rule read_file_files)
next
  fix s n md old p u and bytes :: "u8 list"
  assume "direct_fs s" "valid_name n" "files s (padded n) = Some (md, old)" "fits s n (length bytes)"
  then show "\<exists>s'. write_file clk n bytes p u s = (Ok (), s') \<and> direct_fs s' \<and>
      files s' = (files s)(padded n \<mapsto> (updated_metadata clk p u md, pad_data bytes))"
    using write_file_refines [of s n md old bytes clk p u] unfolding fits_def by blast
next
  fix s n perms u
  assume "direct_fs s" "valid_name n" "files s (padded n) = None" "room s"
  then show "\<exists>s'. create_file clk n perms u s = (Ok (), s') \<and> direct_fs s' \<and>
      files s' = (files s)(padded n \<mapsto> (new_metadata clk perms u, []))"
    using create_file_refines [of s n _ clk perms u] unfolding room_def by blast
qed

section \<open>Properties\<close>

text \<open>
  After a write the file reads back as the padded data, and every other file reads as
  before.
\<close>

lemma write_file_read_file:
  assumes "direct_fs fs" and "valid_name name" and "files fs (padded name) = Some (md, old)"
    and "fits fs name (length bytes)"
  shows "\<exists>fs'. write_file clk name bytes perms own fs = (Ok (), fs') \<and>
    read_file fs' name = Ok (pad_data bytes, updated_metadata clk perms own md) \<and>
    (\<forall>other. valid_name other \<longrightarrow> other \<noteq> name \<longrightarrow> read_file fs' other = read_file fs other)"
  using phys.write_then_read [OF assms] by blast

lemma write_file_read_file_example:
  "\<exists>fs' md. write_file (\<lambda>_. 9) ''/a'' [1, 2, 3] None None sample_file_fs = (Ok (), fs') \<and>
    read_file fs' ''/a'' = Ok (pad_data [1, 2, 3], md) \<and>
    read_file fs' ''/b'' = Err FsFileNotFound"
proof -
  have "read_file sample_file_fs ''/b'' = Err FsFileNotFound"
    using padded_inj [of "''/b''" "''/a''"]
    by (auto simp: read_file_files [OF sample_file_fs_facts(1)] sample_file_fs_facts(2) valid_name_def)
  moreover have fits: "fits sample_file_fs ''/a'' (length [1 :: u8, 2, 3])"
    using sample_file_fs_facts(3) by (simp add: fits_def blocks_needed_def)
  moreover have valid: "valid_name ''/a''" "valid_name ''/b''" by (simp_all add: valid_name_def)
  moreover have here: "files sample_file_fs (padded ''/a'') = Some (new_metadata (\<lambda>_. 7) (6, 6, 6) 0, [])"
    by (simp add: sample_file_fs_facts(2))
  moreover have "''/b'' \<noteq> ''/a''" by simp
  ultimately show ?thesis
    using write_file_read_file [OF sample_file_fs_facts(1) valid(1) here fits, of "\<lambda>_. 9" None None]
    by metis
qed

end
