(* ===== verification/Virt_Facts.thy ===== *)
theory Virt_Facts
  imports Virt_Fs File_Store
begin

text \<open>
  What the operations of \<open>Virt_Fs\<close> do on a filesystem that keeps the invariant of
  \<open>Fs_Files\<close>: reads and writes through a handle against the contents of the abstract
  store, \<open>chmod\<close> and \<open>chown\<close> as updates of the metadata of one file, and \<open>delete\<close> as the
  removal of one file.
\<close>

section \<open>Handles\<close>

text \<open>A handle of a readable file: its filesystem is mounted and holds the file.\<close>

definition opened :: "filesystems \<Rightarrow> FileHandle \<Rightarrow> FileMetadata \<Rightarrow> u8 list \<Rightarrow> bool" where
  "opened fss h md bytes \<longleftrightarrow> valid_name (fh_file_name h) \<and>
     (\<exists>fs. fss (fh_key h) = Some fs \<and> direct_fs (phys_fs fs) \<and>
        files (phys_fs fs) (padded (fh_file_name h)) = Some (md, bytes))"

lemma openedE:
  assumes "opened fss h md bytes"
  obtains fs where "fss (fh_key h) = Some fs" and "direct_fs (phys_fs fs)" and "valid_name (fh_file_name h)"
    and "files (phys_fs fs) (padded (fh_file_name h)) = Some (md, bytes)"
    and "read_file (phys_fs fs) (fh_file_name h) = Ok (bytes, md)"
  using assms by (auto simp: opened_def read_file_files)

lemma handle_read_opened:
  assumes o: "opened fss h md bytes" and r: "is_set FlagRead (fh_flags h)" and pos: "file_pos h \<le> length bytes"
  shows "handle_read fss buf h =
    (let n = min (length buf) (length bytes - file_pos h) in
     (Ok (n, take n (drop (file_pos h) bytes) @ drop n buf), h\<lparr>file_pos := file_pos h + n\<rparr>))"
proof -
  obtain fs where fs: "fss (fh_key h) = Some fs"
    "read_file (phys_fs fs) (fh_file_name h) = Ok (bytes, md)"
    using o by (rule openedE)
  define n where "n = min (length buf) (length bytes - file_pos h)"
  have n: "file_pos h + n \<le> length bytes" "n \<le> length buf" using pos by (auto simp: n_def)
  have part: "slice bytes (file_pos h) (file_pos h + n) =
      (Ok (take n (drop (file_pos h) bytes)) :: (FileError, u8 list) outcome)"
    using n by (simp add: slice_def)
  have copy: "copy_from_slice buf 0 n (take n (drop (file_pos h) bytes)) =
      (Ok (take n (drop (file_pos h) bytes) @ drop n buf) :: (FileError, u8 list) outcome)"
    using n by (simp add: copy_from_slice_def splice_def)
  show ?thesis
    using fs r pos part copy
    by (simp add: handle_read_def run_simps get_fs_def usize_sub_def Let_def n_def [symmetric])
qed

lemma handle_read_past_end:
  assumes o: "opened fss h md bytes" and r: "is_set FlagRead (fh_flags h)" and pos: "length bytes < file_pos h"
  shows "handle_read fss buf h = (Panic, h)"
proof -
  obtain fs where fs: "fss (fh_key h) = Some fs"
    "read_file (phys_fs fs) (fh_file_name h) = Ok (bytes, md)"
    using o by (rule openedE)
  then show ?thesis using r pos
    by (simp add: handle_read_def run_simps get_fs_def usize_sub_def)
qed

section \<open>Writing through a handle\<close>

text \<open>The contents after writing \<open>buf\<close> at \<open>pos\<close>: a gap is filled with zeros.\<close>

definition written :: "u8 list \<Rightarrow> nat \<Rightarrow> u8 list \<Rightarrow> u8 list" where
  "written bytes pos buf = splice (bytes @ replicate (pos + length buf - length bytes) 0) pos buf"

lemma length_written: "length (written bytes pos buf) = max (length bytes) (pos + length buf)"
  by (simp add: written_def max_def)

lemma written_at: "take (length buf) (drop pos (written bytes pos buf)) = buf"
  unfolding written_def by (rule take_drop_splice) simp

lemma overlay_written:
  assumes "pos + length buf \<le> usize_max"
  shows "overlay bytes pos buf = Ok (written bytes pos buf)"
proof -
  let ?b1 = "if pos > length bytes then resize bytes pos 0 else bytes"
  let ?b2 = "if pos + length buf > length ?b1 then resize ?b1 (pos + length buf) 0 else ?b1"
  have "?b2 = bytes @ replicate (pos + length buf - length bytes) 0"
    by (auto simp: resize_grow replicate_add [symmetric])
  then show ?thesis using assms
    by (simp add: overlay_def usize_add_def copy_from_slice_def written_def Let_def)
qed

lemma on_phys_ok: "fss key = Some fs \<Longrightarrow> m (phys_fs fs) = (Ok x, p) \<Longrightarrow>
    on_phys key m fss = (Ok x, fss(key \<mapsto> fs\<lparr>phys_fs := p\<rparr>))"
  by (simp add: on_phys_def)

lemma handle_write_opened:
  assumes o: "opened fss h md bytes" and w: "is_set FlagWrite (fh_flags h)"
    and pos: "file_pos h + length buf \<le> usize_max"
    and room: "\<And>fs. fss (fh_key h) = Some fs \<Longrightarrow>
      fits (phys_fs fs) (fh_file_name h) (length (written bytes (file_pos h) buf))"
  obtains fss' md' where
      "handle_write clk buf (h, fss) = (Ok (length buf), (h\<lparr>file_pos := file_pos h + length buf\<rparr>, fss'))"
    and "opened fss' h md' (pad_data (written bytes (file_pos h) buf))"
    and "\<forall>key. key \<noteq> fh_key h \<longrightarrow> fss' key = fss key"
proof -
  obtain fs where fs: "fss (fh_key h) = Some fs" "direct_fs (phys_fs fs)" "valid_name (fh_file_name h)"
    and f: "files (phys_fs fs) (padded (fh_file_name h)) = Some (md, bytes)"
    and read: "read_file (phys_fs fs) (fh_file_name h) = Ok (bytes, md)"
    using o by (rule openedE)
  obtain p where run: "write_file clk (fh_file_name h) (written bytes (file_pos h) buf) None None (phys_fs fs)
      = (Ok (), p)" and p: "direct_fs p"
    and upd: "files p = (files (phys_fs fs))(padded (fh_file_name h) \<mapsto>
      (updated_metadata clk None None md, pad_data (written bytes (file_pos h) buf)))"
    using phys.wr_law [OF fs(2,3) f room [OF fs(1)]] by blast
  define fss' where "fss' = fss(fh_key h \<mapsto> fs\<lparr>phys_fs := p\<rparr>)"
  have "handle_write clk buf (h, fss) = (Ok (length buf), (h\<lparr>file_pos := file_pos h + length buf\<rparr>, fss'))"
    using fs read w pos run
    by (simp add: handle_write_def get_fs_def overlay_written on_phys_ok fss'_def)
  moreover have "opened fss' h (updated_metadata clk None None md) (pad_data (written bytes (file_pos h) buf))"
    using fs p upd by (simp add: opened_def fss'_def)
  ultimately show thesis using that by (simp add: fss'_def)
qed

lemma pad_data_at: "pos + n \<le> length bytes \<Longrightarrow> take n (drop pos (pad_data bytes)) = take n (drop pos bytes)"
  by (simp add: pad_data_prefix)

text \<open>What was written is read back at the same position.\<close>

lemma handle_write_read:
  assumes "opened fss h md bytes" and "is_set FlagRead (fh_flags h)" and "is_set FlagWrite (fh_flags h)"
    and "file_pos h + length buf \<le> usize_max" and "length buf' = length buf"
    and "\<And>fs. fss (fh_key h) = Some fs \<Longrightarrow>
      fits (phys_fs fs) (fh_file_name h) (length (written bytes (file_pos h) buf))"
  obtains fss' md' where
      "handle_write clk buf (h, fss) = (Ok (length buf), (h\<lparr>file_pos := file_pos h + length buf\<rparr>, fss'))"
    and "opened fss' h md' (pad_data (written bytes (file_pos h) buf))"
    and "handle_read fss' buf' h = (Ok (length buf, buf), h\<lparr>file_pos := file_pos h + length buf\<rparr>)"
    and "\<forall>key. key \<noteq> fh_key h \<longrightarrow> fss' key = fss key"
proof -
  let ?new = "written bytes (file_pos h) buf"
  obtain fss' md' where run: "handle_write clk buf (h, fss) =
      (Ok (length buf), (h\<lparr>file_pos := file_pos h + length buf\<rparr>, fss'))"
    and o: "opened fss' h md' (pad_data ?new)" and frame: "\<forall>key. key \<noteq> fh_key h \<longrightarrow> fss' key = fss key"
    using handle_write_opened [OF assms(1,3,4,6)] by metis
  have len: "file_pos h + length buf \<le> length (pad_data ?new)"
    by (simp add: pad_data_prefix length_written)
  have "take (length buf) (drop (file_pos h) (pad_data ?new)) = buf"
    by (simp add: pad_data_at length_written written_at)
  then have "handle_read fss' buf' h = (Ok (length buf, buf), h\<lparr>file_pos := file_pos h + length buf\<rparr>)"
    using handle_read_opened [OF o assms(2), of buf'] len assms(5)
    by (simp add: Let_def min_absorb1 le_diff_conv2)
  with run o frame show thesis using that by blast
qed

section \<open>Metadata\<close>

lemma change_metadata_refines:
  assumes fs: "direct_fs fs" and name: "valid_name name"
    and f: "files fs (padded name) = Some (md, bytes)"
  obtains fs' where "change_metadata g name fs = (Ok (), fs')" and "direct_fs fs'"
    and "files fs' = (files fs)(padded name \<mapsto> (g md, bytes))"
proof -
  note wf = direct_fs_wf [OF fs] and nm = padded_neq_no_name [OF name]
  have len: "length name \<le> 384" using name by (simp add: valid_name_def)
  obtain k i p0 existing where k: "slot fs (padded name) = Some k" and klt: "k < length (inode_table fs)"
    and i: "inode_table fs ! k = i" and iname: "file_name i = padded name" and "padded name \<noteq> no_name"
    and di: "direct_inode i" and "live i" and own: "owned i = p0 # existing"
    and md: "metadata_of (block_data (data_blocks fs ! unat p0)) = md"
    and blocks: "\<forall>p \<in> set (owned i). unat p < length (data_blocks fs) \<and> p \<notin> free_blocks fs"
    and "direct_used fs p0"
    using files_lookup [OF fs f] by blast
  have lt: "unat p0 < length (data_blocks fs)" using blocks own by simp
  define fs' where "fs' = fs\<lparr>data_blocks := (data_blocks fs)[unat p0 := \<lparr>block_data = metadata_bytes (g md)\<rparr>]\<rparr>"
  have same: "(inode_table fs)[k := i] = inode_table fs" using list_update_id [of "inode_table fs" k] i by metis
  have slot': "slot fs' (file_name i) = Some k" using k iname by (simp add: slot_def fs'_def)
  have "index (data_block_pointers i) 0 = (Ok p0 :: (FsError, u64) outcome)"
    using direct_inode_pointer0 [OF di] own by simp
  moreover have "decode_metadata (block_data (data_blocks fs ! unat p0)) = Ok md"
    using decode_metadata_of [OF wf_fs_block_length [OF wf lt]] md by simp
  ultimately have run: "change_metadata g name fs = (Ok (), fs')"
    using update_inode_slot [OF slot'] write_to_data_block_ok [OF wf lt] same
    by (simp add: change_metadata_def run_simps find_inode_by_name_slot [OF len] k i index_ok [OF lt]
        fs'_def [symmetric]) (simp add: fs'_def)
  have table: "inode_table fs' = (inode_table fs)[k := i]" by (simp add: same) (simp add: fs'_def)
  have wf': "wf_fs fs'" unfolding fs'_def using wf by (simp add: wf_fs_set_block)
  have other: "p \<notin> set (owned (inode_table fs ! j))"
    if "j < length (inode_table fs)" "j \<noteq> k" "p \<in> set (owned i)" for j p
    using direct_fs_disjoint [OF fs klt that(1)] that i by auto
  have frame: "data_blocks fs' ! unat p = data_blocks fs ! unat p" if "p \<noteq> p0" for p
    using that by (simp add: fs'_def nth_block_neq)
  have direct: "direct_fs fs'"
    using blocks other direct_fs_names [OF fs k nm] iname
    by (intro direct_fs_upd [OF fs klt wf' di table]) (auto simp: fs'_def)
  have "files fs' = (files fs)(padded name \<mapsto> file_of fs' i)"
    using iname i direct_fs_names [OF fs k nm]
  proof (intro files_upd [OF fs klt _ nm _ table iname])
    show "data_blocks fs' ! unat p = data_blocks fs ! unat p"
      if "j < length (inode_table fs)" "j \<noteq> k" "p \<in> set (owned (inode_table fs ! j))" for j p
      using other [OF that(1,2), of p0] that(3) own by (intro frame) auto
  qed auto
  moreover have "file_of fs' i = (g md, bytes)"
  proof -
    have "file_of fs i = (md, bytes)" using f k i nm by (simp add: files_def)
    then have bytes: "blocks_at fs (take (unat (in_num_data_blocks i) - 1) existing) = bytes"
      using own by (simp add: file_of_def)
    have "p0 \<notin> set existing" using di own by (simp add: direct_inode_def)
    then have "blocks_at fs' (take n existing) = blocks_at fs (take n existing)" for n
      by (intro blocks_at_cong frame) (auto dest: in_set_takeD)
    then show ?thesis using bytes lt own by (simp add: file_of_def) (simp add: fs'_def)
  qed
  ultimately show thesis using that run direct by simp
qed

lemma get_metadata_files:
  assumes "direct_fs fs" and "valid_name name" and "files fs (padded name) = Some (md, bytes)"
  shows "get_metadata fs name = Ok md"
proof -
  have "read_file fs name = Ok (bytes, md)" using assms by (simp add: read_file_files)
  then show ?thesis by (auto simp: read_file_def get_metadata_def)
qed

text \<open>The three permission bytes survive the encoding.\<close>

lemma perms_bits_bytes: "slice (to_le_bytes (perms_bits (a, b, c))) 0 3 = Ok [a, b, c]"
  by (simp add: to_from_le_bytes slice_def)

section \<open>Deleting\<close>

lemma files_find: "files fs nm = (if nm = no_name then None
    else map_option (file_of fs) (find (\<lambda>i. file_name i = nm) (inode_table fs)))"
proof -
  have "map_option (\<lambda>k. g (xs ! k)) (position P xs) = map_option g (find P xs)"
    for g :: "Inode \<Rightarrow> FileMetadata \<times> u8 list" and P xs
  proof (induction xs)
    case (Cons x xs)
    then show ?case by (simp add: option.map_comp comp_def)
  qed simp
  then show ?thesis by (simp add: files_def slot_def)
qed

lemma find_filter: "(\<And>x. P x \<Longrightarrow> Q x) \<Longrightarrow> find P (filter Q xs) = find P xs"
  by (induction xs) auto

definition apart :: "Inode \<Rightarrow> Inode \<Rightarrow> bool" where
  "apart i j \<longleftrightarrow> set (owned i) \<inter> set (owned j) = {} \<and> (file_name i = file_name j \<longrightarrow> file_name i = no_name)"

lemma apart_sym: "apart i j \<longleftrightarrow> apart j i"
  by (auto simp: apart_def)

lemma direct_fs_apart: "direct_fs fs \<longleftrightarrow> wf_fs fs \<and>
    (\<forall>i \<in> set (inode_table fs). direct_inode i \<and> (\<forall>p \<in> set (owned i). unat p < length (data_blocks fs))) \<and>
    sorted_wrt apart (inode_table fs)"
proof -
  have "(\<forall>j < length xs. \<forall>k < length xs. j \<noteq> k \<longrightarrow> apart (xs ! j) (xs ! k)) \<longleftrightarrow> sorted_wrt apart xs" for xs
  proof
    assume R: "sorted_wrt apart xs"
    have "apart (xs ! j) (xs ! k)" if "j < length xs" "k < length xs" "j \<noteq> k" for j k
      using R that apart_sym by (cases j k rule: linorder_cases) (auto simp: sorted_wrt_iff_nth_less)
    then show "\<forall>j < length xs. \<forall>k < length xs. j \<noteq> k \<longrightarrow> apart (xs ! j) (xs ! k)" by blast
  qed (auto simp: sorted_wrt_iff_nth_less)
  then show ?thesis by (simp add: direct_fs_def apart_def)
qed

lemma delete_blocks:
  assumes lt: "\<And>p. p \<in> set ps \<Longrightarrow> unat p < length (data_blocks fs)" and ps: "data_block_pointers i = ps @ rest"
  obtains fs' where "for_each (delete_block i) [0..<length ps] fs = (Ok (), fs')"
    and "superblock fs' = superblock fs" and "inode_table fs' = inode_table fs"
    and "length (data_blocks fs') = length (data_blocks fs)"
    and "\<forall>p. p \<in> set ps \<longrightarrow> data_blocks fs' ! unat p = zero_block"
    and "\<forall>p. p \<notin> set ps \<longrightarrow> data_blocks fs' ! unat p = data_blocks fs ! unat p"
proof -
  let ?P = "\<lambda>n s. superblock s = superblock fs \<and> inode_table s = inode_table fs \<and>
    length (data_blocks s) = length (data_blocks fs) \<and>
    (\<forall>p. data_blocks s ! unat p = (if p \<in> set (take n ps) then zero_block else data_blocks fs ! unat p))"
  have "\<exists>s'. for_each (delete_block i) [0..<length ps] fs = (Ok (), s') \<and> ?P (length ps) s'"
  proof (rule for_each_upt [where P = ?P])
    fix n and s :: PhysFs assume n: "n < length ps" and P: "?P n s"
    have idx: "unat (ps ! n) < length (data_blocks s)" using P lt n by simp
    define s' where "s' = s\<lparr>data_blocks := (data_blocks s)[unat (ps ! n) := zero_block]\<rparr>"
    have "delete_block i n s = (Ok (), s')"
      using n idx ps by (simp add: delete_block_def run_simps index_def index_set_def nth_append s'_def)
    moreover have "data_blocks s' ! unat p = (if p \<in> set (take (Suc n) ps) then zero_block else data_blocks fs ! unat p)" for p
      using P n idx by (cases "p = ps ! n") (auto simp: s'_def take_Suc_conv_app_nth nth_block_neq)
    ultimately show "\<exists>s'. delete_block i n s = (Ok (), s') \<and> ?P (Suc n) s'"
      using P by (simp add: s'_def)
  qed simp_all
  then show thesis using that by auto
qed

lemma length_blocks_at:
  "wf_fs fs \<Longrightarrow> (\<And>p. p \<in> set ps \<Longrightarrow> unat p < length (data_blocks fs)) \<Longrightarrow> length (blocks_at fs ps) = 512 * length ps"
  by (induction ps) (simp_all add: blocks_at_def wf_fs_def)

lemma phys_delete_refines:
  assumes fs: "direct_fs fs" and name: "valid_name name" and f: "files fs (padded name) = Some (md, bytes)"
  obtains fs' where "phys_delete name fs = (Ok (), fs')" and "direct_fs fs'"
    and "files fs' = (files fs)(padded name := None)"
    and "length (inode_table fs') < length (inode_table fs)" and "superblock fs' = superblock fs"
    and "card (free_blocks fs) + Suc (length bytes div 512) \<le> card (free_blocks fs')"
proof -
  note wf = direct_fs_wf [OF fs] and nm = padded_neq_no_name [OF name]
  have len: "length name \<le> 384" using name by (simp add: valid_name_def)
  obtain k i p0 existing where k: "slot fs (padded name) = Some k" and klt: "k < length (inode_table fs)"
    and i: "inode_table fs ! k = i" and iname: "file_name i = padded name" and "padded name \<noteq> no_name"
    and di: "direct_inode i" and live: "live i" and own: "owned i = p0 # existing"
    and "metadata_of (block_data (data_blocks fs ! unat p0)) = md"
    and blocks: "\<forall>p \<in> set (owned i). unat p < length (data_blocks fs) \<and> p \<notin> free_blocks fs"
    and "direct_used fs p0"
    using files_lookup [OF fs f] by blast
  let ?n = "unat (in_num_data_blocks i)" and ?Q = "\<lambda>j. file_name j \<noteq> padded name"
  have nle: "?n \<le> length (owned i)" and dbp: "data_block_pointers i = owned i @ replicate (12 - length (owned i)) 0"
    using di by (auto simp: direct_inode_def)
  have split: "data_block_pointers i = take ?n (owned i) @ drop ?n (data_block_pointers i)"
    using nle append_take_drop_id [of ?n "data_block_pointers i"] by (simp add: dbp)
  have bound: "unat p < length (data_blocks fs)" if "p \<in> set (take ?n (owned i))" for p
    using that blocks by (auto dest: in_set_takeD)
  obtain fs1 where run: "for_each (delete_block i) [0..<length (take ?n (owned i))] fs = (Ok (), fs1)"
    and sb1: "superblock fs1 = superblock fs" and t1: "inode_table fs1 = inode_table fs"
    and l1: "length (data_blocks fs1) = length (data_blocks fs)"
    and zero: "\<forall>p. p \<in> set (take ?n (owned i)) \<longrightarrow> data_blocks fs1 ! unat p = zero_block"
    and keep: "\<forall>p. p \<notin> set (take ?n (owned i)) \<longrightarrow> data_blocks fs1 ! unat p = data_blocks fs ! unat p"
    using delete_blocks [OF bound split] by blast
  define fs' where "fs' = fs1\<lparr>inode_table := filter ?Q (inode_table fs)\<rparr>"
  have "length (take ?n (owned i)) = ?n" using nle by simp
  then have runs: "phys_delete name fs = (Ok (), fs')"
    using run by (simp only: phys_delete_def run_simps find_inode_by_name_slot [OF len] k i iname)
      (simp add: i iname fs'_def t1 modify_def)
  have "length (block_data b) = 512" if b: "b \<in> set (data_blocks fs1)" for b
  proof -
    obtain q where q: "q < length (data_blocks fs1)" "b = data_blocks fs1 ! q" using b by (auto simp: in_set_conv_nth)
    then have "b = zero_block \<or> b = data_blocks fs ! q"
      using zero keep wf l1 unat_word_of_nat_lt [of q "num_data_blocks (superblock fs)"]
      by (metis wf_fs_length)
    then show ?thesis using wf q l1 by (auto simp: wf_fs_def zero_block_def)
  qed
  then have wf': "wf_fs fs'" using wf by (auto simp: wf_fs_def fs'_def l1 sb1)
  have direct: "direct_fs fs'"
    using fs wf' unfolding direct_fs_apart
    by (auto simp: fs'_def l1 intro: sorted_wrt_filter)
  have same: "file_of fs' j = file_of fs j" if j: "j \<in> set (inode_table fs)" "?Q j" "file_name j \<noteq> no_name" for j
  proof (rule file_of_cong)
    obtain m where m: "m < length (inode_table fs)" "inode_table fs ! m = j"
      using j(1) by (auto simp: in_set_conv_nth)
    then have "m \<noteq> k" using j(2) iname i by auto
    show "owned j \<noteq> []" using direct_inode_live [OF direct_fs_inode [OF fs m(1)]] m(2) j(3) by simp
    show "data_blocks fs' ! unat p = data_blocks fs ! unat p" if "p \<in> set (owned j)" for p
      using direct_fs_disjoint [OF fs m(1) klt \<open>m \<noteq> k\<close>] m(2) that i keep
      by (auto simp: fs'_def dest: in_set_takeD)
  qed
  have "files fs' nm' = ((files fs)(padded name := None)) nm'" for nm'
  proof (cases "nm' = padded name \<or> nm' = no_name")
    case True
    then show ?thesis by (auto simp: files_find fs'_def find_None_iff)
  next
    case False
    then have "find (\<lambda>i. file_name i = nm') (inode_table fs') = find (\<lambda>i. file_name i = nm') (inode_table fs)"
      unfolding fs'_def by (auto intro: find_filter)
    moreover have "file_of fs' j = file_of fs j"
      if "find (\<lambda>i. file_name i = nm') (inode_table fs) = Some j" for j
    proof -
      have "j \<in> set (inode_table fs)" "file_name j = nm'" using that by (auto simp: find_Some_iff)
      then show ?thesis using False by (intro same) auto
    qed
    ultimately show ?thesis using False by (cases "find (\<lambda>i. file_name i = nm') (inode_table fs)") (auto simp: files_find)
  qed
  then have upd: "files fs' = (files fs)(padded name := None)" by (rule ext)
  have "length (filter ?Q (inode_table fs)) < length (inode_table fs)"
    using klt i iname by (intro length_filter_less [of i]) auto
  moreover have "card (free_blocks fs) + Suc (length bytes div 512) \<le> card (free_blocks fs')"
  proof -
    let ?freed = "set (take ?n (owned i))"
    have sub: "free_blocks fs \<union> ?freed \<subseteq> free_blocks fs'"
    proof
      fix p assume p: "p \<in> free_blocks fs \<union> ?freed"
      have lt: "unat p < unat (num_data_blocks (superblock fs))" "p \<noteq> 0"
        using p blocks wf by (auto simp: free_blocks_def wf_fs_length owned_def nonzero_def dest!: in_set_takeD)
      have "block_data (data_blocks fs' ! unat p) = replicate 512 0"
        using p zero keep by (cases "p \<in> ?freed") (auto simp: fs'_def zero_block_def free_blocks_def)
      moreover have "\<not> direct_used fs' p"
      proof
        assume "direct_used fs' p"
        then obtain j where j: "j \<in> set (inode_table fs)" "?Q j" "p \<in> set (data_block_pointers j)"
          by (auto simp: direct_used_def fs'_def list_ex_iff)
        then obtain m where m: "m < length (inode_table fs)" "inode_table fs ! m = j" by (auto simp: in_set_conv_nth)
        have pj: "p \<in> set (owned (inode_table fs ! m))" using j(3) m(2) lt(2) by (simp add: owned_def nonzero_def)
        have "m \<noteq> k" using j(2) m(2) i iname by auto
        then have "p \<notin> set (owned i)" using direct_fs_disjoint [OF fs m(1) klt _ pj] i by auto
        moreover have "p \<notin> free_blocks fs" using owned_not_free [OF m(1) pj] .
        ultimately show False using p by (auto dest: in_set_takeD)
      qed
      ultimately show "p \<in> free_blocks fs'" using lt by (simp add: free_blocks_def fs'_def sb1 word_neq_0_conv unat_gt_0)
    qed
    have "distinct (owned i)" "?n \<noteq> 0" using di live by (simp_all add: direct_inode_def live_def unat_eq_zero)
    then have "card ?freed = ?n" using nle by (simp add: distinct_card)
    moreover have "free_blocks fs \<inter> ?freed = {}" using blocks by (auto dest: in_set_takeD)
    ultimately have card: "card (free_blocks fs) + ?n \<le> card (free_blocks fs')"
      using card_mono [OF _ sub] card_Un_disjoint [of "free_blocks fs" ?freed] by simp
    have "file_of fs i = (md, bytes)" using f nm k i by (simp add: files_def)
    then have "bytes = blocks_at fs (take (?n - 1) existing)" by (simp add: file_of_def own)
    moreover have "length (blocks_at fs (take (?n - 1) existing)) = 512 * length (take (?n - 1) existing)"
      by (rule length_blocks_at [OF wf]) (use blocks own in \<open>auto dest: in_set_takeD\<close>)
    ultimately have "length bytes div 512 = ?n - 1" using nle own by simp
    then show ?thesis using card \<open>?n \<noteq> 0\<close> by simp
  qed
  ultimately show thesis using that [OF runs direct upd] by (simp add: fs'_def sb1)
qed

section \<open>Properties\<close>

text \<open>The sample file, opened for reading and writing on bus 0, device 1.\<close>

definition sample_handle :: FileHandle where
  "sample_handle = FileHandle_new ''/a'' 0 1 (flags_bitor FlagRead FlagWrite)"

definition sample_vfs :: VirtFs where
  "sample_vfs = \<lparr>phys_fs = sample_file_fs, vf_bus = 0, vf_dsk = 1, open_files = []\<rparr>"

definition sample_mount :: filesystems where
  "sample_mount = [(0, 1) \<mapsto> sample_vfs]"

lemma sample_mount_at: "sample_mount (0, 1) = Some sample_vfs" "phys_fs sample_vfs = sample_file_fs"
  by (simp_all add: sample_mount_def sample_vfs_def)

lemma sample_mount_file: "direct_fs (phys_fs sample_vfs)" "valid_name ''/a''"
    "files (phys_fs sample_vfs) (padded ''/a'') = Some (new_metadata (\<lambda>_. 7) (6, 6, 6) 0, [])"
  by (simp_all add: sample_mount_at sample_file_fs_facts valid_name_def)

lemma sample_opened: "opened sample_mount sample_handle (new_metadata (\<lambda>_. 7) (6, 6, 6) 0) []"
  by (simp add: opened_def sample_handle_def FileHandle_new_def fh_key_def sample_mount_at(1) sample_mount_file
      del: One_nat_def)

lemma sample_handle_fields [simp]: "file_pos sample_handle = 0" "fh_key sample_handle = (0, 1)"
    "fh_file_name sample_handle = ''/a''" "fh_flags sample_handle = flags_bitor FlagRead FlagWrite"
  by (simp_all add: sample_handle_def FileHandle_new_def fh_key_def)

text \<open>
  A round trip through a handle: bytes written at the handle's position are read back
  after seeking to it, and no other mounted filesystem changes.
\<close>

lemma handle_write_seek_read:
  assumes "opened fss h md bytes" and "is_set FlagRead (fh_flags h)" and "is_set FlagWrite (fh_flags h)"
    and "file_pos h + length buf \<le> usize_max"
    and "\<And>fs. fss (fh_key h) = Some fs \<Longrightarrow>
      fits (phys_fs fs) (fh_file_name h) (length (written bytes (file_pos h) buf))"
    and "length buf' = length buf"
  shows "\<exists>h' fss' h''. handle_write clk buf (h, fss) = (Ok (length buf), (h', fss')) \<and>
    handle_seek (file_pos h) h' = (Ok (file_pos h), h'') \<and>
    fst (handle_read fss' buf' h'') = Ok (length buf, buf) \<and>
    (\<forall>key. key \<noteq> fh_key h \<longrightarrow> fss' key = fss key)"
proof -
  obtain fss' md' where run: "handle_write clk buf (h, fss) =
      (Ok (length buf), (h\<lparr>file_pos := file_pos h + length buf\<rparr>, fss'))"
    and read: "handle_read fss' buf' h = (Ok (length buf, buf), h\<lparr>file_pos := file_pos h + length buf\<rparr>)"
    and frame: "\<forall>key. key \<noteq> fh_key h \<longrightarrow> fss' key = fss key"
    using handle_write_read [OF assms(1-4,6,5), where clk = clk] by blast
  moreover have "handle_seek (file_pos h) (h\<lparr>file_pos := file_pos h + length buf\<rparr>) = (Ok (file_pos h), h)"
    by (simp add: handle_seek_def run_simps)
  ultimately show ?thesis by (metis fst_conv)
qed

lemma handle_write_seek_read_example:
  "\<exists>h' fss' h''. handle_write (\<lambda>_. 9) [1, 2, 3] (sample_handle, sample_mount) = (Ok 3, (h', fss')) \<and>
    handle_seek 0 h' = (Ok 0, h'') \<and> fst (handle_read fss' [0, 0, 0] h'') = Ok (3, [1, 2, 3])"
proof -
  have "fits sample_file_fs ''/a'' 3"
    using sample_file_fs_facts(3) by (simp add: fits_def blocks_needed_def)
  then have "fits (phys_fs fs) (fh_file_name sample_handle)
      (length (written [] (file_pos sample_handle) [1 :: u8, 2, 3]))"
    if "sample_mount (fh_key sample_handle) = Some fs" for fs
    using that by (simp add: sample_mount_at length_written numeral_3_eq_3 del: One_nat_def)
  from handle_write_seek_read [OF sample_opened _ _ _ this, of "[0, 0, 0]" "\<lambda>_. 9"]
  show ?thesis by (simp add: numeral_3_eq_3) blast
qed

text \<open>
  Sequential reads: a read returns the bytes at the handle's position, at most as many
  as the buffer and the rest of the file hold, leaves the rest of the buffer, and advances
  the handle by what it returned; at the end of the file it returns 0.
\<close>

lemma handle_read_advances:
  assumes "opened fss h md bytes" and "is_set FlagRead (fh_flags h)" and "file_pos h \<le> length bytes"
  shows "\<exists>n. handle_read fss buf h =
      (Ok (n, take n (drop (file_pos h) bytes) @ drop n buf), h\<lparr>file_pos := file_pos h + n\<rparr>) \<and>
    n = min (length buf) (length bytes - file_pos h)"
  using handle_read_opened [OF assms] by (simp add: Let_def)

lemma handle_read_advances_example:
  "handle_read sample_mount [5, 5] sample_handle = (Ok (0, [5, 5]), sample_handle)"
  using handle_read_advances [OF sample_opened, of "[5, 5]"] by simp

text \<open>
  Seeking is not bounded by the file: a read behind the end of the file subtracts below
  zero and panics.
\<close>

lemma handle_read_behind_end_panics:
  assumes "opened fss h md bytes" and "is_set FlagRead (fh_flags h)" and "length bytes < pos"
  shows "\<exists>h'. handle_seek pos h = (Ok pos, h') \<and> handle_read fss buf h' = (Panic, h')"
proof -
  have "opened fss (h\<lparr>file_pos := pos\<rparr>) md bytes"
    using assms(1) by (simp add: opened_def fh_key_def)
  then have "handle_read fss buf (h\<lparr>file_pos := pos\<rparr>) = (Panic, h\<lparr>file_pos := pos\<rparr>)"
    by (rule handle_read_past_end) (simp_all add: assms)
  then show ?thesis by (simp add: handle_seek_def run_simps)
qed

lemma handle_read_behind_end_panics_example:
  "\<exists>h'. handle_seek 1 sample_handle = (Ok 1, h') \<and> handle_read sample_mount [0] h' = (Panic, h')"
  using handle_read_behind_end_panics [OF sample_opened, of 1 "[0]"] by simp

text \<open>
  C22. Deleting a file removes it from the store, keeps every other file and the invariant,
  gives back the blocks of its metadata and contents, and shortens the inode table.
\<close>

theorem vfs_delete_removes:
  assumes "fss key = Some fs" and "direct_fs (phys_fs fs)" and "valid_name name"
    and "files (phys_fs fs) (padded name) = Some (md, bytes)"
  shows "\<exists>p. vfs_delete key name fss = (Ok (), fss(key \<mapsto> fs\<lparr>phys_fs := p\<rparr>)) \<and> direct_fs p \<and>
    files p = (files (phys_fs fs))(padded name := None) \<and>
    card (free_blocks (phys_fs fs)) + Suc (length bytes div 512) \<le> card (free_blocks p) \<and>
    length (inode_table p) < length (inode_table (phys_fs fs))"
proof -
  obtain p where "phys_delete name (phys_fs fs) = (Ok (), p)" and "direct_fs p"
    and "files p = (files (phys_fs fs))(padded name := None)"
    and "length (inode_table p) < length (inode_table (phys_fs fs))"
    and "card (free_blocks (phys_fs fs)) + Suc (length bytes div 512) \<le> card (free_blocks p)"
    using phys_delete_refines [OF assms(2-4)] by blast
  then show ?thesis using assms(1) by (intro exI [of _ p]) (simp add: vfs_delete_def on_phys_ok)
qed

theorem vfs_delete_removes_witness:
  "\<exists>p. vfs_delete (0, 1) ''/a'' sample_mount = (Ok (), sample_mount((0, 1) \<mapsto> sample_vfs\<lparr>phys_fs := p\<rparr>)) \<and>
    files p (padded ''/a'') = None"
  using vfs_delete_removes [where fss = sample_mount and key = "(0, 1)", OF sample_mount_at(1) sample_mount_file] by fastforce

text \<open>
  \<open>chmod\<close> changes the permissions of one file and nothing else: \<open>get_perms\<close> returns the
  three bytes given, \<open>get_owner\<close> the owner as before, and the contents are as before.
\<close>

lemma chmod_get_perms:
  assumes "fss key = Some fs" and "direct_fs (phys_fs fs)" and "valid_name name"
    and "files (phys_fs fs) (padded name) = Some (md, bytes)"
  shows "\<exists>fss' p. vfs_chmod key name (u, g, w) fss = (Ok (), fss') \<and>
    vfs_get_perms fss' key name = Ok [u, g, w] \<and> vfs_get_owner fss' key name = Ok (md_owner md) \<and>
    fss' = fss(key \<mapsto> fs\<lparr>phys_fs := p\<rparr>) \<and> direct_fs p \<and>
    files p = (files (phys_fs fs))(padded name \<mapsto> (md\<lparr>permissions := perms_bits (u, g, w)\<rparr>, bytes))"
proof -
  let ?f = "\<lambda>md. md\<lparr>permissions := perms_bits (u, g, w)\<rparr>"
  obtain p where run: "change_metadata ?f name (phys_fs fs) = (Ok (), p)" and p: "direct_fs p"
    and upd: "files p = (files (phys_fs fs))(padded name \<mapsto> (?f md, bytes))"
    using change_metadata_refines [OF assms(2-4)] by blast
  have "get_metadata p name = Ok (?f md)"
    by (rule get_metadata_files [OF p assms(3), of _ bytes]) (simp add: upd)
  then show ?thesis
    using run p upd assms(1)
    by (intro exI [of _ "fss(key \<mapsto> fs\<lparr>phys_fs := p\<rparr>)"] exI [of _ p])
      (simp add: vfs_chmod_def on_phys_ok vfs_get_perms_def vfs_get_owner_def get_fs_def
        perms_bits_bytes del: perms_bits.simps)
qed

lemma chmod_get_perms_example:
  "\<exists>fss'. vfs_chmod (0, 1) ''/a'' (7, 5, 0) sample_mount = (Ok (), fss') \<and>
    vfs_get_perms fss' (0, 1) ''/a'' = Ok [7, 5, 0] \<and>
    vfs_get_owner fss' (0, 1) ''/a'' = Ok (md_owner (new_metadata (\<lambda>_. 7) (6, 6, 6) 0))"
  using chmod_get_perms [where fss = sample_mount and key = "(0, 1)" and u = 7 and g = 5 and w = 0,
      OF sample_mount_at(1) sample_mount_file] by blast

end
