(* ===== verification/Loader_Virt.thy ===== *)
theory Loader_Virt
  imports Loader Virt_Facts
begin

text \<open>
  The virtual layer of the loader (\<open>fs-loader/src/fs.rs\<close>), its own copy of the kernel's layer in
  \<open>Virt_Fs\<close>. It differs in its errors: \<open>unwrap\<close> panics where the kernel returns an error, the
  errors that are left carry nothing, and \<open>read\<close> copies to the whole buffer. The lemmas compare
  the two layers operation by operation.
\<close>

section \<open>Lookup\<close>

text \<open>\<open>file_systems.get(&key).unwrap()\<close>, and a call on the filesystem whose result is unwrapped.\<close>

definition loader_fs :: "filesystems \<Rightarrow> fs_key \<Rightarrow> (unit, VirtFs) outcome" where
  "loader_fs fss key = (case fss key of None \<Rightarrow> Panic | Some fs \<Rightarrow> Ok fs)"

definition loader_on_phys :: "fs_key \<Rightarrow> (PhysFs, FsError, 'a) prog \<Rightarrow> (filesystems, unit, 'a) prog" where
  "loader_on_phys key m fss = (case fss key of
      None \<Rightarrow> (Panic, fss)
    | Some fs \<Rightarrow> (case m (phys_fs fs) of (r, p) \<Rightarrow> (expect r, fss(key \<mapsto> fs\<lparr>phys_fs := p\<rparr>))))"

section \<open>File handles\<close>

fun loader_likely_fs :: "filesystems \<Rightarrow> string \<Rightarrow> u8 \<Rightarrow> fs_key list \<Rightarrow> (unit, FileHandle) outcome" where
  "loader_likely_fs fss name flags [] = Err ()"
| "loader_likely_fs fss name flags (key # keys) = (case fss key of
      None \<Rightarrow> loader_likely_fs fss name flags keys
    | Some fs \<Rightarrow> (case find_inode_by_name (phys_fs fs) name of
        Ok _ \<Rightarrow> Ok (FileHandle_new name (fst key) (snd key) flags)
      | Err _ \<Rightarrow> loader_likely_fs fss name flags keys
      | Panic \<Rightarrow> Panic))"

definition loader_new_with_likely_fs :: "(filesystems \<Rightarrow> fs_key list) \<Rightarrow> filesystems \<Rightarrow> string \<Rightarrow> u8
    \<Rightarrow> (unit, FileHandle) outcome" where
  "loader_new_with_likely_fs iter fss name flags = loader_likely_fs fss name flags (iter fss)"

text \<open>\<open>buf.copy_from_slice(..)\<close> panics unless the bytes fill the buffer.\<close>

definition loader_handle_read :: "filesystems \<Rightarrow> u8 list \<Rightarrow> (FileHandle, unit, nat \<times> u8 list) prog" where
  "loader_handle_read fss buf h =
     bind (reads (\<lambda>h. loader_fs fss (fh_key h))) (\<lambda>fs.
     if \<not> is_set FlagRead (fh_flags h) then throw ()
     else
       bind (reads (\<lambda>h. expect (loader_read_file (phys_fs fs) (fh_file_name h)))) (\<lambda>(bytes, _).
       bind (reads (\<lambda>h. usize_sub (length bytes) (file_pos h))) (\<lambda>rest.
       let len = min (length buf) rest in
       bind (reads (\<lambda>h. slice bytes (file_pos h) (file_pos h + len))) (\<lambda>part.
       bind (reads (\<lambda>_. copy_from_slice buf 0 (length buf) part)) (\<lambda>buf'.
       bind (modify (\<lambda>h. h\<lparr>file_pos := file_pos h + len\<rparr>)) (\<lambda>_.
       ret (len, buf'))))))) h"

definition loader_overlay :: "u8 list \<Rightarrow> nat \<Rightarrow> u8 list \<Rightarrow> (unit, u8 list) outcome" where
  "loader_overlay bytes pos buf =
     (let bytes = (if pos > length bytes then resize bytes pos 0 else bytes) in
      obind (usize_add pos (length buf)) (\<lambda>fin.
      let bytes = (if fin > length bytes then resize bytes fin 0 else bytes) in
      copy_from_slice bytes pos fin buf))"

definition loader_handle_write :: "u8 list \<Rightarrow> (FileHandle \<times> filesystems, unit, nat) prog" where
  "loader_handle_write buf = (\<lambda>(h, fss).
     case loader_fs fss (fh_key h) of
       Err e \<Rightarrow> (Err e, (h, fss))
     | Panic \<Rightarrow> (Panic, (h, fss))
     | Ok fs \<Rightarrow>
       if \<not> is_set FlagWrite (fh_flags h) then (Err (), (h, fss))
       else (case obind (expect (loader_read_file (phys_fs fs) (fh_file_name h))) (\<lambda>(bytes, _).
               loader_overlay bytes (file_pos h) buf) of
         Err e \<Rightarrow> (Err e, (h, fss))
       | Panic \<Rightarrow> (Panic, (h, fss))
       | Ok bytes \<Rightarrow> (case loader_on_phys (fh_key h) (loader_write_file (fh_file_name h) bytes None None) fss of
           (Ok _, fss') \<Rightarrow> (Ok (length buf), (h\<lparr>file_pos := file_pos h + length buf\<rparr>, fss'))
         | (Err e, fss') \<Rightarrow> (Err e, (h, fss'))
         | (Panic, fss') \<Rightarrow> (Panic, (h, fss')))))"

definition loader_handle_close :: "FileHandle \<Rightarrow> (filesystems, unit, unit) prog" where
  "loader_handle_close h =
     bind (reads (\<lambda>fss. loader_fs fss (fh_key h))) (\<lambda>fs.
     modify (\<lambda>fss. fss(fh_key h \<mapsto>
       fs\<lparr>open_files := filter (\<lambda>f. fh_file_name f \<noteq> fh_file_name h) (open_files fs)\<rparr>)))"

definition loader_handle_flush :: "filesystems \<Rightarrow> FileHandle \<Rightarrow> (image, unit, unit) prog" where
  "loader_handle_flush fss h =
     bind (reads (\<lambda>_. loader_fs fss (fh_key h))) (\<lambda>fs. expect_prog (loader_write_to_disk (phys_fs fs)))"

fun loader_handle_poll :: "FileHandle \<Rightarrow> IOEvent \<Rightarrow> bool" where
  "loader_handle_poll h EventRead = (\<not> is_set FlagRead (fh_flags h))"
| "loader_handle_poll h EventWrite = (\<not> is_set FlagWrite (fh_flags h))"

definition loader_handle_seek :: "nat \<Rightarrow> (FileHandle, unit, nat) prog" where
  "loader_handle_seek pos = bind (modify (\<lambda>h. h\<lparr>file_pos := pos\<rparr>)) (\<lambda>_. ret pos)"

section \<open>Operations of a filesystem\<close>

definition loader_open :: "fs_key \<Rightarrow> string \<Rightarrow> u8 \<Rightarrow> (filesystems, unit, FileHandle) prog" where
  "loader_open key path flags =
     bind (reads (\<lambda>fss. loader_fs fss key)) (\<lambda>fs.
     bind (case loader_read_file (phys_fs fs) path of
             Ok _ \<Rightarrow> ret ()
           | Err _ \<Rightarrow> if is_set FlagCreate flags then loader_on_phys key (loader_create_file path (6, 6, 6) 0)
                      else throw ()
           | Panic \<Rightarrow> panic) (\<lambda>_.
     let handle = FileHandle_new path (fst key) (snd key) flags in
     if is_set FlagAppend flags then
       bind (loader_on_phys key (reads (\<lambda>p. loader_read_file p path))) (\<lambda>(bytes, _).
       ret (handle\<lparr>file_pos := length bytes\<rparr>))
     else ret handle))"

definition loader_delete :: "fs_key \<Rightarrow> string \<Rightarrow> (filesystems, unit, unit) prog" where
  "loader_delete key path = loader_on_phys key (phys_delete path)"

definition loader_exists :: "filesystems \<Rightarrow> fs_key \<Rightarrow> string \<Rightarrow> (unit, bool) outcome" where
  "loader_exists fss key path =
     obind (loader_fs fss key) (\<lambda>fs. case find_inode_by_name (phys_fs fs) path of
        Ok _ \<Rightarrow> Ok True | Err _ \<Rightarrow> Ok False | Panic \<Rightarrow> Panic)"

definition loader_chmod :: "fs_key \<Rightarrow> string \<Rightarrow> perms \<Rightarrow> (filesystems, unit, unit) prog" where
  "loader_chmod key path perms =
     loader_on_phys key (change_metadata (\<lambda>md. md\<lparr>permissions := perms_bits perms\<rparr>) path)"

text \<open>\<open>chown\<close> is the one operation that still returns an error for a missing filesystem.\<close>

definition loader_chown :: "fs_key \<Rightarrow> string \<Rightarrow> u64 \<Rightarrow> (filesystems, unit, unit) prog" where
  "loader_chown key path own =
     bind (reads (\<lambda>fss. ok_or () (fss key))) (\<lambda>_.
     loader_on_phys key (change_metadata (\<lambda>md. md\<lparr>md_owner := own\<rparr>) path))"

section \<open>Mounting\<close>

definition loader_VirtFs_new :: "nat \<Rightarrow> nat \<Rightarrow> u64 \<Rightarrow> (filesystems, unit, unit) prog" where
  "loader_VirtFs_new bus dsk bytes =
     bind (reads (\<lambda>_. blank_VirtFs bus dsk bytes)) (\<lambda>fs.
     modify (\<lambda>fss. fss((bus, dsk) \<mapsto> fs)))"

definition loader_add_fs :: "nat \<Rightarrow> nat \<Rightarrow> u32 option \<Rightarrow> (filesystems, unit, unit) prog" where
  "loader_add_fs bus dsk size_of_new =
     bind (reads (\<lambda>fss. if fss (bus, dsk) \<noteq> None then Err () else Ok ())) (\<lambda>_.
     case size_of_new of
       None \<Rightarrow> throw ()
     | Some n \<Rightarrow>
         bind (reads (\<lambda>_. blank_VirtFs bus dsk (ucast n))) (\<lambda>fs.
         modify (\<lambda>fss. fss((bus, dsk) \<mapsto> fs))))"

definition loader_from_disk :: "nat \<Rightarrow> nat \<Rightarrow> (filesystems \<times> image, FsError, unit) prog" where
  "loader_from_disk bus dsk = (\<lambda>(fss, img).
     case loader_read_from_disk img of
       (Ok p, img') \<Rightarrow> (Ok (), (fss((bus, dsk) \<mapsto>
           \<lparr>phys_fs = p, vf_bus = bus, vf_dsk = dsk, open_files = []\<rparr>), img'))
     | (Err e, img') \<Rightarrow> (Err e, (fss, img'))
     | (Panic, img') \<Rightarrow> (Panic, (fss, img')))"

definition loader_get_fs_mut :: "filesystems \<Rightarrow> nat \<Rightarrow> nat \<Rightarrow> (unit, VirtFs) outcome" where
  "loader_get_fs_mut fss bus dsk = ok_or () (fss (bus, dsk))"

definition loader_get_first_good_fs :: "(filesystems \<Rightarrow> fs_key list) \<Rightarrow> filesystems \<Rightarrow> (unit, fs_key) outcome" where
  "loader_get_first_good_fs iter fss = (case iter fss of key # _ \<Rightarrow> Ok key | [] \<Rightarrow> Err ())"

section \<open>The two layers compared\<close>

text \<open>
  A result of the loader \<open>matches\<close> one of the kernel: they succeed with the same value in the
  same cases, an error of the loader is an error of the kernel, and a panic of the kernel is a
  panic of the loader. Two computations match if their results do and the states after success agree.
\<close>

definition matches :: "('e, 'a) outcome \<Rightarrow> (unit, 'a) outcome \<Rightarrow> bool" where
  "matches k l \<longleftrightarrow> (\<forall>x. l = Ok x \<longleftrightarrow> k = Ok x) \<and> (is_err l \<longrightarrow> is_err k) \<and> (k = Panic \<longrightarrow> l = Panic)"

definition prog_matches :: "('e, 'a) outcome \<times> 's \<Rightarrow> (unit, 'a) outcome \<times> 's \<Rightarrow> bool" where
  "prog_matches k l \<longleftrightarrow> matches (fst k) (fst l) \<and> (is_ok (fst k) \<longrightarrow> snd k = snd l)"

lemma matches_Ok [simp]: "matches (Ok x) l \<longleftrightarrow> l = Ok x"
  by (cases l) (auto simp: matches_def)

lemma matches_Err [simp]: "matches (Err e) l \<longleftrightarrow> \<not> is_ok l"
  by (cases l) (auto simp: matches_def)

lemma matches_Panic [simp]: "matches Panic l \<longleftrightarrow> l = Panic"
  by (cases l) (auto simp: matches_def)

lemma matches_expect: "matches (map_err g r) (expect r)"
  by (cases r) simp_all

lemma matches_obind: "matches k l \<Longrightarrow> (\<And>x. k = Ok x \<Longrightarrow> matches (f x) (g x)) \<Longrightarrow> matches (obind k f) (obind l g)"
  by (cases k; cases l) auto

lemma prog_matches_bind:
  assumes "prog_matches (m s) (n s)" and "\<And>x s'. m s = (Ok x, s') \<Longrightarrow> prog_matches (f x s') (g x s')"
  shows "prog_matches (bind m f s) (bind n g s)"
  using assms unfolding bind_def
  by (cases "m s"; cases "n s"; cases "fst (m s)"; cases "fst (n s)") (auto simp: prog_matches_def)

lemma prog_matches_reads: "matches (f s) (g s) \<Longrightarrow> prog_matches (reads f s) (reads g s)"
  by (simp add: prog_matches_def reads_def)

lemma prog_matches_same [simp]: "prog_matches (ret x s) (ret x s)" "prog_matches (modify h s) (modify h s)"
    "prog_matches (throw e s) (throw () s)" "prog_matches (panic s) (panic s)"
  by (simp_all add: prog_matches_def prog_defs)

lemma matches_loader_fs: "matches (get_fs fss key) (loader_fs fss key)"
  by (simp add: get_fs_def loader_fs_def split: option.split)

lemma on_phys_matches: "prog_matches (on_phys key m fss) (loader_on_phys key m fss)"
  by (auto simp: prog_matches_def on_phys_def loader_on_phys_def matches_expect split: option.split prod.split)

lemma overlay_matches: "matches (overlay bytes pos buf) (loader_overlay bytes pos buf)"
  by (auto simp: overlay_def loader_overlay_def usize_add_def copy_from_slice_def Let_def)

lemma handle_write_matches:
  "prog_matches (handle_write (\<lambda>_. 0) buf (h, fss)) (loader_handle_write buf (h, fss))"
proof (cases "fss (fh_key h)")
  case None
  then show ?thesis by (simp add: prog_matches_def handle_write_def loader_handle_write_def get_fs_def loader_fs_def)
next
  case (Some fs)
  let ?k = "obind (map_err FileError_from (read_file (phys_fs fs) (fh_file_name h))) (\<lambda>(bytes, _). overlay bytes (file_pos h) buf)"
  let ?l = "obind (expect (read_file (phys_fs fs) (fh_file_name h))) (\<lambda>(bytes, _). loader_overlay bytes (file_pos h) buf)"
  have "matches ?k ?l" by (rule matches_obind [OF matches_expect]) (auto simp: overlay_matches)
  then consider (ok) bytes where "?k = Ok bytes" "?l = Ok bytes" | (err) e where "?k = Err e" "\<not> is_ok ?l"
    | (stop) "?k = Panic" "?l = Panic"
    by (cases ?k) auto
  then show ?thesis
  proof cases
    case ok
    show ?thesis
      using ok Some on_phys_matches [of "fh_key h" "write_file (\<lambda>_. 0) (fh_file_name h) bytes None None" fss]
      by (cases "on_phys (fh_key h) (write_file (\<lambda>_. 0) (fh_file_name h) bytes None None) fss";
          cases "loader_on_phys (fh_key h) (write_file (\<lambda>_. 0) (fh_file_name h) bytes None None) fss")
        (auto simp: prog_matches_def handle_write_def loader_handle_write_def get_fs_def loader_fs_def loader_read_file_def
          loader_write_file_def split: outcome.splits)
  next
    case err
    then show ?thesis using Some
      by (cases ?l) (auto simp: prog_matches_def handle_write_def loader_handle_write_def get_fs_def loader_fs_def loader_read_file_def)
  next
    case stop
    then show ?thesis using Some
      by (auto simp: prog_matches_def handle_write_def loader_handle_write_def get_fs_def loader_fs_def loader_read_file_def)
  qed
qed

lemma handle_close_matches: "prog_matches (handle_close h fss) (loader_handle_close h fss)"
  unfolding handle_close_def loader_handle_close_def
  by (intro prog_matches_bind prog_matches_reads matches_loader_fs) simp

lemma vfs_open_matches: "prog_matches (vfs_open (\<lambda>_. 0) key path flags fss) (loader_open key path flags fss)"
  unfolding vfs_open_def loader_open_def loader_read_file_def loader_create_file_def Let_def
  by (intro prog_matches_bind prog_matches_reads matches_loader_fs)
    (auto simp: on_phys_matches split: outcome.split intro!: prog_matches_bind)

lemma vfs_delete_matches: "prog_matches (vfs_delete key path fss) (loader_delete key path fss)"
  and vfs_chmod_matches: "prog_matches (vfs_chmod key path perms fss) (loader_chmod key path perms fss)"
  by (simp_all add: vfs_delete_def loader_delete_def vfs_chmod_def loader_chmod_def on_phys_matches)

lemma vfs_chown_matches: "prog_matches (vfs_chown key path own fss) (loader_chown key path own fss)"
proof (cases "fss key")
  case None
  then show ?thesis by (simp add: prog_matches_def vfs_chown_def loader_chown_def on_phys_def run_simps)
next
  case (Some fs)
  then have "loader_chown key path own fss = loader_on_phys key (change_metadata (\<lambda>md. md\<lparr>md_owner := own\<rparr>) path) fss"
    by (simp add: loader_chown_def bind_reads)
  then show ?thesis by (simp add: vfs_chown_def on_phys_matches)
qed

lemma vfs_exists_matches: "matches (vfs_exists fss key path) (loader_exists fss key path)"
  by (auto simp: vfs_exists_def loader_exists_def loader_fs_def split: option.split outcome.split)

lemma likely_fs_matches: "matches (new_with_likely_fs iter fss name flags) (loader_new_with_likely_fs iter fss name flags)"
proof -
  have "matches (likely_fs fss name flags keys) (loader_likely_fs fss name flags keys)" for keys
    by (induction keys) (auto split: option.split outcome.split)
  then show ?thesis by (simp add: new_with_likely_fs_def loader_new_with_likely_fs_def)
qed

lemma add_fs_matches: "prog_matches (add_fs bus dsk n fss) (loader_add_fs bus dsk n fss)"
  unfolding add_fs_def loader_add_fs_def
  by (intro prog_matches_bind prog_matches_reads)
    (auto split: option.split intro!: prog_matches_bind prog_matches_reads simp: blank_VirtFs_def usize_sub_def)

text \<open>Flushing: the sector numbers agree as long as the inode table has fewer than \<open>2 ^ 32\<close> sectors.\<close>

lemma for_each_cong: "(\<And>x. x \<in> set xs \<Longrightarrow> f x = g x) \<Longrightarrow> for_each f xs = for_each g xs"
proof (rule ext)
  fix s assume "\<And>x. x \<in> set xs \<Longrightarrow> f x = g x"
  then show "for_each f xs s = for_each g xs s" by (induction xs arbitrary: s) (simp_all add: bind_def split: prod.split outcome.split)
qed

lemma loader_write_to_disk_same:
  assumes "unat (inode_table_size (superblock fs)) < 2 ^ 32"
  shows "loader_write_to_disk fs = write_to_disk loader_write_sector fs"
proof -
  have "for_each (write_inode (\<lambda>i. Ok (word_of_nat (1 + i))) loader_write_sector fs) [0..<unat (inode_table_size (superblock fs))] =
      for_each (write_inode inode_sector loader_write_sector fs) [0..<unat (inode_table_size (superblock fs))]"
    using assms by (intro for_each_cong) (simp add: write_inode_def inode_sector_ok)
  then show ?thesis by (simp add: loader_write_to_disk_def write_to_disk_def write_sectors_def)
qed

lemma handle_flush_matches:
  assumes "\<And>fs. fss (fh_key h) = Some fs \<Longrightarrow> unat (inode_table_size (superblock (phys_fs fs))) < 2 ^ 32"
  shows "prog_matches (handle_flush (\<lambda>_ _. loader_write_sector) fss h img) (loader_handle_flush fss h img)"
proof (cases "fss (fh_key h)")
  case None
  then show ?thesis by (simp add: prog_matches_def handle_flush_def loader_handle_flush_def get_fs_def loader_fs_def run_simps)
next
  case (Some fs)
  then show ?thesis
    using loader_write_to_disk_same [OF assms [OF Some]] matches_expect
    by (auto simp: prog_matches_def handle_flush_def loader_handle_flush_def get_fs_def loader_fs_def run_simps
        split: prod.split)
qed

text \<open>
  Reading: where the kernel reads fewer bytes than the buffer has room for, the loader panics; else it
  returns what the kernel returns. Where the kernel fails or panics, so does the loader.
\<close>

lemma loader_short_read_panics:
  assumes "handle_read fss buf h = (Ok (n, bs), h')"
  shows "loader_handle_read fss buf h = (if n = length buf then (Ok (n, bs), h') else (Panic, h))"
  using assms
  by (auto simp: handle_read_def loader_handle_read_def loader_read_file_def get_fs_def loader_fs_def run_simps Let_def
      usize_sub_def slice_def copy_from_slice_def split: option.splits if_splits outcome.splits prod.splits)

lemma loader_read_fails: "\<not> is_ok (fst (handle_read fss buf h)) \<Longrightarrow> \<not> is_ok (fst (loader_handle_read fss buf h))"
  by (auto simp: handle_read_def loader_handle_read_def loader_read_file_def get_fs_def loader_fs_def run_simps Let_def
      usize_sub_def slice_def copy_from_slice_def split: option.splits if_splits outcome.splits prod.splits)

section \<open>Properties\<close>

text \<open>
  C29. The files of the loader's layer against those of the kernel's. Finding a file, opening or creating it, writing, closing and
  flushing succeed in the same cases, with the same result and the same filesystems afterwards; where the kernel fails, the loader fails or
  panics, and where the kernel panics, the loader panics. Reading differs: the loader returns what the kernel returns when the bytes fill the buffer, and panics
  where the kernel reads fewer; where the kernel fails, it does not succeed either.
\<close>

theorem loader_layer_agrees:
  assumes "\<And>fs. fss (fh_key h) = Some fs \<Longrightarrow> unat (inode_table_size (superblock (phys_fs fs))) < 2 ^ 32"
  shows "matches (new_with_likely_fs iter fss path flags) (loader_new_with_likely_fs iter fss path flags) \<and>
    prog_matches (vfs_open (\<lambda>_. 0) key path flags fss) (loader_open key path flags fss) \<and>
    prog_matches (handle_write (\<lambda>_. 0) buf (h, fss)) (loader_handle_write buf (h, fss)) \<and>
    prog_matches (handle_close h fss) (loader_handle_close h fss) \<and>
    prog_matches (handle_flush (\<lambda>_ _. loader_write_sector) fss h img) (loader_handle_flush fss h img) \<and>
    (case handle_read fss buf h of
       (Ok (n, bs), h') \<Rightarrow> loader_handle_read fss buf h = (if n = length buf then (Ok (n, bs), h') else (Panic, h))
     | _ \<Rightarrow> \<not> is_ok (fst (loader_handle_read fss buf h)))"
proof -
  have "case handle_read fss buf h of
       (Ok (n, bs), h') \<Rightarrow> loader_handle_read fss buf h = (if n = length buf then (Ok (n, bs), h') else (Panic, h))
     | _ \<Rightarrow> \<not> is_ok (fst (loader_handle_read fss buf h))"
    using loader_short_read_panics [of fss buf h] loader_read_fails [of fss buf h]
    by (auto split: prod.split outcome.split)
  then show ?thesis using handle_flush_matches [OF assms]
    by (simp add: handle_write_matches handle_close_matches vfs_open_matches likely_fs_matches)
qed

theorem loader_layer_agrees_witness:
  "prog_matches (handle_write (\<lambda>_. 0) [1, 2] (sample_handle, sample_mount)) (loader_handle_write [1, 2] (sample_handle, sample_mount)) \<and>
    loader_handle_read sample_mount [1, 2] sample_handle = (Panic, sample_handle)"
proof -
  have fits: "unat (inode_table_size (superblock (phys_fs fs))) < 2 ^ 32" if "sample_mount (fh_key sample_handle) = Some fs" for fs
    using that by (simp add: sample_mount_at sample_file_fs_facts del: One_nat_def) (simp add: sample_fs_def)
  obtain bs h' where "handle_read sample_mount [1, 2] sample_handle = (Ok (0, bs), h')"
    using handle_read_opened [OF sample_opened, of "[1, 2]"] by (auto simp: Let_def)
  then show ?thesis using loader_layer_agrees [where fss = sample_mount and h = sample_handle and buf = "[1, 2]", OF fits] by simp
qed

lemma loader_short_read_panics_example:
  "loader_handle_read sample_mount [5, 5] sample_handle = (Panic, sample_handle)"
  using loader_short_read_panics [OF handle_read_advances_example] by simp

end
