(* ===== verification/Fs_Indirect.thy ===== *)
theory Fs_Indirect
  imports Fs_Write
begin

text \<open>
  The indirect pointers of an inode. \<open>get_block\<close>, which walks the pointers for one block
  number, agrees with \<open>get_all_block_addresses\<close>, which lists those that are not null, for every block
  number up to the end of the range \<open>get_block\<close> gives to the double indirect pointer, as long as the file has no holes. The
  last part shows what \<open>write_file\<close> does when a file first needs the single indirect
  pointer.
\<close>

section \<open>Walking and listing the pointers\<close>

text \<open>A list of pointers without null pointers up to position \<open>n\<close>.\<close>

lemma nth_nonzero:
  assumes "\<forall>m \<le> n. ps ! m \<noteq> 0" and "n < length ps"
  shows "n < length (nonzero ps)" and "nonzero ps ! n = ps ! n"
proof -
  have "\<forall>p \<in> set (take (Suc n) ps). p \<noteq> 0" using assms by (auto simp: in_set_conv_nth less_Suc_eq_le)
  then have eq: "nonzero ps = take (Suc n) ps @ nonzero (drop (Suc n) ps)"
    using filter_append [of "\<lambda>p. p \<noteq> 0" "take (Suc n) ps" "drop (Suc n) ps"] by (simp add: nonzero_def)
  then show "n < length (nonzero ps)" "nonzero ps ! n = ps ! n" using assms(2) by (simp_all add: nth_append)
qed

lemma nonzero_all: "\<forall>m < length ps. ps ! m \<noteq> 0 \<Longrightarrow> nonzero ps = ps"
  by (auto simp: nonzero_def filter_id_conv in_set_conv_nth)

lemma nth_concat_prefix:
  "\<forall>b < a. length (xss ! b) = m \<Longrightarrow> a < length xss \<Longrightarrow> r < length (xss ! a) \<Longrightarrow>
    m * a + r < length (concat xss) \<and> concat xss ! (m * a + r) = xss ! a ! r"
proof (induction xss arbitrary: a)
  case (Cons xs xss)
  show ?case
  proof (cases a)
    case 0
    then show ?thesis using Cons.prems by (simp add: nth_append)
  next
    case (Suc c)
    have "length xs = m" using Cons.prems(1) Suc by auto
    moreover have "\<forall>b < c. length (xss ! b) = m" using Cons.prems(1) Suc by auto
    with Cons.IH [of c] Cons.prems Suc have "m * c + r < length (concat xss) \<and> concat xss ! (m * c + r) = xss ! c ! r" by simp
    ultimately show ?thesis using Suc by (simp add: nth_append)
  qed
qed simp

text \<open>The addresses that a pointer to an indirect block leads to, when all of them are in range.\<close>

definition behind :: "PhysFs \<Rightarrow> u64 \<Rightarrow> u64 list" where
  "behind fs p = (if p = 0 then [] else nonzero (pointers_of (data_blocks fs ! unat p)))"

lemma single_addresses_OkD:
  "single_addresses fs p = Ok zs \<Longrightarrow> zs = behind fs p \<and> (p \<noteq> 0 \<longrightarrow> unat p < length (data_blocks fs))"
  by (auto simp: single_addresses_def behind_def index_def split: if_splits)

lemma concat_map_o_OkD: "concat_map_o f xs = Ok ys \<Longrightarrow> (\<And>x z. f x = Ok z \<Longrightarrow> z = g x) \<Longrightarrow>
    ys = concat (map g xs) \<and> (\<forall>x \<in> set xs. f x = Ok (g x))"
  by (induction xs arbitrary: ys) auto

lemma double_addresses_OkD:
  assumes "double_addresses fs p = Ok zs" and "p \<noteq> 0"
  shows "unat p < length (data_blocks fs)" and "zs = concat (map (behind fs) (pointers_of (data_blocks fs ! unat p)))"
    and "\<And>q. q \<in> set (pointers_of (data_blocks fs ! unat p)) \<Longrightarrow> q \<noteq> 0 \<Longrightarrow> unat q < length (data_blocks fs)"
proof -
  show lt: "unat p < length (data_blocks fs)" using assms by (auto simp: double_addresses_def index_def split: if_splits)
  then have "concat_map_o (single_addresses fs) (pointers_of (data_blocks fs ! unat p)) = Ok zs"
    using assms by (simp add: double_addresses_def index_ok)
  from concat_map_o_OkD [OF this, of "behind fs"] single_addresses_OkD
  show "zs = concat (map (behind fs) (pointers_of (data_blocks fs ! unat p)))"
    and "\<And>q. q \<in> set (pointers_of (data_blocks fs ! unat p)) \<Longrightarrow> q \<noteq> 0 \<Longrightarrow> unat q < length (data_blocks fs)" by blast+
qed

lemma read_pointer_full: "unat p < length (data_blocks fs) \<Longrightarrow> k < 64 \<Longrightarrow>
    read_pointer (unat p) k fs = Ok (pointers_of (data_blocks fs ! unat p) ! k)"
  by (simp add: read_pointer_def index_ok)

text \<open>Block 0, to which null pointers lead, is never handed out and holds zeros.\<close>

definition null_block :: "PhysFs \<Rightarrow> bool" where
  "null_block fs \<longleftrightarrow> 0 < length (data_blocks fs) \<and> data_blocks fs ! 0 = zero_block"

lemma pointers_of_zero_block: "k < 64 \<Longrightarrow> pointers_of zero_block ! k = 0"
  by (simp add: pointers_of_zero)

lemma read_null_pointer: "null_block fs \<Longrightarrow> k < 64 \<Longrightarrow> read_pointer 0 k fs = Ok 0"
  using read_pointer_full [of 0 fs k] pointers_of_zero_block by (simp add: null_block_def)

lemma get_single_walk:
  assumes "null_block fs" and "single_addresses fs (single_indirect_block_pointer i) = Ok zs" and "k < 64"
    and "\<forall>m \<le> k. get_single_indirect_block fs i m \<noteq> Ok 0"
  shows "k < length zs" and "get_single_indirect_block fs i k = Ok (zs ! k)"
    and "k = 63 \<Longrightarrow> length zs = 64"
proof -
  let ?p = "single_indirect_block_pointer i"
  have p: "?p \<noteq> 0" using assms(4) read_null_pointer [OF assms(1), of 0] by (auto simp: get_single_indirect_block_def)
  note ok = single_addresses_OkD [OF assms(2)]
  have get: "get_single_indirect_block fs i m = Ok (pointers_of (data_blocks fs ! unat ?p) ! m)" if "m < 64" for m
    using that ok p read_pointer_full [of ?p fs m] by (simp add: get_single_indirect_block_def)
  then have nz: "\<forall>m \<le> k. pointers_of (data_blocks fs ! unat ?p) ! m \<noteq> 0" using assms(3,4) by (auto simp: get)
  note nth_nonzero [OF nz]
  then show "k < length zs" "get_single_indirect_block fs i k = Ok (zs ! k)" using ok p assms(3) get by (simp_all add: behind_def)
  show "length zs = 64" if "k = 63"
  proof -
    have "nonzero (pointers_of (data_blocks fs ! unat ?p)) = pointers_of (data_blocks fs ! unat ?p)"
      using nz that by (intro nonzero_all) auto
    then show ?thesis using ok p by (simp add: behind_def)
  qed
qed

lemma get_double_walk:
  assumes "null_block fs" and dbl: "double_addresses fs (double_indirect_block_pointer i) = Ok zs" and k: "k < 64 * 64"
    and nz: "\<forall>m \<le> k. get_double_indirect_block fs i m \<noteq> Ok 0"
  shows "k < length zs" and "get_double_indirect_block fs i k = Ok (zs ! k)"
proof -
  let ?p = "double_indirect_block_pointer i" and ?a = "k div 64" and ?r = "k mod 64"
  let ?qs = "pointers_of (data_blocks fs ! unat ?p)"
  let ?inode = "\<lambda>q. default_Inode\<lparr>single_indirect_block_pointer := q\<rparr>"
  have p: "?p \<noteq> 0" using nz read_null_pointer [OF assms(1), of 0]
    by (auto simp: get_double_indirect_block_def get_single_indirect_block_def)
  note ok = double_addresses_OkD [OF dbl p]
  have a: "?a < 64" "k = 64 * ?a + ?r" "?r < 64" using k by (simp_all add: less_mult_imp_div_less)
  have get: "get_double_indirect_block fs i (64 * b + c) = get_single_indirect_block fs (?inode (?qs ! b)) c" if "b < 64" "c < 64" for b c
    using that ok(1) read_pointer_full [of ?p fs b] by (simp add: get_double_indirect_block_def)
  have one: "single_addresses fs (?qs ! b) = Ok (behind fs (?qs ! b))" if "b < 64" for b
    using ok(3) [of "?qs ! b"] that by (simp add: single_addresses_def behind_def index_ok)
  have walk: "\<forall>m \<le> c. get_single_indirect_block fs (?inode (?qs ! b)) m \<noteq> Ok 0" if "64 * b + c \<le> k" "b < 64" "c < 64" for b c
    using nz that by (auto simp: get [symmetric])
  have "length (behind fs (?qs ! b)) = 64" if "b < ?a" for b
    using that a walk [of b 63] one [of b] get_single_walk(3) [OF assms(1), of "?inode (?qs ! b)" _ 63] by simp
  moreover have last: "?r < length (behind fs (?qs ! ?a))"
    "get_single_indirect_block fs (?inode (?qs ! ?a)) ?r = Ok (behind fs (?qs ! ?a) ! ?r)"
    using a walk [of ?a ?r] one [of ?a] get_single_walk(1,2) [OF assms(1), of "?inode (?qs ! ?a)" _ ?r] by simp_all
  ultimately have "64 * ?a + ?r < length zs \<and> zs ! (64 * ?a + ?r) = behind fs (?qs ! ?a) ! ?r"
    using nth_concat_prefix [of ?a "map (behind fs) ?qs" 64 ?r] a by (simp add: ok(2))
  then show "k < length zs" "get_double_indirect_block fs i k = Ok (zs ! k)"
    using last(2) get [of ?a ?r] a by simp_all
qed

section \<open>The first block behind the direct pointers\<close>

lemma find_empty_ignore_zeros:
  assumes "wf_fs fs" and "set ignore \<subseteq> {0}"
  shows "find_empty_data_block fs (Some ignore) = find_empty_data_block fs None"
proof -
  have "candidate fs (Some ignore) i = candidate fs None i" if "i \<in> set [1..<length (data_blocks fs)]" for i
  proof -
    have "unat (word_of_nat i :: u64) = i"
      using that assms(1) by (simp add: wf_fs_length unat_word_of_nat_lt [of i "num_data_blocks (superblock fs)"])
    then have "(word_of_nat i :: u64) \<noteq> 0" using that by auto
    then show ?thesis using assms(2) by (auto simp: candidate_def)
  qed
  then have "find (candidate fs (Some ignore)) [1..<length (data_blocks fs)] =
      find (candidate fs None) [1..<length (data_blocks fs)]"
    by (intro find_cong) auto
  then show ?thesis by (simp add: find_empty_data_block_find [OF assms(1)])
qed

lemma free_block_zero: "wf_fs fs \<Longrightarrow> s \<in> free_blocks fs \<Longrightarrow> data_blocks fs ! unat s = zero_block"
  by (cases "data_blocks fs ! unat s") (simp add: free_blocks_def zero_block_def)

lemma write_pointer_ok: "unat b < length (data_blocks fs) \<Longrightarrow> k < 64 \<Longrightarrow> write_pointer (unat b) k p fs =
    (Ok (), fs\<lparr>data_blocks := (data_blocks fs)[unat b := set_pointer (data_blocks fs ! unat b) k p]\<rparr>)"
  by (simp add: write_pointer_def)

lemma length_set_pointer: "length (block_data b) = 512 \<Longrightarrow> k < 64 \<Longrightarrow> length (block_data (set_pointer b k p)) = 512"
  by (simp add: set_pointer_def)

lemma length_zero_block: "length (block_data zero_block) = 512"
  by (simp add: zero_block_def)

lemma link_block_first_indirect:
  assumes wf: "wf_fs fs" and none: "single_indirect_block_pointer i = 0"
    and ptrs: "11 < length ptrs" "ptrs ! 11 \<noteq> 0"
    and s: "find_empty_data_block fs None = Ok s"
  obtains fs' where "link_block ptrs 11 i fs = (Ok (i\<lparr>single_indirect_block_pointer := s\<rparr>), fs')"
    and "single_addresses fs' s = Ok [s, ptrs ! 11]"
    and "inode_table fs' = inode_table fs"
proof -
  have free: "s \<in> free_blocks fs" using find_empty_data_block_Ok(1) [OF wf s] .
  have lt: "unat s < length (data_blocks fs)" using free_blocks_lt [OF wf free] .
  note s0 = free_blocks_nonzero [OF free] and z = free_block_zero [OF wf free]
  let ?b1 = "set_pointer zero_block 0 s" and ?b2 = "set_pointer (set_pointer zero_block 0 s) 12 (ptrs ! 11)"
  have p1: "pointers_of ?b1 = (replicate 64 0)[0 := s]"
    using pointers_of_set_pointer [of zero_block 0 s] by (simp add: length_zero_block)
  have "pointers_of ?b2 = (pointers_of ?b1)[12 := ptrs ! 11]"
    by (rule pointers_of_set_pointer) (simp_all add: length_set_pointer length_zero_block)
  then have p2: "nonzero (pointers_of ?b2) = [s, ptrs ! 11]"
    using s0 ptrs(2) by (simp add: p1 nonzero_def numeral_eq_Suc)
  have again: "find_empty_data_block fs (Some (replicate 64 0)) = Ok s"
    using find_empty_ignore_zeros [OF wf, of "replicate 64 0"] s by simp
  define fs' where "fs' = fs\<lparr>data_blocks := (data_blocks fs)[unat s := ?b2]\<rparr>"
  have "link_block ptrs 11 i fs = (Ok (i\<lparr>single_indirect_block_pointer := s\<rparr>), fs')"
    using ptrs none lt
    by (simp add: link_block_def allocate_single_indirect_block_def run_simps index_ok s again z
        write_pointer_ok fs'_def Let_def)
  moreover have "single_addresses fs' s = Ok [s, ptrs ! 11]"
    using s0 lt p2 by (simp add: single_addresses_def index_ok fs'_def)
  ultimately show thesis using that by (simp add: fs'_def)
qed

section \<open>Properties\<close>

text \<open>
  C28. \<open>get_block\<close> agrees with \<open>get_all_block_addresses\<close> on files without holes, of any size: when no block up to number \<open>n\<close> has the address 0, the
  address of block \<open>n\<close> is the n-th of the list, in the direct, the single and the double indirect range of \<open>get_block\<close>
  (4108 blocks). What is behind \<open>n\<close> does not matter. The list leaves out null pointers, so that behind a hole the two differ.
\<close>

theorem get_block_listed:
  assumes "k < length (inode_table fs)" and "inode_table fs ! k = i" and "length (data_block_pointers i) = 12" and "null_block fs"
    and "get_all_block_addresses fs i = Ok addrs" and "n < 12 + 64 * 64" and "\<forall>m \<le> n. get_block fs k m \<noteq> Ok 0"
  shows "n < length addrs \<and> get_block fs k n = Ok (addrs ! n)"
proof -
  let ?ds = "data_block_pointers i"
  obtain ss zs ts where ss: "single_addresses fs (single_indirect_block_pointer i) = Ok ss"
    and zs: "double_addresses fs (double_indirect_block_pointer i) = Ok zs" and addrs: "addrs = nonzero ?ds @ ss @ zs @ ts"
    using assms(5) by (auto simp: get_all_block_addresses_def)
  have direct: "get_block fs k m = Ok (?ds ! m)" if "m < 12" for m using that assms(1-3) by (simp add: get_block_def index_ok)
  have single: "get_block fs k (12 + m) = get_single_indirect_block fs i m" if "m < 64" for m
    using that assms(1,2) by (simp add: get_block_def index_ok)
  have double: "get_block fs k (76 + m) = get_double_indirect_block fs i m" if "m < 64 * 64 - 64" for m
    using that assms(1,2) by (simp add: get_block_def index_ok)
  show ?thesis
  proof (cases "n < 12")
    case True
    then have "\<forall>m \<le> n. ?ds ! m \<noteq> 0" using assms(7) direct by (metis le_less_trans)
    from nth_nonzero [OF this] show ?thesis using True assms(3) direct by (simp add: addrs nth_append)
  next
    case False
    then have "\<forall>m < 12. ?ds ! m \<noteq> 0" using assms(7) direct by (metis le_trans less_imp_le not_less)
    then have ds: "nonzero ?ds = ?ds" using assms(3) by (intro nonzero_all) simp
    show ?thesis
    proof (cases "n < 76")
      case True
      have lt: "n - 12 < 64" using True False by simp
      have "\<forall>m \<le> n - 12. get_single_indirect_block fs i m \<noteq> Ok 0" using assms(7) single True False by (auto simp: single [symmetric])
      then show ?thesis using get_single_walk(1,2) [OF assms(4) ss lt] single [OF lt] False assms(3)
        by (auto simp: addrs ds nth_append)
    next
      case big: False
      have "\<forall>m \<le> 63. get_single_indirect_block fs i m \<noteq> Ok 0" using assms(7) big by (auto simp: single [symmetric])
      then have "length ss = 64" using get_single_walk(3) [OF assms(4) ss, of 63] by simp
      moreover have "\<forall>m \<le> n - 76. get_double_indirect_block fs i m \<noteq> Ok 0" using assms(6,7) big by (auto simp: double [symmetric])
      moreover have "n - 76 < 64 * 64" "n - 76 < 64 * 64 - 64" "\<not> n - 12 < 64" using big assms(6) by simp_all
      ultimately show ?thesis using get_double_walk [OF assms(4) zs, of "n - 76"] double [of "n - 76"] big assms(3)
        by (auto simp: addrs ds nth_append)
    qed
  qed
qed

text \<open>Two blocks, the second of which consists of pointers to itself.\<close>

definition self_block :: DataBlock where
  "self_block = \<lparr>block_data = concat (replicate 64 (to_le_bytes 1))\<rparr>"

definition self_inode :: Inode where
  "self_inode = default_Inode\<lparr>data_block_pointers := replicate 12 7, single_indirect_block_pointer := 1,
     double_indirect_block_pointer := 1\<rparr>"

definition self_fs :: PhysFs where
  "self_fs = sample_fs\<lparr>inode_table := [self_inode], data_blocks := [zero_block, self_block]\<rparr>"

lemma self_block_pointers: "pointers_of self_block = replicate 64 1"
proof (rule nth_equalityI)
  fix k assume "k < length (pointers_of self_block)"
  then have k: "k < 64" by simp
  then have "(64 :: nat) = k + Suc (63 - k)" by simp
  then have "replicate 64 (to_le_bytes 1) = replicate k (to_le_bytes 1) @ replicate (Suc (63 - k)) (to_le_bytes 1)"
    by (metis replicate_add)
  then have "concat (replicate 64 (to_le_bytes 1)) =
      concat (replicate k (to_le_bytes 1)) @ to_le_bytes 1 @ concat (replicate (63 - k) (to_le_bytes 1))"
    by simp
  moreover have "length (concat (replicate k (to_le_bytes 1))) = 8 * k" by (induction k) simp_all
  ultimately show "pointers_of self_block ! k = replicate 64 1 ! k"
    using k by (simp add: pointers_of_def self_block_def)
qed simp

theorem get_block_listed_witness:
  "\<exists>addrs. get_all_block_addresses self_fs self_inode = Ok addrs \<and> 100 < length addrs \<and> get_block self_fs 0 100 = Ok (addrs ! 100)"
proof -
  have blocks: "data_blocks self_fs = [zero_block, self_block]" "inode_table self_fs = [self_inode]" by (simp_all add: self_fs_def)
  have inode: "data_block_pointers self_inode = replicate 12 7" "single_indirect_block_pointer self_inode = 1"
    "double_indirect_block_pointer self_inode = 1" "triple_indirect_block_pointer self_inode = 0"
    by (simp_all add: self_inode_def default_Inode_def)
  have one: "single_addresses self_fs 1 = Ok (replicate 64 1)"
    by (simp add: single_addresses_def index_def blocks self_block_pointers nonzero_def)
  then have "double_addresses self_fs 1 = Ok (concat (replicate 64 (replicate 64 1)))"
    using concat_map_o_Ok [of "replicate 64 1" "single_addresses self_fs" "\<lambda>_. replicate 64 1"]
    by (simp add: double_addresses_def index_def blocks self_block_pointers)
  then obtain addrs where addrs: "get_all_block_addresses self_fs self_inode = Ok addrs"
    using one by (simp add: get_all_block_addresses_def inode triple_addresses_def)
  have ptr: "read_pointer (Suc 0) m self_fs = Ok 1" if "m < 64" for m
    using that read_pointer_full [of 1 self_fs m] by (simp add: blocks self_block_pointers)
  have "get_block self_fs 0 m \<noteq> Ok 0" if "m \<le> 100" for m
    using that by (auto simp: get_block_def blocks index_ok inode get_single_indirect_block_def get_double_indirect_block_def ptr)
  moreover have "null_block self_fs" by (simp add: null_block_def blocks)
  ultimately show ?thesis using get_block_listed [of 0 self_fs self_inode addrs 100] addrs by (simp add: blocks inode)
qed

text \<open>
  C30. The twelfth data block: when \<open>write_file\<close> links the first block behind the direct
  pointers, the fresh indirect block gets itself as its first pointer and the data block as
  its thirteenth, so that the list of the file's blocks has the indirect block where the
  data block belongs.
\<close>

theorem twelfth_block_misplaced:
  assumes "wf_fs fs" and "single_indirect_block_pointer i = 0"
    and "double_indirect_block_pointer i = 0" and "triple_indirect_block_pointer i = 0"
    and "length (data_block_pointers i) = 12" and "0 \<notin> set (data_block_pointers i)"
    and "11 < length ptrs" and "ptrs ! 11 \<noteq> 0" and "find_empty_data_block fs None = Ok s"
  shows "\<exists>i' fs'. link_block ptrs 11 i fs = (Ok i', fs') \<and> single_indirect_block_pointer i' = s \<and>
    get_all_block_addresses fs' i' = Ok (data_block_pointers i @ [s, ptrs ! 11])"
proof -
  obtain fs' where "link_block ptrs 11 i fs = (Ok (i\<lparr>single_indirect_block_pointer := s\<rparr>), fs')"
    and "single_addresses fs' s = Ok [s, ptrs ! 11]"
    using link_block_first_indirect [OF assms(1,2,7,8,9)] by blast
  moreover have "nonzero (data_block_pointers i) = data_block_pointers i"
    using assms(6) by (auto simp: nonzero_def filter_id_conv)
  ultimately show ?thesis using assms(3,4)
    by (simp add: get_all_block_addresses_def double_addresses_def triple_addresses_def)
qed

theorem twelfth_block_misplaced_witness:
  "\<exists>i' fs' s. link_block (replicate 12 9) 11 (default_Inode\<lparr>data_block_pointers := replicate 12 7\<rparr>) sample_fs
      = (Ok i', fs') \<and> get_all_block_addresses fs' i' = Ok (replicate 12 7 @ [s, 9])"
proof -
  obtain s where s: "find_empty_data_block sample_fs None = Ok s"
    using find_empty_data_block_progress [OF direct_fs_wf [OF sample_fs_blank(1)], of _ None] sample_fs_free by blast
  show ?thesis
    using twelfth_block_misplaced [OF direct_fs_wf [OF sample_fs_blank(1)],
        of "default_Inode\<lparr>data_block_pointers := replicate 12 7\<rparr>" "replicate 12 9" s] s
    by (force simp: default_Inode_def)
qed

end
