(* ===== verification/Fs_Errors.thy ===== *)
theory Fs_Errors
  imports Fs_Write
begin

text \<open>
  How the file operations of \<open>PhysFs\<close> fail, on a filesystem that keeps the invariant of \<open>Fs_Files\<close>: the errors of
  \<open>create_file\<close> and \<open>write_file\<close>, and what they leave behind. No file loses its contents, but a
  creation without a free inode takes a block away, and a write without free blocks has already stamped the file.
\<close>

section \<open>Loops that may fail\<close>

text \<open>The loop rule for a body that keeps a predicate or fails with \<open>e\<close> in the state \<open>s0\<close>.\<close>

lemma for_acc_fails:
  assumes start: "P a v s" and ab: "a \<le> b"
    and step: "\<And>i v s. a \<le> i \<Longrightarrow> i < b \<Longrightarrow> P i v s \<Longrightarrow>
      (\<exists>v' s'. body i v s = (Ok v', s') \<and> P (Suc i) v' s') \<or> body i v s = (Err e, s0)"
  shows "(\<exists>v' s'. for_acc body [a..<b] v s = (Ok v', s') \<and> P b v' s') \<or> for_acc body [a..<b] v s = (Err e, s0)"
  using ab start step
proof (induction "b - a" arbitrary: a v s)
  case (Suc n)
  then have lt: "a < b" by simp
  consider v1 s1 where "body a v s = (Ok v1, s1)" "P (Suc a) v1 s1" | "body a v s = (Err e, s0)"
    using Suc.prems lt by blast
  then show ?case
  proof cases
    case 1
    have "(\<exists>v' s'. for_acc body [Suc a..<b] v1 s1 = (Ok v', s') \<and> P b v' s') \<or> for_acc body [Suc a..<b] v1 s1 = (Err e, s0)"
      using Suc.hyps(2) Suc.prems lt 1 by (intro Suc.hyps(1)) auto
    then show ?thesis using lt 1 by (simp add: upt_conv_Cons bind_Ok)
  next
    case 2
    then show ?thesis using lt by (simp add: upt_conv_Cons bind_def)
  qed
qed simp

lemma choose_blocks_full:
  assumes wf: "wf_fs fs" and full: "card (free_blocks fs) < n - length existing" and "length v = n"
  shows "for_acc (choose_block existing) [0..<n] v fs = (Err FsDiskFull, fs)"
proof -
  let ?P = "\<lambda>i v s. s = fs \<and> length v = n \<and> (\<exists>news. set news \<subseteq> set (take i v) \<inter> free_blocks fs \<and>
    distinct news \<and> length news = i - length existing)"
  have "(\<exists>v' s'. for_acc (choose_block existing) [0..<n] v fs = (Ok v', s') \<and> ?P n v' s') \<or>
      for_acc (choose_block existing) [0..<n] v fs = (Err FsDiskFull, fs)"
  proof (rule for_acc_fails [where P = ?P])
    fix i v s assume i: "i < n" and P: "?P i v s"
    then obtain news where s: "s = fs" "length v = n" and news: "set news \<subseteq> set (take i v) \<inter> free_blocks fs" "distinct news"
      "length news = i - length existing" by blast
    have tk: "take (Suc i) (v[i := p]) = take i v @ [p]" for p using i s(2) by (simp add: take_Suc_conv_app_nth)
    show "(\<exists>v' s'. choose_block existing i v s = (Ok v', s') \<and> ?P (Suc i) v' s') \<or> choose_block existing i v s = (Err FsDiskFull, fs)"
    proof (cases "i < length existing")
      case True
      then show ?thesis using s i news by (auto simp: choose_block_def reads_def index_set_ok)
    next
      case False
      consider p where "find_empty_data_block fs (Some v) = Ok p" | "find_empty_data_block fs (Some v) = Err FsDiskFull"
        using find_empty_data_block_spec [OF wf, of "Some v"] by (cases "find_empty_data_block fs (Some v)") auto
      then show ?thesis
      proof cases
        case 1
        have p: "p \<in> free_blocks fs" "p \<notin> set (take i v)"
          using find_empty_data_block_Ok [OF wf 1] by (auto dest: in_set_takeD)
        then have "set (p # news) \<subseteq> set (take (Suc i) (v[i := p])) \<inter> free_blocks fs \<and> distinct (p # news) \<and>
            length (p # news) = Suc i - length existing"
          using False news by (auto simp: tk)
        then have "?P (Suc i) (v[i := p]) fs" using s(2) by (metis length_list_update)
        then show ?thesis using 1 False s i by (auto simp: choose_block_def run_simps index_set_ok)
      qed (use False s in \<open>simp add: choose_block_def bind_def reads_def\<close>)
    qed
  qed (use assms(3) in simp_all)
  moreover have "\<not> ?P n v' s'" for v' s'
  proof
    assume "?P n v' s'"
    then obtain news where "set news \<subseteq> free_blocks fs" "distinct news" "length news = n - length existing" by blast
    then have "n - length existing \<le> card (free_blocks fs)" by (metis card_mono distinct_card finite_free_blocks)
    then show False using full by simp
  qed
  ultimately show ?thesis by blast
qed

section \<open>Changes of blocks only\<close>

lemma files_blocks:
  assumes fs: "direct_fs fs" and table: "inode_table fs' = inode_table fs"
    and frame: "\<And>j p. j < length (inode_table fs) \<Longrightarrow> p \<in> set (owned (inode_table fs ! j)) \<Longrightarrow>
      data_blocks fs' ! unat p = data_blocks fs ! unat p"
  shows "files fs' = files fs"
proof
  fix nm
  have "file_of fs' (inode_table fs ! j) = file_of fs (inode_table fs ! j)"
    if j: "slot fs nm = Some j" and "nm \<noteq> no_name" for j
  proof -
    have lt: "j < length (inode_table fs)" "file_name (inode_table fs ! j) = nm" using slot_SomeD [OF j] by simp_all
    then have "owned (inode_table fs ! j) \<noteq> []"
      using direct_inode_live [OF direct_fs_inode [OF fs lt(1)]] that(2) by simp
    then show ?thesis by (rule file_of_cong) (rule frame [OF lt(1)])
  qed
  then show "files fs' nm = files fs nm" by (cases "slot fs nm") (auto simp: files_def table slot_def)
qed

lemma direct_fs_blocks:
  assumes "direct_fs fs" and "wf_fs fs'" and "inode_table fs' = inode_table fs"
    and "length (data_blocks fs') = length (data_blocks fs)"
  shows "direct_fs fs'"
  using assms by (simp add: direct_fs_def)

lemma metadata_nonzero: "creation_time md \<noteq> 0 \<Longrightarrow> metadata_bytes md \<noteq> replicate 512 0"
proof
  assume time: "creation_time md \<noteq> 0" and zero: "metadata_bytes md = replicate 512 0"
  have "metadata_of (metadata_bytes md) = md" by simp
  then have "creation_time md = from_le_bytes (take 8 (drop 8 (replicate 512 0)))"
    unfolding zero by (simp add: metadata_of_def) (metis FileMetadata.select_convs(2))
  then show False using time by (simp add: from_le_bytes_def numeral_eq_Suc)
qed

section \<open>Errors\<close>

lemma create_file_no_inode:
  assumes fs: "direct_fs fs" and name: "valid_name name"
    and table: "length (inode_table fs) = unat (num_inodes (superblock fs))"
    and full: "\<And>i. i \<in> set (inode_table fs) \<Longrightarrow> live i" and block: "free_blocks fs \<noteq> {}"
  obtains fs' p where "create_file clk name perms own fs = (Err FsOutOfInodes, fs')" and "direct_fs fs'"
    and "files fs' = files fs" and "p \<in> free_blocks fs" and "clk 0 \<noteq> 0 \<Longrightarrow> free_blocks fs' = free_blocks fs - {p}"
proof -
  have wf: "wf_fs fs" using fs by (rule direct_fs_wf)
  have len: "length name \<le> 384" using name by (simp add: valid_name_def)
  obtain p where p: "find_empty_data_block fs None = Ok p"
    using find_empty_data_block_progress [OF wf] block by blast
  have free: "p \<in> free_blocks fs" using find_empty_data_block_Ok(1) [OF wf p] .
  let ?bytes = "metadata_bytes (new_metadata clk perms own)"
  define fs' where "fs' = fs\<lparr>data_blocks := (data_blocks fs)[unat p := \<lparr>block_data = ?bytes\<rparr>]\<rparr>"
  have "find (\<lambda>i. in_num_data_blocks (inode_table fs' ! i) = 0) [0..<length (inode_table fs')] = None"
    using full by (auto simp: fs'_def find_None_iff live_def)
  then have "create_inode (new_inode p name) fs' = (Err FsOutOfInodes, fs')"
    using find_empty_inode_find [of fs'] table by (simp add: create_inode_def bind_reads fs'_def)
  then have run: "create_file clk name perms own fs = (Err FsOutOfInodes, fs')"
    using create_file_steps [OF wf len p, of clk perms own] by (simp add: fs'_def)
  have "files fs' = files fs"
    using owned_not_free free by (intro files_blocks [OF fs]) (auto simp: fs'_def intro!: nth_block_neq)
  moreover have "direct_fs fs'"
    using wf by (intro direct_fs_blocks [OF fs]) (simp_all add: fs'_def wf_fs_set_block)
  moreover have "free_blocks fs' = free_blocks fs - {p}" if "clk 0 \<noteq> 0"
  proof -
    have "?bytes \<noteq> replicate 512 0" using that by (intro metadata_nonzero) (simp add: new_metadata_def)
    then have "q \<in> free_blocks fs' \<longleftrightarrow> q \<in> free_blocks fs \<and> q \<noteq> p" for q
      using free_blocks_lt [OF wf free] nth_block_neq [of p q "data_blocks fs"]
      by (cases "q = p") (simp_all add: free_blocks_def fs'_def direct_used_def)
    then show ?thesis by blast
  qed
  ultimately show thesis using that [OF run] free by blast
qed

lemma write_file_full:
  assumes fs: "direct_fs fs" and name: "valid_name name" and found: "files fs (padded name) = Some (md, old)"
    and full: "card (free_blocks fs) < blocks_needed (length bytes) - capacity fs (padded name)"
  obtains fs' where "write_file clk name bytes perms own fs = (Err FsDiskFull, fs')" and "direct_fs fs'"
    and "files fs' = (files fs)(padded name \<mapsto> (updated_metadata clk perms own md, old))"
    and "free_blocks fs' = free_blocks fs"
proof -
  let ?n = "blocks_needed (length bytes)"
  note wf = direct_fs_wf [OF fs]
  have len: "length name \<le> 384" using name by (simp add: valid_name_def)
  obtain k i p0 existing where k: "slot fs (padded name) = Some k" and klt: "k < length (inode_table fs)"
    and i: "inode_table fs ! k = i" and iname: "file_name i = padded name" and nm: "padded name \<noteq> no_name"
    and di: "direct_inode i" and "live i" and own: "owned i = p0 # existing"
    and md: "metadata_of (block_data (data_blocks fs ! unat p0)) = md"
    and blocks: "\<forall>p \<in> set (owned i). unat p < length (data_blocks fs) \<and> p \<notin> free_blocks fs"
    and used: "direct_used fs p0"
    using files_lookup [OF fs found] by blast
  have own0: "owned i \<noteq> []" using own by simp
  define fs1 where "fs1 = fs\<lparr>data_blocks := (data_blocks fs)
     [unat p0 := \<lparr>block_data = metadata_bytes (updated_metadata clk perms own md)\<rparr>]\<rparr>"
  have run1: "write_metadata clk i perms own fs = (Ok (), fs1)"
    using write_metadata_ok [OF wf di own0, of clk perms own] blocks own md by (simp add: fs1_def)
  have wf1: "wf_fs fs1" using wf by (simp add: fs1_def wf_fs_set_block)
  have free1: "free_blocks fs1 = free_blocks fs" unfolding fs1_def using used by (rule free_blocks_set_used)
  have "capacity fs (padded name) = length existing" using k i own by (simp add: capacity_def)
  then have run2: "for_acc (choose_block existing) [0..<?n] ((replicate ?n 0)[0 := p0]) fs1 = (Err FsDiskFull, fs1)"
    using full by (intro choose_blocks_full [OF wf1]) (simp_all add: free1)
  have idx: "obind (index (data_block_pointers i) 0) (\<lambda>p0. index_set (replicate ?n 0) 0 p0) =
      (Ok ((replicate ?n 0)[0 := p0]) :: (FsError, u64 list) outcome)"
    using direct_inode_pointer0 [OF di own0] own by (simp add: index_set_def blocks_needed_def)
  have run: "write_file clk name bytes perms own fs = (Err FsDiskFull, fs1)"
    unfolding write_file_def ceil_blocks_pad_data Let_def
    by (simp add: run_simps find_inode_by_name_slot [OF len] k i idx direct_addresses [OF di] own run1 run2)
  have table: "inode_table fs1 = (inode_table fs)[k := i]" by (simp add: fs1_def i [symmetric])
  have same: "data_blocks fs1 ! unat p = data_blocks fs ! unat p" if "p \<noteq> p0" for p
    using that nth_block_neq [of p0 p] by (auto simp: fs1_def)
  have apart: "p \<noteq> p0" if "j < length (inode_table fs)" "j \<noteq> k" "p \<in> set (owned (inode_table fs ! j))" for j p
    using direct_fs_disjoint [OF fs that(1) klt that(2,3)] i own by auto
  have "files fs1 = (files fs)(padded name \<mapsto> file_of fs1 i)"
    using direct_fs_names [OF fs k nm] i iname
    by (intro files_upd [OF fs klt _ nm _ table iname] same apart) auto
  moreover have "file_of fs1 i = (updated_metadata clk perms own md, old)"
  proof -
    have tail: "p \<noteq> p0" if "p \<in> set existing" for p using di own that by (auto simp: direct_inode_def)
    have "blocks_at fs1 (take m existing) = blocks_at fs (take m existing)" for m
      by (rule blocks_at_cong) (auto intro!: same tail dest: in_set_takeD)
    moreover have "file_of fs i = (md, old)" using found nm k i by (simp add: files_def)
    ultimately show ?thesis using blocks own by (simp add: file_of_def fs1_def)
  qed
  moreover have "direct_fs fs1" using wf1 by (intro direct_fs_blocks [OF fs]) (simp_all add: fs1_def)
  ultimately show thesis using that [OF run] free1 by simp
qed

lemma capacity_le: "direct_fs fs \<Longrightarrow> capacity fs nm \<le> 11"
  by (auto simp: capacity_def direct_inode_def split: option.splits dest!: slot_SomeD direct_fs_inode)

section \<open>A filesystem with one inode\<close>

definition tiny_fs :: PhysFs where
  "tiny_fs = \<lparr>
     superblock = \<lparr>magic_number = MAGIC_NUMBER, disk_size = 5, inode_table_size = 1,
       data_block_size = 512, num_inodes = 1, num_data_blocks = 3\<rparr>,
     inode_table = [default_Inode], data_blocks = replicate 3 zero_block\<rparr>"

definition full_fs :: PhysFs where
  "full_fs = snd (create_file (\<lambda>_. 7) ''/a'' (6, 6, 6) 0 tiny_fs)"

lemma card_free_blocks_le: "card (free_blocks fs) \<le> unat (num_data_blocks (superblock fs)) - 1"
proof -
  have "unat ` free_blocks fs \<subseteq> {1..<unat (num_data_blocks (superblock fs))}" by (auto simp: free_blocks_def)
  then have "card (unat ` free_blocks fs) \<le> card {1..<unat (num_data_blocks (superblock fs))}" by (intro card_mono) simp_all
  moreover have "card (unat ` free_blocks fs) = card (free_blocks fs)" by (rule card_image) (auto simp: inj_on_def word_unat_eq_iff)
  ultimately show ?thesis by simp
qed

lemma full_fs_facts:
  shows "direct_fs full_fs" and "files full_fs = [padded ''/a'' \<mapsto> (new_metadata (\<lambda>_. 7) (6, 6, 6) 0, [])]"
    and "length (inode_table full_fs) = unat (num_inodes (superblock full_fs))" and "\<forall>i \<in> set (inode_table full_fs). live i"
    and "free_blocks full_fs \<noteq> {}" and "card (free_blocks full_fs) \<le> 2"
proof -
  note blank = blank_fs [of tiny_fs 1 3]
  have tiny: "direct_fs tiny_fs" "files tiny_fs = Map.empty" "card (free_blocks tiny_fs) = 2"
    using blank by (simp_all add: tiny_fs_def)
  have name: "valid_name ''/a''" by (simp add: valid_name_def)
  have start: "files tiny_fs (padded ''/a'') = None" "free_blocks tiny_fs \<noteq> {}"
    "length (inode_table tiny_fs) = unat (num_inodes (superblock tiny_fs))" "default_Inode \<in> set (inode_table tiny_fs)"
    using tiny(2,3) by auto (simp_all add: tiny_fs_def)
  have "direct_fs full_fs \<and> files full_fs = (files tiny_fs)(padded ''/a'' \<mapsto> (new_metadata (\<lambda>_. 7) (6, 6, 6) 0, [])) \<and>
      superblock full_fs = superblock tiny_fs \<and> length (inode_table full_fs) = length (inode_table tiny_fs) \<and>
      card (free_blocks tiny_fs) \<le> card (free_blocks full_fs) + 1"
    by (rule create_file_refines [OF tiny(1) name start not_live_default, of "\<lambda>_. 7" "(6, 6, 6)" 0]) (simp add: full_fs_def)
  then show full: "direct_fs full_fs" and "files full_fs = [padded ''/a'' \<mapsto> (new_metadata (\<lambda>_. 7) (6, 6, 6) 0, [])]"
    and "length (inode_table full_fs) = unat (num_inodes (superblock full_fs))" and "free_blocks full_fs \<noteq> {}"
    and "card (free_blocks full_fs) \<le> 2"
    using card_free_blocks_le [of full_fs] tiny by (auto simp: tiny_fs_def)
  then obtain k where "k < length (inode_table full_fs)" "live (inode_table full_fs ! k)"
    using files_lookup [OF full, of "padded ''/a''"] by (metis fun_upd_same)
  moreover have "length (inode_table full_fs) = 1"
    using \<open>direct_fs full_fs \<and> _\<close> by (simp add: tiny_fs_def)
  ultimately show "\<forall>i \<in> set (inode_table full_fs). live i" by (auto simp: in_set_conv_nth)
qed

section \<open>Properties\<close>

text \<open>
  C13. When \<open>create_file\<close> fails, and what it leaves. Without a free block it fails with \<open>DiskFull\<close> and changes nothing, whatever the inodes are. With a free block
  but without a free inode it fails with \<open>OutOfInodes\<close> and leaves every file, but the block is lost (when the clock is not at 0): the metadata of the
  file that was not created stays in it, and a block with contents is never handed out again. With both it succeeds.
\<close>

theorem create_file_fails:
  assumes "direct_fs fs" and "valid_name name" and "length (inode_table fs) = unat (num_inodes (superblock fs))"
  shows "(free_blocks fs = {} \<longrightarrow> create_file clk name perms own fs = (Err FsDiskFull, fs)) \<and>
    (free_blocks fs \<noteq> {} \<and> (\<forall>i \<in> set (inode_table fs). live i) \<longrightarrow>
      (\<exists>fs'. create_file clk name perms own fs = (Err FsOutOfInodes, fs') \<and> direct_fs fs' \<and> files fs' = files fs \<and>
        (clk 0 \<noteq> 0 \<longrightarrow> Suc (card (free_blocks fs')) = card (free_blocks fs)))) \<and>
    (free_blocks fs \<noteq> {} \<and> (\<exists>i \<in> set (inode_table fs). \<not> live i) \<longrightarrow>
      (\<exists>fs'. create_file clk name perms own fs = (Ok (), fs')))"
proof (intro conjI impI)
  assume "free_blocks fs = {}"
  then have "find_empty_data_block fs None = Err FsDiskFull"
    using find_empty_data_block_full [OF direct_fs_wf [OF assms(1)], of None] by simp
  then show "create_file clk name perms own fs = (Err FsDiskFull, fs)" by (simp add: create_file_def bind_reads)
next
  assume "free_blocks fs \<noteq> {} \<and> (\<forall>i \<in> set (inode_table fs). live i)"
  then obtain fs' p where run: "create_file clk name perms own fs = (Err FsOutOfInodes, fs')" "direct_fs fs'" "files fs' = files fs"
    and p: "p \<in> free_blocks fs" "clk 0 \<noteq> 0 \<Longrightarrow> free_blocks fs' = free_blocks fs - {p}"
    using create_file_no_inode [of fs name clk perms own] assms by metis
  then show "\<exists>fs'. create_file clk name perms own fs = (Err FsOutOfInodes, fs') \<and> direct_fs fs' \<and> files fs' = files fs \<and>
      (clk 0 \<noteq> 0 \<longrightarrow> Suc (card (free_blocks fs')) = card (free_blocks fs))"
    using card_Suc_Diff1 [of "free_blocks fs" p] by auto
next
  assume some: "free_blocks fs \<noteq> {} \<and> (\<exists>i \<in> set (inode_table fs). \<not> live i)"
  note wf = direct_fs_wf [OF assms(1)]
  have len: "length name \<le> 384" using assms(2) by (simp add: valid_name_def)
  obtain p where "find_empty_data_block fs None = Ok p" using find_empty_data_block_progress [OF wf] some by blast
  note run = create_file_steps [OF wf len this, of clk perms own]
  let ?fs = "fs\<lparr>data_blocks := (data_blocks fs)[unat p := \<lparr>block_data = metadata_bytes (new_metadata clk perms own)\<rparr>]\<rparr>"
  obtain i where "i \<in> set (inode_table ?fs)" "\<not> live i" using some by auto
  with create_inode_ok [of ?fs i "new_inode p name"] assms(3) show "\<exists>fs'. create_file clk name perms own fs = (Ok (), fs')"
    unfolding run by (metis PhysFs.select_convs(1,2) PhysFs.update_convs(3) PhysFs.surjective)
qed

theorem create_file_fails_witness:
  "\<exists>fs'. create_file (\<lambda>_. 7) ''/b'' (6, 6, 6) 0 full_fs = (Err FsOutOfInodes, fs') \<and>
    Suc (card (free_blocks fs')) = card (free_blocks full_fs)"
proof -
  have "valid_name ''/b''" by (simp add: valid_name_def)
  from create_file_fails [OF full_fs_facts(1) this full_fs_facts(3), of "\<lambda>_. 7" "(6, 6, 6)" 0] show ?thesis
    using full_fs_facts(4,5) by auto
qed

text \<open>
  C12. When \<open>write_file\<close> fails, and what it leaves. Without the file it fails with \<open>FileNotFound\<close> and changes nothing, whatever room there is. With the file but without
  enough free blocks it fails with \<open>DiskFull\<close>; every file keeps its contents and no block is taken, but the file already has the modification
  time, and the owner and permissions, of the write that did not happen.
\<close>

theorem write_file_fails:
  assumes "direct_fs fs" and "valid_name name"
  shows "(files fs (padded name) = None \<longrightarrow> write_file clk name bytes perms own fs = (Err FsFileNotFound, fs)) \<and>
    (\<forall>md old. files fs (padded name) = Some (md, old) \<and>
        card (free_blocks fs) < blocks_needed (length bytes) - capacity fs (padded name) \<longrightarrow>
      (\<exists>fs'. write_file clk name bytes perms own fs = (Err FsDiskFull, fs') \<and> direct_fs fs' \<and> free_blocks fs' = free_blocks fs \<and>
        files fs' = (files fs)(padded name \<mapsto> (updated_metadata clk perms own md, old))))"
proof (intro conjI impI allI)
  assume "files fs (padded name) = None"
  then have "slot fs (padded name) = None" using padded_neq_no_name [OF assms(2)] by (simp add: files_def)
  then show "write_file clk name bytes perms own fs = (Err FsFileNotFound, fs)"
    using assms(2) by (simp add: write_file_def Let_def bind_reads find_inode_by_name_slot valid_name_def)
next
  fix md old
  assume "files fs (padded name) = Some (md, old) \<and> card (free_blocks fs) < blocks_needed (length bytes) - capacity fs (padded name)"
  then show "\<exists>fs'. write_file clk name bytes perms own fs = (Err FsDiskFull, fs') \<and> direct_fs fs' \<and> free_blocks fs' = free_blocks fs \<and>
      files fs' = (files fs)(padded name \<mapsto> (updated_metadata clk perms own md, old))"
    using write_file_full [OF assms, of md old bytes clk perms own] by blast
qed

theorem write_file_fails_witness:
  "\<exists>fs'. write_file (\<lambda>_. 9) ''/a'' (replicate 7000 1) None None full_fs = (Err FsDiskFull, fs') \<and>
    files fs' = [padded ''/a'' \<mapsto> ((new_metadata (\<lambda>_. 7) (6, 6, 6) 0)\<lparr>modification_time := 9\<rparr>, [])]"
proof -
  have name: "valid_name ''/a''" by (simp add: valid_name_def)
  have "card (free_blocks full_fs) < blocks_needed (length (replicate 7000 (1 :: u8))) - capacity full_fs (padded ''/a'')"
    using full_fs_facts(6) capacity_le [OF full_fs_facts(1), of "padded ''/a''"] by (simp add: blocks_needed_def)
  with write_file_fails [OF full_fs_facts(1) name, of "\<lambda>_. 9" "replicate 7000 1" None None] show ?thesis
    by (auto simp: full_fs_facts(2) updated_metadata_def new_metadata_def)
qed

end
