(* ===== verification/Devices.thy ===== *)
theory Devices
  imports Virt_Fs
begin

text \<open>
  The character devices: \<open>devices/null.rs\<close>, \<open>zero.rs\<close>, \<open>rand.rs\<close>, \<open>console.rs\<close>, and the
  types of \<open>io.rs\<close> and \<open>devices/proc.rs\<close> that name what a file descriptor can be. The random
  generator is the crate \<open>rand\<close>: its seeding and its \<open>fill_bytes\<close> are arguments.

  The \<open>Stream\<close> operations return the number of bytes and the buffer they leave, and change
  the device; \<open>close\<close> and \<open>flush\<close> of every device do nothing and are the one definition
  \<open>device_noop\<close>.
\<close>

section \<open>Zero and null\<close>

record Zero =
  zero_flags :: u8

record Null =
  null_inner :: Zero

definition Zero_new :: "u8 \<Rightarrow> Zero" where
  "Zero_new flags = \<lparr>zero_flags = flags\<rparr>"

definition Zero_read :: "Zero \<Rightarrow> u8 list \<Rightarrow> (FileError, nat \<times> u8 list) outcome" where
  "Zero_read z buf =
     (if \<not> is_set FlagRead (zero_flags z) then Err (PermissionError (inner_from FsReadError))
      else Ok (length buf, replicate (length buf) 0))"

definition Zero_write :: "Zero \<Rightarrow> u8 list \<Rightarrow> (FileError, nat) outcome" where
  "Zero_write z buf =
     (if \<not> is_set FlagWrite (zero_flags z) then Err (PermissionError (inner_from FsWriteError))
      else Ok (length buf))"

fun Zero_poll :: "Zero \<Rightarrow> IOEvent \<Rightarrow> bool" where
  "Zero_poll z EventRead = (\<not> is_set FlagRead (zero_flags z))"
| "Zero_poll z EventWrite = (\<not> is_set FlagWrite (zero_flags z))"

definition Null_new :: "u8 \<Rightarrow> Null" where
  "Null_new flags = \<lparr>null_inner = Zero_new flags\<rparr>"

definition Null_read :: "Null \<Rightarrow> u8 list \<Rightarrow> (FileError, nat \<times> u8 list) outcome" where
  "Null_read n buf =
     (if \<not> is_set FlagRead (zero_flags (null_inner n)) then Err (PermissionError (inner_from FsReadError))
      else Ok (0, buf))"

definition Null_write :: "Null \<Rightarrow> u8 list \<Rightarrow> (FileError, nat) outcome" where
  "Null_write n buf =
     (if \<not> is_set FlagWrite (zero_flags (null_inner n)) then Err (PermissionError (inner_from FsWriteError))
      else Zero_write (null_inner n) buf)"

definition Null_poll :: "Null \<Rightarrow> IOEvent \<Rightarrow> bool" where
  "Null_poll n event = Zero_poll (null_inner n) event"

section \<open>Random\<close>

record 'r Rand =
  rand_inner :: 'r
  rand_flags :: u8

definition Rand_new :: "(u64 \<Rightarrow> 'r) \<Rightarrow> u64 \<Rightarrow> u8 \<Rightarrow> 'r Rand" where
  "Rand_new seed_from_u64 now flags = \<lparr>rand_inner = seed_from_u64 now, rand_flags = flags\<rparr>"

text \<open>\<open>fill_bytes r n\<close> gives \<open>n\<close> bytes and the generator after them.\<close>

definition Rand_read :: "('r \<Rightarrow> nat \<Rightarrow> u8 list \<times> 'r) \<Rightarrow> u8 list \<Rightarrow> ('r Rand, FileError, nat \<times> u8 list) prog" where
  "Rand_read fill_bytes buf r =
     (if \<not> is_set FlagRead (rand_flags r) then (Err (PermissionError (inner_from FsReadError)), r)
      else (case fill_bytes (rand_inner r) (length buf) of
        (bytes, inner) \<Rightarrow> (Ok (length buf, bytes), r\<lparr>rand_inner := inner\<rparr>)))"

definition Rand_write :: "'r Rand \<Rightarrow> u8 list \<Rightarrow> (FileError, nat) outcome" where
  "Rand_write r buf =
     (if \<not> is_set FlagWrite (rand_flags r) then Err (PermissionError (inner_from FsWriteError))
      else Err (WriteError (inner_from FsUnwritableFile)))"

fun Rand_poll :: "'r Rand \<Rightarrow> IOEvent \<Rightarrow> bool" where
  "Rand_poll r EventRead = is_set FlagRead (rand_flags r)"
| "Rand_poll r EventWrite = is_set FlagRead (rand_flags r)"

text \<open>\<open>seek\<close> of null, zero, random, console, stdout and stderr; \<open>close\<close> and \<open>flush\<close>.\<close>

definition device_seek :: "nat \<Rightarrow> (FileError, nat) outcome" where
  "device_seek pos = Ok pos"

definition device_noop :: "(FileError, unit) outcome" where
  "device_noop = Ok ()"

section \<open>The console\<close>

text \<open>
  A Rust \<open>char\<close> is its code point. \<open>printed\<close> is what \<open>kprint!\<close> was given, in order: a text,
  or bytes that \<open>String::from_utf8_lossy\<close> turns into one.
\<close>

type_synonym rchar = u32

datatype printed = Text "rchar list" | Lossy "u8 list"

record Console_state =
  stdin_buf :: "rchar list"
  raw_mode :: bool
  echo :: bool
  screen :: "printed list"

definition kprint :: "printed \<Rightarrow> Console_state \<Rightarrow> Console_state" where
  "kprint t c = c\<lparr>screen := screen c @ [t]\<rparr>"

definition BACKSPACE :: rchar where
  "BACKSPACE = 0x08"

definition END_OF_TEXT :: rchar where
  "END_OF_TEXT = 0x03"

definition END_OF_TRANSMISSION :: rchar where
  "END_OF_TRANSMISSION = 0x04"

definition ESC :: rchar where
  "ESC = 0x1B"

definition set_raw_mode :: "bool \<Rightarrow> Console_state \<Rightarrow> Console_state" where
  "set_raw_mode b c = c\<lparr>raw_mode := b\<rparr>"

definition set_echo :: "bool \<Rightarrow> Console_state \<Rightarrow> Console_state" where
  "set_echo b c = c\<lparr>echo := b\<rparr>"

text \<open>\<open>String::pop\<close> takes the last character.\<close>

definition stdin_pop :: "Console_state \<Rightarrow> rchar option \<times> Console_state" where
  "stdin_pop c = (if stdin_buf c = [] then (None, c)
     else (Some (last (stdin_buf c)), c\<lparr>stdin_buf := butlast (stdin_buf c)\<rparr>))"

definition len_utf8 :: "rchar \<Rightarrow> nat" where
  "len_utf8 c = (if c < 0x80 then 1 else if c < 0x800 then 2 else if c < 0x10000 then 3 else 4)"

definition backspaces :: "rchar \<Rightarrow> nat" where
  "backspaces c =
     (if c = END_OF_TEXT \<or> c = END_OF_TRANSMISSION \<or> c = ESC then 2
      else if c < 0xFF then 1 else len_utf8 c)"

fun kprint_times :: "nat \<Rightarrow> printed \<Rightarrow> Console_state \<Rightarrow> Console_state" where
  "kprint_times 0 t c = c"
| "kprint_times (Suc n) t c = kprint_times n t (kprint t c)"

definition echo_text :: "rchar \<Rightarrow> rchar list" where
  "echo_text key =
     (if key = END_OF_TEXT then [0x5E, 0x43]
      else if key = END_OF_TRANSMISSION then [0x5E, 0x44]
      else if key = ESC then [0x5E, 0x5B]
      else [key])"

definition handle_key :: "rchar \<Rightarrow> Console_state \<Rightarrow> Console_state" where
  "handle_key key c =
     (if key = BACKSPACE \<and> \<not> raw_mode c then
        (case stdin_pop c of
           (None, c) \<Rightarrow> c
         | (Some k, c) \<Rightarrow>
             let n = backspaces k in kprint_times n (Text (replicate n BACKSPACE)) c)
      else
        (let c = c\<lparr>stdin_buf := stdin_buf c @ [key]\<rparr>
         in if echo c then kprint (Text (echo_text key)) c else c))"

text \<open>
  \<open>read_single_char\<close> polls the buffer until it is not empty, while the keyboard interrupt
  fills it. The argument lists the keys that arrive before each poll; \<open>None\<close> says that the
  call is still waiting after these polls.
\<close>

fun read_single_char :: "rchar list list \<Rightarrow> Console_state \<Rightarrow> (rchar \<times> rchar list list \<times> Console_state) option" where
  "read_single_char [] c = None"
| "read_single_char (keys # polls) c =
     (case stdin_pop (fold handle_key keys c) of
        (Some k, c) \<Rightarrow> Some (k, polls, c)
      | (None, c) \<Rightarrow> read_single_char polls c)"

text \<open>The loop of \<open>read\<close>: one character per byte of the buffer, truncated to 8 bits.\<close>

fun console_fill :: "nat \<Rightarrow> rchar list list \<Rightarrow> Console_state \<Rightarrow> (u8 list \<times> rchar list list \<times> Console_state) option" where
  "console_fill 0 polls c = Some ([], polls, c)"
| "console_fill (Suc n) polls c = (case read_single_char polls c of
      None \<Rightarrow> None
    | Some (k, polls, c) \<Rightarrow> (case console_fill n polls c of
        None \<Rightarrow> None
      | Some (bs, polls, c) \<Rightarrow> Some (ucast k # bs, polls, c)))"

definition Console_read :: "u8 list \<Rightarrow> rchar list list \<Rightarrow> Console_state
    \<Rightarrow> (((FileError, nat \<times> u8 list) outcome) \<times> rchar list list \<times> Console_state) option" where
  "Console_read buf polls c = (case console_fill (length buf) polls c of
      None \<Rightarrow> None
    | Some (bs, polls, c) \<Rightarrow> Some (Ok (length buf, bs), polls, c))"

definition Console_write :: "u8 list \<Rightarrow> (Console_state, FileError, nat) prog" where
  "Console_write buf c = (Ok (length buf), kprint (Lossy buf) c)"

definition Console_poll :: "IOEvent \<Rightarrow> bool" where
  "Console_poll event = True"

section \<open>Standard output and error\<close>

definition Stdout_read :: "(FileError, nat \<times> u8 list) outcome" where
  "Stdout_read = Err (ReadError (inner_from FsUnreadableFile))"

definition Stdout_write :: "u8 list \<Rightarrow> (Console_state, FileError, nat) prog" where
  "Stdout_write buf c = (Ok (length buf), kprint (Lossy buf) c)"

definition Stdout_poll :: "IOEvent \<Rightarrow> bool" where
  "Stdout_poll event = True"

definition Stderr_read :: "(FileError, nat \<times> u8 list) outcome" where
  "Stderr_read = Err (ReadError (inner_from FsUnreadableFile))"

definition Stderr_write :: "u8 list \<Rightarrow> (Console_state, FileError, nat) prog" where
  "Stderr_write buf c = (Ok (length buf), kprint (Lossy buf) c)"

definition Stderr_poll :: "IOEvent \<Rightarrow> bool" where
  "Stderr_poll event = True"

section \<open>What a descriptor can be\<close>

datatype 'r Device =
    DevStdin | DevStdout | DevStderr | DevNull Null | DevZero Zero | DevRand "'r Rand"

definition NUM_DEVICES :: nat where
  "NUM_DEVICES = 6"

text \<open>\<open>Device::try_from((number, flags))\<close>; \<open>now\<close> is the Unix time that seeds the generator.\<close>

definition Device_try_from :: "(u64 \<Rightarrow> 'r) \<Rightarrow> u64 \<Rightarrow> u8 \<Rightarrow> u8 \<Rightarrow> 'r Device option" where
  "Device_try_from seed_from_u64 now n flags =
     (if n = 0 then Some DevStdin
      else if n = 1 then Some DevStdout
      else if n = 2 then Some DevStderr
      else if n = 3 then Some (DevNull (Null_new flags))
      else if n = 4 then Some (DevZero (Zero_new flags))
      else if n = 5 then Some (DevRand (Rand_new seed_from_u64 now flags))
      else None)"

record ProcInfo =
  pi_pid :: u32
  pi_path :: string

datatype 'r File = FileFile FileHandle | FileDevice "'r Device" | FileProcInfo ProcInfo

section \<open>Lemmas\<close>

text \<open>Typed keys come back last first.\<close>

lemma read_buffered: "stdin_buf c = ks @ [k] \<Longrightarrow>
    read_single_char ([] # polls) c = Some (k, polls, c\<lparr>stdin_buf := ks\<rparr>)"
  by (simp add: stdin_pop_def)

lemma console_fill_buffered:
  "n \<le> length (stdin_buf c) \<Longrightarrow> console_fill n (replicate n [] @ polls) c =
     Some (map ucast (take n (rev (stdin_buf c))), polls,
       c\<lparr>stdin_buf := take (length (stdin_buf c) - n) (stdin_buf c)\<rparr>)"
proof (induction n arbitrary: c)
  case (Suc n)
  obtain ks k where ks: "stdin_buf c = ks @ [k]" using Suc.prems by (cases "stdin_buf c" rule: rev_cases) auto
  have "console_fill n (replicate n [] @ polls) (c\<lparr>stdin_buf := ks\<rparr>) =
      Some (map ucast (take n (rev ks)), polls, c\<lparr>stdin_buf := take (length ks - n) ks\<rparr>)"
    using Suc.IH [of "c\<lparr>stdin_buf := ks\<rparr>"] Suc.prems ks by simp
  then show ?case using ks Suc.prems
    by (simp add: read_buffered [OF ks] Suc_diff_le del: read_single_char.simps)
qed simp

lemma stdin_kprint [simp]: "stdin_buf (kprint t c) = stdin_buf c" "raw_mode (kprint t c) = raw_mode c"
  by (simp_all add: kprint_def)

lemma stdin_kprint_times [simp]: "stdin_buf (kprint_times n t c) = stdin_buf c"
    "raw_mode (kprint_times n t c) = raw_mode c"
  by (induction n arbitrary: c) simp_all

lemma handle_key_push: "key \<noteq> BACKSPACE \<or> raw_mode c \<Longrightarrow>
    stdin_buf (handle_key key c) = stdin_buf c @ [key] \<and> raw_mode (handle_key key c) = raw_mode c"
  by (auto simp: handle_key_def Let_def)

lemma handle_keys_push: "BACKSPACE \<notin> set keys \<Longrightarrow> stdin_buf (fold handle_key keys c) = stdin_buf c @ keys"
  by (induction keys arbitrary: c) (auto simp: handle_key_push)

section \<open>Properties\<close>

text \<open>
  Typed keys are read last first: after the keys \<open>ks\<close> are typed on an empty buffer, a
  read of as many bytes returns them in reverse.
\<close>

lemma console_reads_backwards:
  assumes "stdin_buf c = []" and "BACKSPACE \<notin> set keys" and "length buf = length keys"
  shows "\<exists>c'. Console_read buf (replicate (length keys) []) (fold handle_key keys c) =
      Some (Ok (length keys, map ucast (rev keys)), [], c') \<and> stdin_buf c' = []"
proof -
  have "stdin_buf (fold handle_key keys c) = keys" using assms by (simp add: handle_keys_push)
  then show ?thesis
    using console_fill_buffered [of "length keys" "fold handle_key keys c" "[]"] assms(3)
    by (simp add: Console_read_def)
qed

text \<open>The console at boot.\<close>

definition boot_console :: Console_state where
  "boot_console = \<lparr>stdin_buf = [], raw_mode = False, echo = True, screen = []\<rparr>"

lemma console_reads_backwards_example:
  "\<exists>c'. Console_read [0, 0] (replicate 2 []) (fold handle_key [0x61, 0x62] boot_console) =
    Some (Ok (2, [0x62, 0x61]), [], c')"
proof -
  let ?keys = "[0x61, 0x62] :: rchar list"
  have empty: "stdin_buf boot_console = []" and keys: "BACKSPACE \<notin> set ?keys"
    by (simp_all add: boot_console_def BACKSPACE_def)
  have len: "length [0 :: u8, 0] = length ?keys" by simp
  have eqs: "length ?keys = 2"
    "map ucast (rev ?keys) = [0x62, 0x61 :: u8]" by simp_all
  from console_reads_backwards [OF empty keys len] show ?thesis unfolding eqs by blast
qed

text \<open>
  A backspace takes back the key before it: in cooked mode it leaves the buffer as it
  was before that key was typed.
\<close>

lemma backspace_takes_back:
  assumes "key \<noteq> BACKSPACE" and "\<not> raw_mode c"
  shows "stdin_buf (handle_key BACKSPACE (handle_key key c)) = stdin_buf c"
  using assms handle_key_push [of key c]
  by (simp add: handle_key_def [of BACKSPACE] stdin_pop_def Let_def)

lemma backspace_takes_back_example:
  "stdin_buf (handle_key BACKSPACE (handle_key 0x61 boot_console)) = []"
  using backspace_takes_back [of "0x61" boot_console] by (simp add: BACKSPACE_def boot_console_def)

text \<open>Polling the zero and the null device is true exactly when the operation would be refused.\<close>

lemma device_poll_inverted:
  "Zero_poll z EventRead \<longleftrightarrow> Zero_read z buf = Err (PermissionError (inner_from FsReadError))"
  "Zero_poll z EventWrite \<longleftrightarrow> Zero_write z buf = Err (PermissionError (inner_from FsWriteError))"
  "Null_poll n EventRead \<longleftrightarrow> Null_read n buf = Err (PermissionError (inner_from FsReadError))"
  "Null_poll n EventWrite \<longleftrightarrow> Null_write n buf = Err (PermissionError (inner_from FsWriteError))"
  by (simp_all add: Zero_read_def Zero_write_def Null_read_def Null_write_def Null_poll_def)

end
