(* ===== verification/Process.thy ===== *)
theory Process
  imports Devices
begin

text \<open>
  The process table of \<open>kernel/src/internal/process.rs\<close>: process identifiers, the data and
  the file handles of a process, creation from a binary, the memory layout and the switch
  of \<open>exec\<close>, and \<open>exit\<close>.

  Paging is reached through the operations of \<open>memory.rs\<close> and the crate \<open>x86_64\<close>, collected
  in the record \<open>Mem_ops\<close> over a memory \<open>'m\<close>; the ELF parser is the crate \<open>object\<close>, the
  heap of a process the crate \<open>linked_list_allocator\<close>: all are arguments. \<open>'f\<close> is the saved
  interrupt frame, \<open>'h\<close> the heap, \<open>'r\<close> the random generator of \<open>Devices\<close>. The machine
  instructions that enter user mode are not modelled; \<open>exec\<close> is modelled up to them.
\<close>

section \<open>Data\<close>

definition MAX_HANDLES :: nat where
  "MAX_HANDLES = 64"

definition MAX_PROCS :: nat where
  "MAX_PROCS = 4"

definition MAX_PROC_SIZE :: nat where
  "MAX_PROC_SIZE = 10 * 2 ^ 20"

definition USER_ADDR :: u64 where
  "USER_ADDR = 0x800000"

definition ELF_MAGIC :: "u8 list" where
  "ELF_MAGIC = [0x7F, 0x45, 0x4C, 0x46]"

definition BIN_MAGIC :: "u8 list" where
  "BIN_MAGIC = [0x7F, 0x42, 0x49, 0x4E]"

record Registers =
  r11 :: u64
  r10 :: u64
  r9 :: u64
  r8 :: u64
  rdi :: u64
  rsi :: u64
  rdx :: u64
  rcx :: u64
  rax :: u64

datatype ExitCode =
    ExitSuccess | ExitFailure | ExitUsageError | ExitDataError | ExitOpenError | ExitReadError
  | ExitExecError | ExitPageFaultError | ExitShellExit

fun exit_code_value :: "ExitCode \<Rightarrow> u8" where
  "exit_code_value ExitSuccess = 0"
| "exit_code_value ExitFailure = 1"
| "exit_code_value ExitUsageError = 64"
| "exit_code_value ExitDataError = 65"
| "exit_code_value ExitOpenError = 128"
| "exit_code_value ExitReadError = 129"
| "exit_code_value ExitExecError = 130"
| "exit_code_value ExitPageFaultError = 200"
| "exit_code_value ExitShellExit = 255"

definition ExitCode_from :: "u8 \<Rightarrow> ExitCode" where
  "ExitCode_from code =
     (if code = 0 then ExitSuccess
      else if code = 1 then ExitFailure
      else if code = 64 then ExitUsageError
      else if code = 65 then ExitDataError
      else if code = 128 then ExitOpenError
      else if code = 129 then ExitReadError
      else if code = 130 then ExitExecError
      else if code = 200 then ExitPageFaultError
      else ExitShellExit)"

record 'r ProcessData =
  env :: "string \<rightharpoonup> string"
  dir :: string
  user :: "string option"
  handles :: "'r File option list"

definition ProcessData_new :: "string \<Rightarrow> string option \<Rightarrow> 'r ProcessData" where
  "ProcessData_new d u = \<lparr>env = Map.empty, dir = d, user = u,
     handles = (replicate MAX_HANDLES None)
       [0 := Some (FileDevice DevStdin), 1 := Some (FileDevice DevStdout),
        2 := Some (FileDevice DevStderr),
        3 := Some (FileDevice (DevNull (Null_new (flags_bitor FlagRead FlagWrite))))]\<rparr>"

record ('r, 'f, 'h) Process =
  p_pid :: nat
  p_ppid :: nat
  code_addr :: u64
  stack_addr :: u64
  entry_point_addr :: u64
  page_table_frame :: u64
  stack_frame :: "'f option"
  registers :: Registers
  p_data :: "'r ProcessData"
  allocator :: 'h

text \<open>The statics: \<open>PROCESS_TABLE\<close>, \<open>PID\<close>, \<open>MAX_PID\<close>, \<open>CODE_ADDR\<close>, and the memory.\<close>

record ('r, 'f, 'h, 'm) Procs =
  process_table :: "('r, 'f, 'h) Process list"
  cur_pid :: nat
  max_pid :: nat
  next_code_addr :: u64
  memory :: 'm

record 'm Mem_ops =
  mo_allocate_frame :: "'m \<Rightarrow> (unit, u64) outcome \<times> 'm"
  mo_copy_kernel_table :: "u64 \<Rightarrow> 'm \<Rightarrow> 'm"
  mo_alloc_pages :: "u64 \<Rightarrow> u64 \<Rightarrow> nat \<Rightarrow> 'm \<Rightarrow> (unit, unit) outcome \<times> 'm"
  mo_free_pages :: "u64 \<Rightarrow> u64 \<Rightarrow> nat \<Rightarrow> 'm \<Rightarrow> 'm"
  mo_user_accessible :: "u64 \<Rightarrow> u64 \<Rightarrow> 'm \<Rightarrow> bool"
  mo_read :: "u64 \<Rightarrow> nat \<Rightarrow> 'm \<Rightarrow> u8 list"
  mo_write :: "u64 \<Rightarrow> u8 list \<Rightarrow> 'm \<Rightarrow> 'm"
  mo_write_cr3 :: "u64 \<Rightarrow> 'm \<Rightarrow> 'm"

section \<open>The current process\<close>

definition init_process_addr :: "u64 \<Rightarrow> ('r, 'f, 'h, 'm) Procs \<Rightarrow> ('r, 'f, 'h, 'm) Procs" where
  "init_process_addr addr ps = ps\<lparr>next_code_addr := addr\<rparr>"

definition set_pid :: "nat \<Rightarrow> ('r, 'f, 'h, 'm) Procs \<Rightarrow> ('r, 'f, 'h, 'm) Procs" where
  "set_pid i ps = ps\<lparr>cur_pid := i\<rparr>"

text \<open>\<open>&table[pid()]\<close> and an update of \<open>&mut table[pid()]\<close>.\<close>

definition current :: "('r, 'f, 'h, 'm) Procs \<Rightarrow> ('e, ('r, 'f, 'h) Process) outcome" where
  "current ps = index (process_table ps) (cur_pid ps)"

definition update_current :: "(('r, 'f, 'h) Process \<Rightarrow> ('r, 'f, 'h) Process)
    \<Rightarrow> (('r, 'f, 'h, 'm) Procs, 'e, unit) prog" where
  "update_current f =
     bind (reads current) (\<lambda>p.
     modify (\<lambda>ps. ps\<lparr>process_table := (process_table ps)[cur_pid ps := f p]\<rparr>))"

definition get_env :: "string \<Rightarrow> ('r, 'f, 'h, 'm) Procs \<Rightarrow> ('e, string option) outcome" where
  "get_env key ps = obind (current ps) (\<lambda>p. Ok (env (p_data p) key))"

definition get_envs :: "('r, 'f, 'h, 'm) Procs \<Rightarrow> ('e, string \<rightharpoonup> string) outcome" where
  "get_envs ps = obind (current ps) (\<lambda>p. Ok (env (p_data p)))"

definition get_dir :: "('r, 'f, 'h, 'm) Procs \<Rightarrow> ('e, string) outcome" where
  "get_dir ps = obind (current ps) (\<lambda>p. Ok (dir (p_data p)))"

definition get_user :: "('r, 'f, 'h, 'm) Procs \<Rightarrow> ('e, string option) outcome" where
  "get_user ps = obind (current ps) (\<lambda>p. Ok (user (p_data p)))"

definition set_env :: "string \<Rightarrow> string \<Rightarrow> (('r, 'f, 'h, 'm) Procs, 'e, unit) prog" where
  "set_env key val = update_current (\<lambda>p. p\<lparr>p_data := (p_data p)\<lparr>env := (env (p_data p))(key \<mapsto> val)\<rparr>\<rparr>)"

definition set_dir :: "string \<Rightarrow> (('r, 'f, 'h, 'm) Procs, 'e, unit) prog" where
  "set_dir d = update_current (\<lambda>p. p\<lparr>p_data := (p_data p)\<lparr>dir := d\<rparr>\<rparr>)"

definition set_user :: "string \<Rightarrow> (('r, 'f, 'h, 'm) Procs, 'e, unit) prog" where
  "set_user u = update_current (\<lambda>p. p\<lparr>p_data := (p_data p)\<lparr>user := Some u\<rparr>\<rparr>)"

section \<open>Handles\<close>

definition set_handle :: "nat \<Rightarrow> 'r File option \<Rightarrow> (('r, 'f, 'h, 'm) Procs, 'e, unit) prog" where
  "set_handle handle f =
     bind (reads current) (\<lambda>p.
     bind (reads (\<lambda>_. index_set (handles (p_data p)) handle f)) (\<lambda>hs.
     update_current (\<lambda>p. p\<lparr>p_data := (p_data p)\<lparr>handles := hs\<rparr>\<rparr>)))"

fun first_free :: "'a option list \<Rightarrow> nat list \<Rightarrow> (unit, nat) outcome" where
  "first_free hs [] = Err ()"
| "first_free hs (h # rest) =
     obind (index hs h) (\<lambda>slot. if slot = None then Ok h else first_free hs rest)"

definition create_handle :: "'r File \<Rightarrow> (('r, 'f, 'h, 'm) Procs, unit, nat) prog" where
  "create_handle f =
     bind (reads current) (\<lambda>p.
     bind (reads (\<lambda>_. first_free (handles (p_data p)) [4..<MAX_HANDLES])) (\<lambda>handle.
     bind (set_handle handle (Some f)) (\<lambda>_. ret handle)))"

definition get_handles :: "('r, 'f, 'h, 'm) Procs \<Rightarrow> ('e, 'r File option list) outcome" where
  "get_handles ps = obind (current ps) (\<lambda>p. Ok (handles (p_data p)))"

definition update_handle :: "nat \<Rightarrow> 'r File \<Rightarrow> (('r, 'f, 'h, 'm) Procs, 'e, unit) prog" where
  "update_handle handle f = set_handle handle (Some f)"

definition delete_handle :: "nat \<Rightarrow> (('r, 'f, 'h, 'm) Procs, 'e, unit) prog" where
  "delete_handle handle = set_handle handle None"

definition get_handle :: "nat \<Rightarrow> ('r, 'f, 'h, 'm) Procs \<Rightarrow> ('e, 'r File option) outcome" where
  "get_handle handle ps = obind (current ps) (\<lambda>p. index (handles (p_data p)) handle)"

section \<open>Addresses and registers\<close>

definition get_code_addr :: "('r, 'f, 'h, 'm) Procs \<Rightarrow> ('e, u64) outcome" where
  "get_code_addr ps = obind (current ps) (\<lambda>p. Ok (code_addr p))"

definition set_code_addr :: "u64 \<Rightarrow> (('r, 'f, 'h, 'm) Procs, 'e, unit) prog" where
  "set_code_addr addr = update_current (\<lambda>p. p\<lparr>code_addr := addr\<rparr>)"

text \<open>\<open>u64\<close> addition and subtraction of the debug profile.\<close>

definition u64_add :: "u64 \<Rightarrow> u64 \<Rightarrow> ('e, u64) outcome" where
  "u64_add a b = (if unat a + unat b < 2 ^ 64 then Ok (a + b) else Panic)"

definition u64_sub :: "u64 \<Rightarrow> u64 \<Rightarrow> ('e, u64) outcome" where
  "u64_sub a b = (if b \<le> a then Ok (a - b) else Panic)"

definition ptr_from_addr :: "u64 \<Rightarrow> ('r, 'f, 'h, 'm) Procs \<Rightarrow> ('e, u64) outcome" where
  "ptr_from_addr addr ps =
     obind (get_code_addr ps) (\<lambda>base. if addr < base then u64_add base addr else Ok addr)"

definition get_registers :: "('r, 'f, 'h, 'm) Procs \<Rightarrow> ('e, Registers) outcome" where
  "get_registers ps = obind (current ps) (\<lambda>p. Ok (registers p))"

definition set_registers :: "Registers \<Rightarrow> (('r, 'f, 'h, 'm) Procs, 'e, unit) prog" where
  "set_registers regs = update_current (\<lambda>p. p\<lparr>registers := regs\<rparr>)"

definition get_stack_frame :: "('r, 'f, 'h, 'm) Procs \<Rightarrow> ('e, 'f) outcome" where
  "get_stack_frame ps = obind (current ps) (\<lambda>p.
     case stack_frame p of None \<Rightarrow> Panic | Some f \<Rightarrow> Ok f)"

definition set_stack_frame :: "'f \<Rightarrow> (('r, 'f, 'h, 'm) Procs, 'e, unit) prog" where
  "set_stack_frame f = update_current (\<lambda>p. p\<lparr>stack_frame := Some f\<rparr>)"

definition is_userspace :: "u64 \<Rightarrow> bool" where
  "is_userspace addr \<longleftrightarrow> USER_ADDR \<le> addr \<and> addr \<le> USER_ADDR + word_of_nat MAX_PROC_SIZE"

section \<open>Creation\<close>

definition Process_new :: "u64 \<Rightarrow> 'h \<Rightarrow> ('r, 'f, 'h) Process" where
  "Process_new cr3 empty_heap = \<lparr>p_pid = 0, p_ppid = 0, code_addr = 0, stack_addr = 0,
     entry_point_addr = 0, page_table_frame = cr3, stack_frame = None,
     registers = \<lparr>r11 = 0, r10 = 0, r9 = 0, r8 = 0, rdi = 0, rsi = 0, rdx = 0, rcx = 0, rax = 0\<rparr>,
     p_data = ProcessData_new ''/'' None, allocator = empty_heap\<rparr>"

definition on_memory :: "('m, 'e, 'a) prog \<Rightarrow> (('r, 'f, 'h, 'm) Procs, 'e, 'a) prog" where
  "on_memory f ps = (case f (memory ps) of (r, mem) \<Rightarrow> (r, ps\<lparr>memory := mem\<rparr>))"

definition load_binary :: "'m Mem_ops \<Rightarrow> u64 \<Rightarrow> u64 \<Rightarrow> nat \<Rightarrow> u8 list \<Rightarrow> ('m, unit, unit) prog" where
  "load_binary mo frame addr sz buf =
     (if sz < length buf then panic
      else bind (mo_alloc_pages mo frame addr sz) (\<lambda>_.
           modify (\<lambda>mem. mo_write mo addr (buf @ replicate (sz - length buf) 0) mem)))"

text \<open>
  \<open>parse bin\<close> is the entry point and the segments (address, size, data) of an ELF binary,
  \<open>None\<close> where \<open>object::File::parse\<close> fails; a segment whose data cannot be read is skipped.
\<close>

type_synonym elf_parser = "u8 list \<Rightarrow> (u64 \<times> (u64 \<times> u64 \<times> u8 list option) list) option"

definition load_segment :: "'m Mem_ops \<Rightarrow> u64 \<Rightarrow> u64 \<Rightarrow> u64 \<times> u64 \<times> u8 list option \<Rightarrow> ('m, unit, unit) prog" where
  "load_segment mo frame base seg = (case seg of (address, sz, bytes) \<Rightarrow>
     (case bytes of
        None \<Rightarrow> ret ()
      | Some d \<Rightarrow> bind (reads (\<lambda>_. u64_add base address)) (\<lambda>addr.
          load_binary mo frame addr (unat sz) d)))"

definition load_image :: "'m Mem_ops \<Rightarrow> elf_parser \<Rightarrow> u64 \<Rightarrow> u64 \<Rightarrow> u8 list \<Rightarrow> ('m, unit, u64) prog" where
  "load_image mo parse frame base bin =
     bind (reads (\<lambda>_. slice bin 0 4)) (\<lambda>magic.
     if magic = ELF_MAGIC then
       (case parse bin of
          None \<Rightarrow> ret 0
        | Some (entry, segments) \<Rightarrow>
            bind (for_each (load_segment mo frame base) segments) (\<lambda>_. ret entry))
     else if magic = BIN_MAGIC then
       bind (load_binary mo frame base (length bin - 4) (drop 4 bin)) (\<lambda>_. ret 0)
     else throw ())"

text \<open>
  The first part of \<open>create\<close>: a page table, the next code address (\<open>CODE_ADDR.fetch_add\<close>
  returns the old value), the stack address, and the binary in memory. It returns the
  frame of the page table, the code and stack addresses and the entry point.
\<close>

definition load_process :: "'m Mem_ops \<Rightarrow> elf_parser \<Rightarrow> u8 list
    \<Rightarrow> (('r, 'f, 'h, 'm) Procs, unit, u64 \<times> u64 \<times> u64 \<times> u64) prog" where
  "load_process mo parse bin =
     bind (expect_prog (on_memory (mo_allocate_frame mo))) (\<lambda>frame.
     bind (on_memory (modify (mo_copy_kernel_table mo frame))) (\<lambda>_.
     bind (reads (\<lambda>ps. Ok (next_code_addr ps))) (\<lambda>base.
     bind (modify (\<lambda>ps. ps\<lparr>next_code_addr := base + word_of_nat MAX_PROC_SIZE\<rparr>)) (\<lambda>_.
     bind (reads (\<lambda>_. obind (u64_add base (word_of_nat MAX_PROC_SIZE)) (\<lambda>top. u64_sub top 4096))) (\<lambda>stack.
     bind (on_memory (load_image mo parse frame base bin)) (\<lambda>entry.
     ret (frame, base, stack, entry)))))))"

text \<open>The second part: the entry in the table, under the identifier \<open>MAX_PID.fetch_add\<close> returns.\<close>

definition register_process :: "'h \<Rightarrow> u64 \<times> u64 \<times> u64 \<times> u64 \<Rightarrow> (('r, 'f, 'h, 'm) Procs, unit, nat) prog" where
  "register_process empty_heap = (\<lambda>(frame, base, stack, entry).
     bind (reads current) (\<lambda>parent.
     bind (reads (\<lambda>ps. Ok (max_pid ps))) (\<lambda>i.
     bind (modify (\<lambda>ps. ps\<lparr>max_pid := i + 1\<rparr>)) (\<lambda>_.
     let proc = \<lparr>p_pid = i, p_ppid = p_pid parent, code_addr = base, stack_addr = stack,
           entry_point_addr = entry, page_table_frame = frame, stack_frame = stack_frame parent,
           registers = registers parent, p_data = p_data parent, allocator = empty_heap\<rparr>
     in bind (reads (\<lambda>ps. index_set (process_table ps) i proc)) (\<lambda>t.
        bind (modify (\<lambda>ps. ps\<lparr>process_table := t\<rparr>)) (\<lambda>_. ret i))))))"

definition Process_create :: "'m Mem_ops \<Rightarrow> elf_parser \<Rightarrow> 'h \<Rightarrow> u8 list
    \<Rightarrow> (('r, 'f, 'h, 'm) Procs, unit, nat) prog" where
  "Process_create mo parse empty_heap bin =
     bind (reads (\<lambda>ps. if MAX_PROCS \<le> max_pid ps then Err () else Ok ())) (\<lambda>_.
     bind (load_process mo parse bin) (\<lambda>loaded.
     register_process empty_heap loaded))"

section \<open>Running and leaving\<close>

text \<open>The argument page in the middle of the process's memory, and the heap behind it with its size.\<close>

definition args_address :: "('r, 'f, 'h) Process \<Rightarrow> ('e, u64) outcome" where
  "args_address p = obind (u64_sub (stack_addr p) (code_addr p)) (\<lambda>d. u64_add (code_addr p) (d div 2))"

definition heap_layout :: "('r, 'f, 'h) Process \<Rightarrow> u64 \<Rightarrow> ('e, u64 \<times> u64) outcome" where
  "heap_layout p args_addr =
     obind (u64_add args_addr 4096) (\<lambda>heap_addr.
     obind (u64_sub (stack_addr p) heap_addr) (\<lambda>rest. Ok (heap_addr, rest div 2)))"

text \<open>
  The arguments are a slice of string references in memory, each an address and a length of
  eight bytes. \<open>exec\<close> copies the strings one behind the other, and then the references to
  the copies, at the next multiple of eight.
\<close>

definition read_str_ref :: "'m Mem_ops \<Rightarrow> u64 \<Rightarrow> 'm \<Rightarrow> u64 \<times> u64" where
  "read_str_ref mo r mem = (from_le_bytes (mo_read mo r 8 mem), from_le_bytes (mo_read mo (r + 8) 8 mem))"

definition write_str_refs :: "'m Mem_ops \<Rightarrow> u64 \<Rightarrow> (u64 \<times> u64) list \<Rightarrow> 'm \<Rightarrow> 'm" where
  "write_str_refs mo r refs = mo_write mo r (concat (map (\<lambda>(p, n). to_le_bytes p @ to_le_bytes n) refs))"

fun copy_strs :: "'m Mem_ops \<Rightarrow> u64 list \<Rightarrow> u64 \<Rightarrow> ('m, 'e, (u64 \<times> u64) list \<times> u64) prog" where
  "copy_strs mo [] addr = ret ([], addr)"
| "copy_strs mo (r # rs) addr =
     bind (reads (\<lambda>mem. Ok (read_str_ref mo r mem))) (\<lambda>(p, n).
     bind (reads (\<lambda>_. u64_add addr n)) (\<lambda>addr'.
     bind (modify (\<lambda>mem. mo_write mo addr (mo_read mo p (unat n) mem) mem)) (\<lambda>_.
     bind (copy_strs mo rs addr') (\<lambda>(copies, top). ret ((addr, n) # copies, top)))))"

definition copy_args :: "'m Mem_ops \<Rightarrow> u64 \<Rightarrow> nat \<Rightarrow> u64 \<Rightarrow> ('m, 'e, u64) prog" where
  "copy_args mo ptr n args_addr =
     bind (copy_strs mo (map (\<lambda>i. ptr + word_of_nat (16 * i)) [0..<n]) args_addr) (\<lambda>(copies, addr).
     bind (reads (\<lambda>_. u64_add addr (8 - addr mod 8))) (\<lambda>refs.
     bind (modify (write_str_refs mo refs copies)) (\<lambda>_. ret refs)))"

text \<open>What \<open>iretq\<close> finds on the stack and in the argument registers: the user's \<open>RSP\<close>, \<open>RIP\<close>, \<open>RDI\<close> and \<open>RSI\<close>.\<close>

record user_entry =
  ue_rsp :: u64
  ue_rip :: u64
  ue_rdi :: u64
  ue_rsi :: nat

text \<open>
  \<open>heap_init\<close> is \<open>LockedHeap::init\<close>; the allocator is shared with the entry of the table. The
  page of the arguments is mapped in the page table of the process that is still running.
\<close>

definition Process_exec :: "'m Mem_ops \<Rightarrow> (u64 \<Rightarrow> u64 \<Rightarrow> 'h \<Rightarrow> 'h) \<Rightarrow> u64 \<Rightarrow> nat \<Rightarrow> ('r, 'f, 'h) Process
    \<Rightarrow> (('r, 'f, 'h, 'm) Procs, unit, user_entry) prog" where
  "Process_exec mo heap_init args_ptr args_len p =
     bind (reads current) (\<lambda>here.
     bind (reads (\<lambda>_. args_address p)) (\<lambda>args_addr.
     bind (expect_prog (on_memory (mo_alloc_pages mo (page_table_frame here) args_addr 1))) (\<lambda>_.
     bind (reads (ptr_from_addr args_ptr)) (\<lambda>ptr.
     bind (on_memory (copy_args mo ptr args_len args_addr)) (\<lambda>refs.
     bind (reads (\<lambda>_. heap_layout p args_addr)) (\<lambda>(heap_addr, heap_size).
     bind (modify (\<lambda>ps. ps\<lparr>process_table := (process_table ps)
        [p_pid p := (process_table ps ! p_pid p)\<lparr>allocator := heap_init heap_addr heap_size (allocator p)\<rparr>]\<rparr>)) (\<lambda>_.
     bind (modify (set_pid (p_pid p))) (\<lambda>_.
     bind (on_memory (modify (mo_write_cr3 mo (page_table_frame p)))) (\<lambda>_.
     bind (reads (\<lambda>_. u64_add (code_addr p) (entry_point_addr p))) (\<lambda>rip.
     ret \<lparr>ue_rsp = stack_addr p, ue_rip = rip, ue_rdi = refs, ue_rsi = args_len\<rparr>))))))))))"

text \<open>On success the machine continues in the child, at the entry that is returned here.\<close>

definition Process_spawn :: "'m Mem_ops \<Rightarrow> elf_parser \<Rightarrow> 'h \<Rightarrow> (u64 \<Rightarrow> u64 \<Rightarrow> 'h \<Rightarrow> 'h)
    \<Rightarrow> u8 list \<Rightarrow> u64 \<Rightarrow> nat \<Rightarrow> (('r, 'f, 'h, 'm) Procs, ExitCode, user_entry) prog" where
  "Process_spawn mo parse empty_heap heap_init bin args_ptr args_len =
     bind (map_err_prog (\<lambda>_. ExitExecError) (Process_create mo parse empty_heap bin)) (\<lambda>i.
     bind (reads (\<lambda>ps. index (process_table ps) i)) (\<lambda>p.
     expect_prog (Process_exec mo heap_init args_ptr args_len p)))"

text \<open>\<open>alloc\<close> and \<open>free\<close> on the heap of the running process; a pointer outside the heap is left alone.\<close>

definition process_alloc :: "('l \<Rightarrow> 'h \<Rightarrow> u64 \<times> 'h) \<Rightarrow> 'l \<Rightarrow> (('r, 'f, 'h, 'm) Procs, 'e, u64) prog" where
  "process_alloc heap_alloc layout =
     bind (reads current) (\<lambda>p.
     case heap_alloc layout (allocator p) of (ptr, heap) \<Rightarrow>
       bind (update_current (\<lambda>p. p\<lparr>allocator := heap\<rparr>)) (\<lambda>_. ret ptr))"

definition process_free :: "('h \<Rightarrow> u64) \<Rightarrow> ('h \<Rightarrow> u64) \<Rightarrow> (u64 \<Rightarrow> 'l \<Rightarrow> 'h \<Rightarrow> 'h) \<Rightarrow> u64 \<Rightarrow> 'l
    \<Rightarrow> (('r, 'f, 'h, 'm) Procs, 'e, unit) prog" where
  "process_free heap_bottom heap_top dealloc ptr layout =
     bind (reads current) (\<lambda>p.
     if heap_bottom (allocator p) \<le> ptr \<and> ptr < heap_top (allocator p)
     then update_current (\<lambda>p. p\<lparr>allocator := dealloc ptr layout (allocator p)\<rparr>)
     else ret ())"

definition free_process_pages :: "'m Mem_ops \<Rightarrow> ('r, 'f, 'h) Process \<Rightarrow> 'm \<Rightarrow> 'm" where
  "free_process_pages mo p mem =
     (let mem = mo_free_pages mo (page_table_frame p) (code_addr p) MAX_PROC_SIZE mem
      in if mo_user_accessible mo (page_table_frame p) USER_ADDR mem
         then mo_free_pages mo (page_table_frame p) USER_ADDR MAX_PROC_SIZE mem else mem)"

text \<open>\<open>MAX_PID.fetch_sub\<close> wraps around.\<close>

definition process_exit :: "'m Mem_ops \<Rightarrow> (('r, 'f, 'h, 'm) Procs, 'e, unit) prog" where
  "process_exit mo =
     bind (reads current) (\<lambda>p.
     bind (modify (\<lambda>ps. ps\<lparr>max_pid := (if max_pid ps = 0 then usize_max else max_pid ps - 1)\<rparr>)) (\<lambda>_.
     bind (modify (set_pid (p_ppid p))) (\<lambda>_.
     bind (reads current) (\<lambda>parent.
     bind (on_memory (modify (mo_write_cr3 mo (page_table_frame parent)))) (\<lambda>_.
     on_memory (modify (free_process_pages mo p)))))))"

section \<open>What creation and exit change\<close>

text \<open>Two states that differ at most in the memory and the next code address.\<close>

definition same_procs :: "('r, 'f, 'h, 'm) Procs \<Rightarrow> ('r, 'f, 'h, 'm) Procs \<Rightarrow> bool" where
  "same_procs ps ps' \<longleftrightarrow> process_table ps' = process_table ps \<and> cur_pid ps' = cur_pid ps \<and>
     max_pid ps' = max_pid ps"

lemma same_procs_refl [simp]: "same_procs ps ps"
  by (simp add: same_procs_def)

lemma keeps_on_memory [intro]: "keeps (same_procs ps) (on_memory f)"
  by (rule keepsI) (auto simp: on_memory_def same_procs_def split: prod.splits)

lemma keeps_expect_prog [intro]: "keeps I m \<Longrightarrow> keeps I (expect_prog m)"
  by (auto simp: keeps_def expect_prog_def split: prod.splits)

lemma current_same: "same_procs ps ps' \<Longrightarrow> current ps' = current ps"
  by (simp add: same_procs_def current_def)

lemma load_process_same: "keeps (same_procs ps) (load_process mo parse bin)"
  unfolding load_process_def by (intro keeps_bind) (auto intro!: keeps_modify simp: same_procs_def)

lemma on_memory_Ok: "on_memory f ps = (Ok x, ps') \<longleftrightarrow> (\<exists>mem. f (memory ps) = (Ok x, mem) \<and> ps' = ps\<lparr>memory := mem\<rparr>)"
  by (auto simp: on_memory_def split: prod.splits)

lemma expect_prog_Ok: "expect_prog m s = (Ok x, s') \<longleftrightarrow> m s = (Ok x, s')"
  by (auto simp: expect_prog_def split: prod.splits)

lemma on_memory_code_addr: "on_memory f ps = (r, ps') \<Longrightarrow> next_code_addr ps' = next_code_addr ps"
  by (auto simp: on_memory_def split: prod.splits)

lemma load_process_Ok:
  assumes "load_process mo parse bin ps = (Ok (frame, base, stack, entry), ps')"
  shows "base = next_code_addr ps" and "next_code_addr ps' = base + word_of_nat MAX_PROC_SIZE"
    and "stack = base + word_of_nat MAX_PROC_SIZE - 4096" and "unat base + MAX_PROC_SIZE < 2 ^ 64"
  using assms
  by (auto simp: load_process_def bind_eq_Ok expect_prog_def reads_def modify_def ret_def u64_add_def
      u64_sub_def MAX_PROC_SIZE_def split: prod.splits if_splits dest!: on_memory_code_addr)

text \<open>
  A successful creation: the new entry takes the next free identifier, has the current
  process as its parent and inherits its data, and lies at the next code address.
\<close>

lemma Process_create_Ok:
  assumes "Process_create mo parse eh bin ps = (Ok i, ps')"
  obtains parent proc where "i = max_pid ps" and "i < MAX_PROCS" and "max_pid ps' = Suc i"
    and "cur_pid ps' = cur_pid ps" and "current ps = (Ok parent :: (unit, _) outcome)"
    and "i < length (process_table ps)" and "process_table ps' = (process_table ps)[i := proc]"
    and "p_pid proc = i" and "p_ppid proc = p_pid parent" and "p_data proc = p_data parent"
    and "code_addr proc = next_code_addr ps" and "allocator proc = eh"
    and "stack_addr proc = next_code_addr ps + word_of_nat MAX_PROC_SIZE - 4096"
    and "next_code_addr ps' = next_code_addr ps + word_of_nat MAX_PROC_SIZE"
    and "unat (next_code_addr ps) + MAX_PROC_SIZE < 2 ^ 64"
proof -
  obtain frame base stack entry ps1 where lt: "max_pid ps < MAX_PROCS"
    and load: "load_process mo parse bin ps = (Ok (frame, base, stack, entry), ps1)"
    and reg: "register_process eh (frame, base, stack, entry) ps1 = (Ok i, ps')"
    using assms by (auto simp: Process_create_def bind_eq_Ok reads_def split: if_splits)
  have same: "same_procs ps ps1" using keepsD [OF load_process_same, of ps ps mo parse bin] load by simp
  note facts = load_process_Ok [OF load]
  obtain parent where par: "current ps1 = (Ok parent :: (unit, _) outcome)" and i: "i = max_pid ps1"
    and len: "i < length (process_table ps1)"
    and ps': "ps' = ps1\<lparr>max_pid := i + 1, process_table := (process_table ps1)[i := \<lparr>p_pid = i,
        p_ppid = p_pid parent, code_addr = base, stack_addr = stack, entry_point_addr = entry,
        page_table_frame = frame, stack_frame = stack_frame parent, registers = registers parent,
        p_data = p_data parent, allocator = eh\<rparr>]\<rparr>"
    using reg by (auto simp: register_process_def bind_eq_Ok reads_def modify_def ret_def Let_def
        index_set_def split: if_splits)
  define proc where "proc = \<lparr>p_pid = i, p_ppid = p_pid parent, code_addr = base, stack_addr = stack,
    entry_point_addr = entry, page_table_frame = frame, stack_frame = stack_frame parent,
    registers = registers parent, p_data = p_data parent, allocator = eh\<rparr>"
  have "ps' = ps1\<lparr>max_pid := i + 1, process_table := (process_table ps1)[i := proc]\<rparr>"
    by (simp add: ps' proc_def)
  moreover have "current ps = (Ok parent :: (unit, _) outcome)" using par by (simp add: current_same [OF same])
  ultimately show thesis
    using that [of parent proc] lt facts same len
    by (simp add: i same_procs_def) (simp add: proc_def i)
qed

lemma Process_create_Err:
  assumes "Process_create mo parse eh bin ps = (Err e, ps')"
  shows "same_procs ps ps'"
proof -
  have "ps' = ps \<or> (\<exists>r ps1. load_process mo parse bin ps = (r, ps1) \<and> ps' = ps1)"
    using assms by (auto simp: Process_create_def register_process_def run_simps Let_def current_def
        index_def index_set_def split: if_splits prod.splits outcome.splits)
  then show ?thesis using keepsD [OF load_process_same, of ps ps mo parse bin] by auto
qed

section \<open>The stack of processes\<close>

text \<open>
  The invariant of the table while processes are spawned and exit: the live processes are
  the entries below \<open>MAX_PID\<close>, each the child of the one before it, and the running one is
  the last.
\<close>

definition stacked :: "('r, 'f, 'h, 'm) Procs \<Rightarrow> bool" where
  "stacked ps \<longleftrightarrow> length (process_table ps) = MAX_PROCS \<and> max_pid ps = Suc (cur_pid ps) \<and>
     max_pid ps \<le> MAX_PROCS \<and>
     (\<forall>k < max_pid ps. p_pid (process_table ps ! k) = k \<and> p_ppid (process_table ps ! k) = k - 1)"

lemma stacked_same: "same_procs ps ps' \<Longrightarrow> stacked ps' = stacked ps"
  by (simp add: stacked_def same_procs_def)

lemma stacked_current: "stacked ps \<Longrightarrow> current ps = Ok (process_table ps ! cur_pid ps)"
  by (simp add: stacked_def current_def index_def)

lemma expect_not_Err [simp]: "expect m \<noteq> Err e" "Err e \<noteq> expect m"
  by (cases m; simp)+

lemma Process_exec_pids:
  assumes "Process_exec mo heap_init args_ptr args_len p ps = (Ok e, ps')"
  shows "cur_pid ps' = p_pid p \<and> max_pid ps' = max_pid ps \<and>
    map p_pid (process_table ps') = map p_pid (process_table ps) \<and>
    map p_ppid (process_table ps') = map p_ppid (process_table ps)"
proof -
  have same: "map p_pid (xs[k := (xs ! k)\<lparr>allocator := a\<rparr>]) = map p_pid xs"
    "map p_ppid (xs[k := (xs ! k)\<lparr>allocator := a\<rparr>]) = map p_ppid xs"
    for xs :: "('r, 'f, 'h) Process list" and k a
    by (cases "k < length xs"; simp add: map_update list_update_same_conv list_update_beyond)+
  show ?thesis using assms
    by (auto simp: Process_exec_def bind_eq_Ok reads_def modify_def ret_def expect_prog_Ok on_memory_Ok
        set_pid_def same)
qed

lemma nth_map_eq: "map f xs = map f ys \<Longrightarrow> k < length xs \<Longrightarrow> f (xs ! k) = f (ys ! k)"
  by (metis length_map nth_map)

lemma spawn_stacked:
  assumes st: "stacked ps" and run: "Process_spawn mo parse eh hi bin ap an ps = (r, ps')" and "r \<noteq> Panic"
  shows "stacked ps'"
proof (cases "Process_create mo parse eh bin ps")
  case (Pair c ps1)
  show ?thesis
  proof (cases c)
    case (Err e)
    then have "ps' = ps1" using run Pair by (simp add: Process_spawn_def run_simps)
    then show ?thesis using Process_create_Err [of mo parse eh bin ps] Pair Err st by (simp add: stacked_same)
  next
    case Panic
    then show ?thesis using run Pair assms(3) by (auto simp: Process_spawn_def run_simps)
  next
    case (Ok i)
    obtain parent proc where i: "i = max_pid ps" "i < MAX_PROCS" "max_pid ps1 = Suc i"
      and cur: "cur_pid ps1 = cur_pid ps" and par: "current ps = (Ok parent :: (unit, _) outcome)"
      and len: "i < length (process_table ps)" and table: "process_table ps1 = (process_table ps)[i := proc]"
      and proc: "p_pid proc = i" "p_ppid proc = p_pid parent"
      using Process_create_Ok [of mo parse eh bin ps i ps1] Pair Ok by metis
    have "expect_prog (Process_exec mo hi ap an proc) ps1 = (r, ps')"
      using run Pair Ok len table by (simp add: Process_spawn_def run_simps index_def)
    then obtain r' where exec: "Process_exec mo hi ap an proc ps1 = (r', ps')" and "r = expect r'"
      by (cases "Process_exec mo hi ap an proc ps1") (auto simp: expect_prog_def)
    obtain e where "r' = Ok e" using assms(3) \<open>r = expect r'\<close> by (cases r') auto
    note pids = Process_exec_pids [OF exec [unfolded this]]
    have parent: "p_pid parent = cur_pid ps" using par st by (auto simp: stacked_current) (auto simp: stacked_def)
    have "p_pid (process_table ps' ! k) = k \<and> p_ppid (process_table ps' ! k) = k - 1" if "k < Suc i" for k
    proof -
      have "k < length (process_table ps1)" using that len by (simp add: table)
      then have "p_pid (process_table ps' ! k) = p_pid (process_table ps1 ! k)"
        "p_ppid (process_table ps' ! k) = p_ppid (process_table ps1 ! k)"
        using pids nth_map_eq [of p_pid "process_table ps1" "process_table ps'" k]
          nth_map_eq [of p_ppid "process_table ps1" "process_table ps'" k] by simp_all
      then show ?thesis
        using that len proc parent st i by (cases "k = i") (auto simp: table stacked_def)
    qed
    moreover have "length (process_table ps') = length (process_table ps)"
      using pids by (metis length_map length_list_update table)
    ultimately show ?thesis using st i pids proc by (simp add: stacked_def)
  qed
qed

lemma exit_stacked:
  assumes st: "stacked ps" and child: "cur_pid ps \<noteq> 0" and run: "process_exit mo ps = (r, ps')"
  shows "r = Ok () \<and> stacked ps' \<and> Suc (cur_pid ps') = cur_pid ps \<and> process_table ps' = process_table ps"
proof -
  have "p_ppid (process_table ps ! cur_pid ps) = cur_pid ps - 1" using st by (simp add: stacked_def)
  moreover have "cur_pid ps < length (process_table ps)" "max_pid ps = Suc (cur_pid ps)"
    "cur_pid ps - Suc 0 < length (process_table ps)"
    using st unfolding stacked_def by linarith+
  ultimately show ?thesis using run child st
    by (auto simp: process_exit_def run_simps current_def index_def set_pid_def on_memory_def stacked_def)
qed

text \<open>The entries up to the running process are left alone by a spawn.\<close>

lemma Process_exec_table:
  assumes "Process_exec mo heap_init args_ptr args_len p ps = (Ok e, ps')" and "j \<noteq> p_pid p"
  shows "process_table ps' ! j = process_table ps ! j"
  using assms by (auto simp: Process_exec_def bind_eq_Ok reads_def modify_def ret_def expect_prog_Ok on_memory_Ok set_pid_def)

lemma spawn_below:
  assumes st: "stacked ps" and run: "Process_spawn mo parse eh hi bin ap an ps = (r, ps')" and "r \<noteq> Panic"
    and j: "j \<le> cur_pid ps"
  shows "process_table ps' ! j = process_table ps ! j"
proof (cases "Process_create mo parse eh bin ps")
  case (Pair c ps1)
  show ?thesis
  proof (cases c)
    case (Err e)
    then have "ps' = ps1" using run Pair by (simp add: Process_spawn_def run_simps)
    then show ?thesis using Process_create_Err [of mo parse eh bin ps] Pair Err by (simp add: same_procs_def)
  next
    case Panic
    then show ?thesis using run Pair assms(3) by (auto simp: Process_spawn_def run_simps)
  next
    case (Ok i)
    obtain proc where i: "i = max_pid ps" and len: "i < length (process_table ps)"
      and table: "process_table ps1 = (process_table ps)[i := proc]" and proc: "p_pid proc = i"
      using Process_create_Ok [of mo parse eh bin ps i ps1] Pair Ok by metis
    have "expect_prog (Process_exec mo hi ap an proc) ps1 = (r, ps')"
      using run Pair Ok len table by (simp add: Process_spawn_def run_simps index_def)
    then obtain e where exec: "Process_exec mo hi ap an proc ps1 = (Ok e, ps')"
      using assms(3) by (cases "Process_exec mo hi ap an proc ps1"; cases "fst (Process_exec mo hi ap an proc ps1)")
        (auto simp: expect_prog_def)
    have "j \<noteq> i" using j st i by (simp add: stacked_def)
    then show ?thesis using Process_exec_table [OF exec, of j] by (simp add: proc table)
  qed
qed

lemma spawn_entered:
  assumes st: "stacked ps" and run: "Process_spawn mo parse eh hi bin ap an ps = (Ok e, ps')"
  shows "cur_pid ps' = Suc (cur_pid ps)"
proof -
  obtain i ps1 proc where "Process_create mo parse eh bin ps = (Ok i, ps1)"
    and "index (process_table ps1) i = (Ok proc :: (ExitCode, _) outcome)"
    and "Process_exec mo hi ap an proc ps1 = (Ok e, ps')"
    using run by (auto simp: Process_spawn_def bind_eq_Ok reads_def expect_prog_Ok map_err_prog_def split: prod.splits outcome.splits)
  moreover from this(1) obtain proc' where "i = max_pid ps" "process_table ps1 = (process_table ps)[i := proc']" "p_pid proc' = i"
    "i < length (process_table ps)"
    by (rule Process_create_Ok) blast
  ultimately show ?thesis using Process_exec_pids st by (fastforce simp: index_def stacked_def split: if_splits)
qed

text \<open>Spawning and leaving as a transition system, from the table at boot.\<close>

inductive procs_step :: "'m Mem_ops \<Rightarrow> ('r, 'f, 'h, 'm) Procs \<Rightarrow> ('r, 'f, 'h, 'm) Procs \<Rightarrow> bool" for mo where
  step_spawn: "Process_spawn mo parse eh hi bin ap an ps = (r, ps') \<Longrightarrow> r \<noteq> Panic \<Longrightarrow> procs_step mo ps ps'"
| step_exit: "cur_pid ps \<noteq> 0 \<Longrightarrow> (process_exit mo ps :: (unit, unit) outcome \<times> _) = (r, ps') \<Longrightarrow> procs_step mo ps ps'"

inductive_cases procs_stepE: "procs_step mo ps ps'"

definition boot_procs :: "u64 \<Rightarrow> 'h \<Rightarrow> u64 \<Rightarrow> 'm \<Rightarrow> ('r, 'f, 'h, 'm) Procs" where
  "boot_procs cr3 empty_heap addr mem = \<lparr>process_table = replicate MAX_PROCS (Process_new cr3 empty_heap),
     cur_pid = 0, max_pid = 1, next_code_addr = addr, memory = mem\<rparr>"

lemma stacked_boot: "stacked (boot_procs cr3 eh addr mem)"
  by (simp add: stacked_def boot_procs_def MAX_PROCS_def Process_new_def)

lemma stacked_step: "procs_step mo ps ps' \<Longrightarrow> stacked ps \<Longrightarrow> stacked ps'"
  by (auto elim!: procs_stepE dest: spawn_stacked exit_stacked)

lemma stacked_steps: "(procs_step mo)\<^sup>*\<^sup>* ps ps' \<Longrightarrow> stacked ps \<Longrightarrow> stacked ps'"
  by (induction rule: rtranclp_induct) (auto dest: stacked_step)

section \<open>Handles of the current process\<close>

lemma first_free_find:
  "(\<And>h. h \<in> set hs' \<Longrightarrow> h < length hs) \<Longrightarrow> first_free hs hs' =
    (case find (\<lambda>h. hs ! h = None) hs' of None \<Rightarrow> Err () | Some h \<Rightarrow> Ok h)"
  by (induction hs') (auto simp: index_def)

lemma update_current_ok: "current ps = (Ok p :: ('e, _) outcome) \<Longrightarrow> update_current f ps =
    (Ok (), ps\<lparr>process_table := (process_table ps)[cur_pid ps := f p]\<rparr>)"
  by (simp add: update_current_def run_simps current_def index_def split: if_splits)

lemma unat_sub_add: "unat (b :: u64) \<le> unat a \<Longrightarrow> unat (a - b) + unat b = unat a"
  by (simp add: unat_sub word_le_nat_alt)

lemma unat_add_ok: "unat (a :: u64) + unat b < 2 ^ 64 \<Longrightarrow> unat (a + b) = unat a + unat b"
  using unat_add_lem [of a b] by simp

lemma unat_half: "unat (a div 2 :: u64) = unat a div 2"
  by (simp add: unat_div)

section \<open>Properties\<close>

text \<open>
  The processes form a stack: from boot on, whatever is spawned and whoever exits (but
  the kernel's own process 0), the live processes are the entries 0 to \<open>MAX_PID - 1\<close> of the
  table, each the child of the one before it, the running process is the last of them, and
  there are never more than four.
\<close>

lemma processes_stacked:
  assumes "(procs_step mo)\<^sup>*\<^sup>* (boot_procs cr3 empty_heap addr mem) ps"
  shows "length (process_table ps) = MAX_PROCS \<and> max_pid ps = Suc (cur_pid ps) \<and> max_pid ps \<le> MAX_PROCS \<and>
    (\<forall>k < max_pid ps. p_pid (process_table ps ! k) = k \<and> p_ppid (process_table ps ! k) = k - 1)"
  using stacked_steps [OF assms stacked_boot] by (simp add: stacked_def)

text \<open>Memory operations that always succeed, on a memory without contents.\<close>

definition idle_memory :: "unit Mem_ops" where
  "idle_memory = \<lparr>mo_allocate_frame = (\<lambda>m. (Ok 0x5000, m)), mo_copy_kernel_table = (\<lambda>_ m. m),
     mo_alloc_pages = (\<lambda>_ _ _ m. (Ok (), m)), mo_free_pages = (\<lambda>_ _ _ m. m),
     mo_user_accessible = (\<lambda>_ _ _. False), mo_read = (\<lambda>_ n _. replicate n 0), mo_write = (\<lambda>_ _ m. m), mo_write_cr3 = (\<lambda>_ m. m)\<rparr>"

definition sample_procs :: "(unit, unit, unit, unit) Procs" where
  "sample_procs = boot_procs 0x1000 () 0x1000000 ()"

definition sample_create :: "(unit, nat) outcome \<times> (unit, unit, unit, unit) Procs" where
  "sample_create = Process_create idle_memory (\<lambda>_. None) () (BIN_MAGIC @ [0x90]) sample_procs"

lemma sample_create_Ok: "fst sample_create = Ok 1"
  by (simp add: sample_create_def sample_procs_def boot_procs_def Process_create_def load_process_def
      register_process_def run_simps on_memory_def idle_memory_def load_image_def load_binary_def
      slice_def BIN_MAGIC_def ELF_MAGIC_def u64_add_def u64_sub_def MAX_PROC_SIZE_def MAX_PROCS_def
      current_def index_def index_set_def Let_def)

definition sample_spawn :: "(ExitCode, user_entry) outcome \<times> (unit, unit, unit, unit) Procs" where
  "sample_spawn = Process_spawn idle_memory (\<lambda>_. None) () (\<lambda>_ _ h. h) (BIN_MAGIC @ [0x90]) 0 0 sample_procs"

lemma sample_spawn_Ok: "fst sample_spawn = Ok \<lparr>ue_rsp = 0x19FF000, ue_rip = 0x1000000, ue_rdi = 0x14FF808, ue_rsi = 0\<rparr>"
  by (simp add: sample_spawn_def sample_procs_def boot_procs_def Process_spawn_def Process_create_def load_process_def
      register_process_def run_simps on_memory_def idle_memory_def load_image_def load_binary_def
      slice_def BIN_MAGIC_def ELF_MAGIC_def u64_add_def u64_sub_def MAX_PROC_SIZE_def MAX_PROCS_def
      current_def index_def index_set_def Let_def Process_exec_def args_address_def heap_layout_def ptr_from_addr_def
      get_code_addr_def copy_args_def write_str_refs_def Process_new_def set_pid_def word_less_nat_alt
      word_le_nat_alt)

lemma processes_stacked_example:
  "max_pid (snd sample_spawn) = Suc (cur_pid (snd sample_spawn)) \<and> max_pid (snd sample_spawn) \<le> MAX_PROCS"
proof -
  have ne: "fst sample_spawn \<noteq> Panic" by (simp add: sample_spawn_Ok)
  have "Process_spawn idle_memory (\<lambda>_. None) () (\<lambda>_ _ h. h) (BIN_MAGIC @ [0x90]) 0 0 sample_procs =
    (fst sample_spawn, snd sample_spawn)" by (simp add: sample_spawn_def)
  from step_spawn [OF this ne] have "procs_step idle_memory sample_procs (snd sample_spawn)" .
  then have "(procs_step idle_memory)\<^sup>*\<^sup>* (boot_procs 0x1000 () 0x1000000 ()) (snd sample_spawn)"
    unfolding sample_procs_def by (rule r_into_rtranclp)
  from processes_stacked [OF this] show ?thesis by simp
qed

text \<open>
  Creating a process: the child takes the identifier \<open>MAX_PID\<close>, has the running process
  as its parent, inherits its data, gets the next 10 MB of code addresses for itself, with
  the stack at their end, and no other entry of the table changes.
\<close>

lemma create_process:
  assumes "Process_create mo parse empty_heap bin ps = (Ok i, ps')"
  shows "\<exists>parent child. current ps = (Ok parent :: (unit, _) outcome) \<and> i = max_pid ps \<and> i < MAX_PROCS \<and>
    max_pid ps' = i + 1 \<and> cur_pid ps' = cur_pid ps \<and>
    process_table ps' = (process_table ps)[i := child] \<and>
    p_pid child = i \<and> p_ppid child = p_pid parent \<and> p_data child = p_data parent \<and>
    unat (code_addr child) + MAX_PROC_SIZE = unat (next_code_addr ps') \<and>
    unat (stack_addr child) + 4096 = unat (code_addr child) + MAX_PROC_SIZE"
proof -
  obtain parent child where c: "i = max_pid ps" "i < MAX_PROCS" "max_pid ps' = Suc i" "cur_pid ps' = cur_pid ps"
    "current ps = (Ok parent :: (unit, _) outcome)" "process_table ps' = (process_table ps)[i := child]"
    "p_pid child = i" "p_ppid child = p_pid parent" "p_data child = p_data parent"
    and addr: "code_addr child = next_code_addr ps"
      "stack_addr child = next_code_addr ps + word_of_nat MAX_PROC_SIZE - 4096"
      "next_code_addr ps' = next_code_addr ps + word_of_nat MAX_PROC_SIZE"
      "unat (next_code_addr ps) + MAX_PROC_SIZE < 2 ^ 64"
    using Process_create_Ok [OF assms] by metis
  have u: "unat (word_of_nat MAX_PROC_SIZE :: u64) = MAX_PROC_SIZE" by (simp add: MAX_PROC_SIZE_def)
  define top where "top = next_code_addr ps + word_of_nat MAX_PROC_SIZE"
  have top: "unat top = unat (next_code_addr ps) + MAX_PROC_SIZE"
    using addr(4) unat_add_ok [of "next_code_addr ps" "word_of_nat MAX_PROC_SIZE"] by (simp add: u top_def)
  then have "unat (4096 :: u64) \<le> unat top" by (simp add: MAX_PROC_SIZE_def)
  from unat_sub_add [OF this] have "unat (top - 4096) + 4096 = unat top" by simp
  then show ?thesis using c addr top by (auto simp: top_def)
qed

lemma create_process_example:
  "\<exists>child. process_table (snd sample_create) = (process_table sample_procs)[1 := child] \<and> p_pid child = 1"
  using create_process [of idle_memory "\<lambda>_. None" "()" "BIN_MAGIC @ [0x90]" sample_procs 1 "snd sample_create"]
    sample_create_Ok by (auto simp: sample_create_def prod_eq_iff)

text \<open>
  C32. The memory of a process that \<open>exec\<close> enters: the page of the arguments and the heap
  lie in order between the code and the stack, without overlap and without overflow.
\<close>

theorem exec_layout_bounds:
  assumes "unat (code_addr p) + MAX_PROC_SIZE < 2 ^ 64"
    and "unat (stack_addr p) + 4096 = unat (code_addr p) + MAX_PROC_SIZE"
  shows "\<exists>args heap n. args_address p = (Ok args :: ('e, _) outcome) \<and>
    heap_layout p args = (Ok (heap, n) :: ('e, _) outcome) \<and> unat (code_addr p) < unat args \<and>
    unat args + 4096 = unat heap \<and> unat heap + unat n < unat (stack_addr p)"
proof -
  define d where "d = stack_addr p - code_addr p"
  define args where "args = code_addr p + d div 2"
  define heap where "heap = args + 4096"
  define rest where "rest = stack_addr p - heap"
  have size: "MAX_PROC_SIZE = 10485760" by (simp add: MAX_PROC_SIZE_def)
  have le: "unat (code_addr p) \<le> unat (stack_addr p)" using assms by (simp add: size)
  have d: "unat d = 10481664" using unat_sub_add [OF le] assms(2) by (simp add: d_def size)
  have args: "unat args = unat (code_addr p) + 5240832"
    using unat_add_ok [of "code_addr p" "d div 2"] assms(1) d by (simp add: args_def unat_half size)
  have heap: "unat heap = unat args + 4096"
    using unat_add_ok [of args 4096] assms(1) args by (simp add: heap_def size)
  have le2: "unat heap \<le> unat (stack_addr p)" using assms(2) args heap by (simp add: size)
  have rest: "unat rest = 5236736" using unat_sub_add [OF le2] assms(2) args heap by (simp add: rest_def size)
  show ?thesis
  proof (intro exI conjI)
    show "args_address p = Ok args" using le args d assms
      by (simp add: args_address_def u64_sub_def u64_add_def word_le_nat_alt unat_half size flip: d_def args_def)
    show "heap_layout p args = Ok (heap, rest div 2)"
      using le le2 args heap d assms
      by (simp add: heap_layout_def u64_sub_def u64_add_def word_le_nat_alt unat_half size
          flip: heap_def rest_def)
  qed (use args heap rest assms(2) in \<open>simp_all add: unat_half size\<close>)
qed

definition sample_process :: "(unit, unit, unit) Process" where
  "sample_process = (Process_new 0x1000 ())\<lparr>code_addr := 0x1000000, stack_addr := 0x19FF000\<rparr>"

theorem exec_layout_bounds_witness:
  "\<exists>args heap n. args_address sample_process = (Ok args :: (unit, _) outcome) \<and>
    heap_layout sample_process args = (Ok (heap, n) :: (unit, _) outcome) \<and> unat heap + unat n < 0x19FF000"
proof -
  have "unat (code_addr sample_process) + MAX_PROC_SIZE < 2 ^ 64"
    "unat (stack_addr sample_process) + 4096 = unat (code_addr sample_process) + MAX_PROC_SIZE"
    by (simp_all add: sample_process_def MAX_PROC_SIZE_def)
  from exec_layout_bounds [OF this] have "\<exists>args heap n. args_address sample_process = (Ok args :: (unit, _) outcome) \<and>
    heap_layout sample_process args = (Ok (heap, n) :: (unit, _) outcome) \<and>
    unat heap + unat n < unat (stack_addr sample_process)" by blast
  then show ?thesis by (simp add: sample_process_def)
qed

text \<open>
  New handles: \<open>create_handle\<close> takes the first free slot from 4 on, stores the file there
  and changes no other slot; it fails exactly when no slot from 4 to 63 is free.
\<close>

lemma create_handle_spec:
  assumes "current ps = (Ok p :: (unit, _) outcome)" and "length (handles (p_data p)) = MAX_HANDLES"
  shows "case create_handle f ps of
      (Ok h, ps') \<Rightarrow> 4 \<le> h \<and> h < MAX_HANDLES \<and> handles (p_data p) ! h = None \<and>
        (\<forall>k. 4 \<le> k \<longrightarrow> k < h \<longrightarrow> handles (p_data p) ! k \<noteq> None) \<and>
        (\<exists>p'. current ps' = (Ok p' :: (unit, _) outcome) \<and> handles (p_data p') = (handles (p_data p))[h := Some f])
    | (Err _, ps') \<Rightarrow> ps' = ps \<and> (\<forall>k. 4 \<le> k \<longrightarrow> k < MAX_HANDLES \<longrightarrow> handles (p_data p) ! k \<noteq> None)
    | (Panic, _) \<Rightarrow> False"
proof -
  let ?hs = "handles (p_data p)"
  have cur: "cur_pid ps < length (process_table ps)" using assms(1) by (auto simp: current_def index_def split: if_splits)
  have ff: "first_free ?hs [4..<MAX_HANDLES] =
      (case find (\<lambda>h. ?hs ! h = None) [4..<MAX_HANDLES] of None \<Rightarrow> Err () | Some h \<Rightarrow> Ok h)"
    using assms(2) by (intro first_free_find) simp
  show ?thesis
  proof (cases "find (\<lambda>h. ?hs ! h = None) [4..<MAX_HANDLES]")
    case None
    then have "create_handle f ps = (Err (), ps)" using assms(1) ff by (simp add: create_handle_def bind_reads)
    then show ?thesis using None by (simp add: find_None_iff)
  next
    case (Some h)
    then obtain j where j: "j < length [4..<MAX_HANDLES]" "h = [4..<MAX_HANDLES] ! j"
      "?hs ! h = None" "\<forall>i < j. ?hs ! ([4..<MAX_HANDLES] ! i) \<noteq> None"
      unfolding find_Some_iff by blast
    then have h: "h = 4 + j" "h < MAX_HANDLES" by auto
    have low: "?hs ! k \<noteq> None" if "4 \<le> k" "k < h" for k
      using j(4) that h by (auto dest!: spec [of _ "k - 4"])
    have "create_handle f ps = (Ok h, ps\<lparr>process_table := (process_table ps)
        [cur_pid ps := p\<lparr>p_data := (p_data p)\<lparr>handles := ?hs[h := Some f]\<rparr>\<rparr>]\<rparr>)"
      using assms ff Some h(2)
      by (simp add: create_handle_def set_handle_def run_simps index_set_def update_current_ok [OF assms(1)])
    then show ?thesis using h j(3) low cur by (simp add: current_def index_def)
  qed
qed

lemma create_handle_spec_example:
  "\<exists>ps'. create_handle (FileDevice DevStdout) sample_procs = (Ok 4, ps')"
proof -
  let ?p = "Process_new 0x1000 () :: (unit, unit, unit) Process"
  have cur: "current sample_procs = (Ok ?p :: (unit, _) outcome)"
    by (simp add: sample_procs_def boot_procs_def current_def index_def MAX_PROCS_def)
  have len: "length (handles (p_data ?p)) = MAX_HANDLES"
    by (simp add: Process_new_def ProcessData_new_def)
  have free: "handles (p_data ?p) ! 4 = None"
    by (simp add: Process_new_def ProcessData_new_def MAX_HANDLES_def)
  show ?thesis
    using create_handle_spec [OF cur len, of "FileDevice DevStdout"] free
    by (auto simp: MAX_HANDLES_def split: prod.splits outcome.splits)
qed

text \<open>An exit code survives its conversion to a byte and back.\<close>

lemma exit_code_roundtrip: "ExitCode_from (exit_code_value c) = c"
  by (cases c) (simp_all add: ExitCode_from_def)

text \<open>
  Process 0 may exit as well: then \<open>MAX_PID\<close> falls to 0, and the next process created
  takes identifier 0 and overwrites the kernel's own entry.
\<close>

lemma exit_of_process_zero:
  assumes "process_exit mo (boot_procs cr3 empty_heap addr mem) = (r :: (unit, unit) outcome, ps)"
    and "Process_create mo parse empty_heap bin ps = (Ok i, ps')"
  shows "max_pid ps = 0 \<and> i = 0 \<and> cur_pid ps' = 0 \<and> code_addr (process_table ps' ! 0) = addr"
proof -
  have ps: "max_pid ps = 0" "cur_pid ps = 0" "next_code_addr ps = addr"
    using assms(1)
    by (auto simp: process_exit_def run_simps boot_procs_def current_def index_def set_pid_def on_memory_def
        MAX_PROCS_def Process_new_def)
  obtain child where "i = max_pid ps" "cur_pid ps' = cur_pid ps" "i < length (process_table ps)"
    "process_table ps' = (process_table ps)[i := child]" "code_addr child = next_code_addr ps"
    using Process_create_Ok [OF assms(2)] by metis
  then show ?thesis using ps by simp
qed

definition sample_exit :: "(unit, unit) outcome \<times> (unit, unit, unit, unit) Procs" where
  "sample_exit = process_exit idle_memory sample_procs"

lemma exit_of_process_zero_example:
  "\<exists>ps'. Process_create idle_memory (\<lambda>_. None) () (BIN_MAGIC @ [0x90]) (snd sample_exit) = (Ok 0, ps') \<and>
    code_addr (process_table ps' ! 0) = 0x1000000"
proof -
  have "fst (Process_create idle_memory (\<lambda>_. None) () (BIN_MAGIC @ [0x90]) (snd sample_exit)) = Ok 0"
    by (simp add: sample_exit_def sample_procs_def boot_procs_def process_exit_def Process_create_def load_process_def
        register_process_def run_simps on_memory_def idle_memory_def load_image_def load_binary_def free_process_pages_def
        slice_def BIN_MAGIC_def ELF_MAGIC_def u64_add_def u64_sub_def MAX_PROC_SIZE_def MAX_PROCS_def
        current_def index_def index_set_def Let_def set_pid_def Process_new_def)
  then obtain ps' where run: "Process_create idle_memory (\<lambda>_. None) () (BIN_MAGIC @ [0x90]) (snd sample_exit) = (Ok 0, ps')"
    by (metis prod.collapse)
  have "process_exit idle_memory (boot_procs 0x1000 () 0x1000000 ()) = (fst sample_exit, snd sample_exit)"
    by (simp add: sample_exit_def sample_procs_def)
  from exit_of_process_zero [OF this run] run show ?thesis by simp
qed

end
