(* ===== verification/Exec_Args.thy ===== *)
theory Exec_Args
  imports Process
begin

text \<open>
  The arguments of a new process: \<open>exec\<close> copies the strings and the references to them into
  the argument page. The memory is a parameter of the model; here it is taken to be what
  the machine promises of mapped memory, a byte at every address.
\<close>

section \<open>Memory\<close>

text \<open>\<open>byte x mem\<close> is the byte at the address \<open>x\<close>; reading and writing go through it.\<close>

definition byte_memory :: "'m Mem_ops \<Rightarrow> (u64 \<Rightarrow> 'm \<Rightarrow> u8) \<Rightarrow> bool" where
  "byte_memory mo byte \<longleftrightarrow>
     (\<forall>a n mem. mo_read mo a n mem = map (\<lambda>k. byte (a + word_of_nat k) mem) [0..<n]) \<and>
     (\<forall>a bs mem x. byte x (mo_write mo a bs mem) =
        (if unat (x - a) < length bs then bs ! unat (x - a) else byte x mem))"

text \<open>No byte of the \<open>n\<close> bytes at \<open>a\<close> is one of the \<open>len\<close> bytes at \<open>lo\<close>.\<close>

definition away :: "u64 \<Rightarrow> nat \<Rightarrow> u64 \<Rightarrow> nat \<Rightarrow> bool" where
  "away lo len a n \<longleftrightarrow> (\<forall>k < n. len \<le> unat (a + word_of_nat k - lo))"

text \<open>The reference at \<open>r\<close> leads to the string \<open>s\<close>; for an argument, from outside the region at \<open>lo\<close>.\<close>

definition str_at :: "'m Mem_ops \<Rightarrow> 'm \<Rightarrow> u64 \<Rightarrow> u8 list \<Rightarrow> bool" where
  "str_at mo mem r s \<longleftrightarrow> (case read_str_ref mo r mem of (p, n) \<Rightarrow> mo_read mo p (unat n) mem = s)"

definition arg_at :: "'m Mem_ops \<Rightarrow> 'm \<Rightarrow> u64 \<Rightarrow> nat \<Rightarrow> u64 \<Rightarrow> u8 list \<Rightarrow> bool" where
  "arg_at mo mem lo len r s \<longleftrightarrow> str_at mo mem r s \<and> away lo len r 16 \<and>
     (case read_str_ref mo r mem of (p, n) \<Rightarrow> away lo len p (unat n))"

lemma unat_word_of_nat: "n < 2 ^ 64 \<Longrightarrow> unat (word_of_nat n :: u64) = n"
  by (simp add: unat_of_nat)

lemma read_write_same:
  assumes "byte_memory mo byte" and "k + n \<le> length bs" and "length bs < 2 ^ 64"
  shows "mo_read mo (a + word_of_nat k) n (mo_write mo a bs mem) = take n (drop k bs)"
proof -
  have "unat (a + word_of_nat k + word_of_nat i - a :: u64) = k + i" if "i < n" for i
  proof -
    have "a + word_of_nat k + word_of_nat i - a = (word_of_nat (k + i) :: u64)" by simp
    then show ?thesis using that assms(2,3) by (simp only: unat_word_of_nat)
  qed
  then show ?thesis using assms by (intro nth_equalityI) (auto simp: byte_memory_def)
qed

lemma read_write_other:
  assumes "byte_memory mo byte" and "away a (length bs) b n"
  shows "mo_read mo b n (mo_write mo a bs mem) = mo_read mo b n mem"
proof -
  have "\<not> unat (b + word_of_nat k - a) < length bs" if "k < n" for k
    using assms(2) that by (simp add: away_def not_less)
  then show ?thesis using assms(1) by (simp add: byte_memory_def)
qed

lemma sub_mono_away:
  fixes x lo a :: u64
  assumes "unat lo \<le> unat a" and "unat a + m \<le> unat lo + len" and "unat lo + len < 2 ^ 64"
    and "len \<le> unat (x - lo)"
  shows "m \<le> unat (x - a)"
  using assms by (auto simp: unat_sub_if' split: if_splits)

lemma away_mono:
  assumes "away lo len b n" and "unat lo \<le> unat a" and "unat a + m \<le> unat lo + len" and "unat lo + len < 2 ^ 64"
  shows "away a m b n"
  using assms sub_mono_away [of lo a m len] by (auto simp: away_def)

lemma away_sub: "away lo len b n \<Longrightarrow> k + m \<le> n \<Longrightarrow> away lo len (b + word_of_nat k) m"
  unfolding away_def
proof (intro allI impI)
  fix i assume "\<forall>i < n. len \<le> unat (b + word_of_nat i - lo)" "k + m \<le> n" "i < m"
  then have "len \<le> unat (b + word_of_nat (k + i) - lo)" by (metis add_less_cancel_left order_less_le_trans)
  then show "len \<le> unat (b + word_of_nat k + word_of_nat i - lo)" by (simp add: add.assoc)
qed

lemma arg_at_write:
  assumes bm: "byte_memory mo byte" and arg: "arg_at mo mem lo len r s"
    and in_range: "unat lo \<le> unat a" "unat a + length bs \<le> unat lo + len" "unat lo + len < 2 ^ 64"
  shows "arg_at mo (mo_write mo a bs mem) lo len r s"
proof -
  obtain p n where ref: "read_str_ref mo r mem = (p, n)" by (cases "read_str_ref mo r mem")
  have "away lo len r 8" "away lo len (r + 8) 8" "away lo len p (unat n)"
    using arg away_sub [of lo len r 16 0 8] away_sub [of lo len r 16 8 8] by (auto simp: arg_at_def ref)
  then have "away a (length bs) r 8" "away a (length bs) (r + 8) 8" "away a (length bs) p (unat n)"
    using in_range by (auto intro: away_mono)
  note keep = this [THEN read_write_other [OF bm]]
  show ?thesis using arg ref by (simp add: arg_at_def str_at_def read_str_ref_def keep split: prod.splits)
qed

lemma away_below:
  assumes "unat b + n \<le> unat a" and "unat a + m < 2 ^ 64"
  shows "away a m b n"
  unfolding away_def
proof (intro allI impI)
  fix k assume "k < n"
  then have "unat (b + word_of_nat k) = unat b + k"
    using assms by (subst unat_add_ok) (auto simp: unat_word_of_nat)
  then show "m \<le> unat (b + word_of_nat k - a)" using assms \<open>k < n\<close> by (auto simp: unat_sub_if')
qed

section \<open>Copying\<close>

lemma copy_strs_spec:
  assumes bm: "byte_memory mo byte"
  shows "list_all2 (arg_at mo mem lo len) rs strs \<Longrightarrow> unat lo \<le> unat addr \<Longrightarrow>
    unat addr + length (concat strs) \<le> unat lo + len \<Longrightarrow> unat lo + len < 2 ^ 64 \<Longrightarrow>
    \<exists>copies top' mem'. (copy_strs mo rs addr mem :: ('e, _) outcome \<times> _) = (Ok (copies, top'), mem') \<and>
      unat top' = unat addr + length (concat strs) \<and>
      (\<forall>b n. unat b + n \<le> unat addr \<longrightarrow> mo_read mo b n mem' = mo_read mo b n mem) \<and>
      list_all2 (\<lambda>(a, n) s. unat a + unat n \<le> unat top' \<and> mo_read mo a (unat n) mem' = s) copies strs"
proof (induction rs arbitrary: addr mem strs)
  case Nil
  then show ?case by (simp add: ret_def)
next
  case (Cons r rs)
  from Cons.prems(1) obtain s strs' where strs: "strs = s # strs'" and arg: "arg_at mo mem lo len r s"
    and args: "list_all2 (arg_at mo mem lo len) rs strs'" by (auto simp: list_all2_Cons1)
  obtain p n where ref: "read_str_ref mo r mem = (p, n)" by (cases "read_str_ref mo r mem")
  have s: "mo_read mo p (unat n) mem = s" using arg by (simp add: arg_at_def str_at_def ref)
  then have len: "length s = unat n" using bm by (auto simp: byte_memory_def)
  let ?mem = "mo_write mo addr s mem"
  have fit: "unat addr + unat n + length (concat strs') \<le> unat lo + len" using Cons.prems(3) strs len by simp
  have add: "unat (addr + n) = unat addr + unat n" using fit Cons.prems(4) by (intro unat_add_ok) linarith
  have args': "list_all2 (arg_at mo ?mem lo len) rs strs'"
    using args by (rule list_all2_mono) (use arg_at_write [OF bm] Cons.prems fit len in auto)
  obtain copies top' mem' where run: "(copy_strs mo rs (addr + n) ?mem :: ('e, _) outcome \<times> _) = (Ok (copies, top'), mem')"
    and top: "unat top' = unat addr + unat n + length (concat strs')"
    and keep: "\<And>b m. unat b + m \<le> unat addr + unat n \<Longrightarrow> mo_read mo b m mem' = mo_read mo b m ?mem"
    and all: "list_all2 (\<lambda>(a, n) s. unat a + unat n \<le> unat top' \<and> mo_read mo a (unat n) mem' = s) copies strs'"
    using Cons.IH [OF args', of "addr + n"] Cons.prems(2,4) fit by (auto simp: add)
  have lt: "unat addr + unat n < 2 ^ 64" using fit Cons.prems(4) by linarith
  have "mo_read mo addr (unat n) mem' = s"
    using keep [of addr "unat n"] read_write_same [OF bm, of 0 "unat n" s addr mem] len lt by simp
  moreover have "mo_read mo b m mem' = mo_read mo b m mem" if "unat b + m \<le> unat addr" for b m
    using keep [of b m] that read_write_other [OF bm away_below, of b m addr s] lt len by simp
  moreover have "(copy_strs mo (r # rs) addr mem :: ('e, _) outcome \<times> _) = (Ok ((addr, n) # copies, top'), mem')"
    using run lt by (simp add: bind_reads ref u64_add_def s) (simp add: bind_def ret_def)
  ultimately show ?case using all top by (auto simp: strs len)
qed

lemma chunk_concat:
  assumes "\<And>x. length (f x) = c"
  shows "i < length xs \<Longrightarrow> take c (drop (c * i) (concat (map f xs))) = f (xs ! i)"
proof (induction xs arbitrary: i)
  case (Cons x xs)
  then show ?case using assms by (cases i) (auto simp: take_Cons')
qed simp


lemma read_written_ref:
  assumes bm: "byte_memory mo byte" and i: "i < length refs" and fit: "unat r + 16 * length refs < 2 ^ 64"
  shows "read_str_ref mo (r + word_of_nat (16 * i)) (write_str_refs mo r refs mem) = refs ! i"
proof -
  let ?f = "\<lambda>(p, n). to_le_bytes p @ to_le_bytes n :: u8 list"
  let ?bs = "concat (map ?f refs)"
  have len: "length ?bs = 16 * length refs" by (induction refs) auto
  have chunk: "take 16 (drop (16 * i) ?bs) = ?f (refs ! i)" using i by (intro chunk_concat) auto
  have "mo_read mo (r + word_of_nat (16 * i)) 8 (mo_write mo r ?bs mem) = take 8 (?f (refs ! i))"
    using read_write_same [OF bm, of "16 * i" 8 ?bs r mem] i len fit
    by (simp flip: chunk)
  moreover have "mo_read mo (r + word_of_nat (16 * i) + 8) 8 (mo_write mo r ?bs mem) = drop 8 (?f (refs ! i))"
    using read_write_same [OF bm, of "16 * i + 8" 8 ?bs r mem] i len fit
    by (simp add: ac_simps drop_take flip: chunk)
  ultimately show ?thesis by (cases "refs ! i") (simp add: read_str_ref_def write_str_refs_def)
qed

section \<open>Properties\<close>

text \<open>
  C31. The arguments reach the new process: when the strings lie outside the \<open>len\<close> bytes
  reserved for their copies, and these are enough for all strings, their references and an
  alignment gap, then the slice that the new process receives is aligned, lies within the
  reserved bytes, and its references lead to the same strings, in order.
\<close>

theorem arguments_delivered:
  assumes bm: "byte_memory mo byte"
    and args: "list_all2 (arg_at mo mem lo len) (map (\<lambda>i. ptr + word_of_nat (16 * i)) [0..<n]) strs"
    and fit: "length (concat strs) + 8 + 16 * n \<le> len" and len: "unat lo + len < 2 ^ 64"
  shows "\<exists>refs mem'. (copy_args mo ptr n lo mem :: ('e, _) outcome \<times> _) = (Ok refs, mem') \<and> 8 dvd unat refs \<and> unat lo < unat refs \<and>
    unat refs + 16 * n \<le> unat lo + len \<and>
    list_all2 (str_at mo mem') (map (\<lambda>i. refs + word_of_nat (16 * i)) [0..<n]) strs"
proof -
  obtain copies t mem1 where run: "(copy_strs mo (map (\<lambda>i. ptr + word_of_nat (16 * i)) [0..<n]) lo mem :: ('e, _) outcome \<times> _) =
      (Ok (copies, t), mem1)"
    and t: "unat t = unat lo + length (concat strs)"
    and all: "list_all2 (\<lambda>(a, n) s. unat a + unat n \<le> unat t \<and> mo_read mo a (unat n) mem1 = s) copies strs"
    using copy_strs_spec [OF bm args, of lo] fit len by auto
  have n: "length copies = n" using all args by (auto dest!: list_all2_lengthD)
  define refs where "refs = t + (8 - t mod 8)"
  have u: "unat (8 - t mod 8) = 8 - unat t mod 8" by (simp add: unat_sub_if' unat_mod)
  have refs: "unat refs = unat t + (8 - unat t mod 8)"
    unfolding refs_def u [symmetric] by (rule unat_add_ok) (use t fit len u in linarith)
  have dvd: "8 dvd unat refs" unfolding refs by presburger
  have below: "unat t < unat refs" "unat refs + 16 * n \<le> unat lo + len" using refs t fit by simp_all
  let ?mem = "write_str_refs mo refs copies mem1"
  have "str_at mo ?mem (refs + word_of_nat (16 * i)) (strs ! i)" if "i < n" for i
  proof -
    obtain a m where c: "copies ! i = (a, m)" by (cases "copies ! i")
    then have am: "unat a + unat m \<le> unat t" "mo_read mo a (unat m) mem1 = strs ! i"
      using all that n by (auto simp: list_all2_conv_all_nth)
    have clen: "length (concat (map (\<lambda>(p, n). to_le_bytes p @ to_le_bytes n) copies)) = 16 * n"
      unfolding n [symmetric] by (induction copies) auto
    have "away refs (16 * n) a (unat m)" using am below len by (intro away_below) linarith+
    then have "mo_read mo a (unat m) ?mem = strs ! i"
      using read_write_other [OF bm, of refs _ a "unat m"] am(2) clen by (simp add: write_str_refs_def)
    moreover have "read_str_ref mo (refs + word_of_nat (16 * i)) ?mem = (a, m)"
      using read_written_ref [OF bm, of i copies refs mem1] c n that below len by simp
    ultimately show ?thesis by (simp add: str_at_def)
  qed
  moreover have "length strs = n" using args by (auto dest!: list_all2_lengthD)
  ultimately have "list_all2 (str_at mo ?mem) (map (\<lambda>i. refs + word_of_nat (16 * i)) [0..<n]) strs"
    by (simp add: list_all2_conv_all_nth)
  moreover have "u64_add t (8 - t mod 8) = (Ok refs :: ('e, _) outcome)"
    using unat_lt_u64 [of refs] unfolding u64_add_def u refs by (simp add: refs_def)
  then have "(copy_args mo ptr n lo mem :: ('e, _) outcome \<times> _) = (Ok refs, ?mem)"
    using run unfolding copy_args_def by (subst bind_Ok) (assumption, simp add: bind_reads ret_def)
  ultimately show ?thesis using dvd below t by (intro exI conjI) auto
qed

text \<open>A memory that is a function, with one argument at 0x100 and its reference at 0x200.\<close>

definition flat_memory :: "(u64 \<Rightarrow> u8) Mem_ops" where
  "flat_memory = \<lparr>mo_allocate_frame = (\<lambda>m. (Ok 0x5000, m)), mo_copy_kernel_table = (\<lambda>_ m. m),
     mo_alloc_pages = (\<lambda>_ _ _ m. (Ok (), m)), mo_free_pages = (\<lambda>_ _ _ m. m),
     mo_user_accessible = (\<lambda>_ _ _. False),
     mo_read = (\<lambda>a n m. map (\<lambda>k. m (a + word_of_nat k)) [0..<n]),
     mo_write = (\<lambda>a bs m x. if unat (x - a) < length bs then bs ! unat (x - a) else m x),
     mo_write_cr3 = (\<lambda>_ m. m)\<rparr>"

definition sample_memory :: "u64 \<Rightarrow> u8" where
  "sample_memory = write_str_refs flat_memory 0x200 [(0x100, 1)] (mo_write flat_memory 0x100 [0x68] (\<lambda>_. 0))"

lemma byte_memory_flat: "byte_memory flat_memory (\<lambda>x m. m x)"
  by (simp add: byte_memory_def flat_memory_def)

theorem arguments_delivered_witness:
  "\<exists>refs mem'. copy_args flat_memory 0x200 1 0x1000 sample_memory = (Ok refs, mem') \<and>
    str_at flat_memory mem' refs [0x68]"
proof -
  have ref: "read_str_ref flat_memory 0x200 sample_memory = (0x100, 1)"
    using read_written_ref [OF byte_memory_flat, of 0 "[(0x100, 1)]" "0x200" "mo_write flat_memory 0x100 [0x68] (\<lambda>_. 0)"]
    by (simp add: sample_memory_def)
  have "mo_read flat_memory 0x100 1 sample_memory = [0x68]"
    by (simp add: sample_memory_def write_str_refs_def flat_memory_def)
  moreover have "away 0x1000 4096 0x200 16" "away 0x1000 4096 0x100 1" by (rule away_below; simp)+
  ultimately have "arg_at flat_memory sample_memory 0x1000 4096 0x200 [0x68]"
    by (simp add: arg_at_def str_at_def ref)
  then have "list_all2 (arg_at flat_memory sample_memory 0x1000 4096)
      (map (\<lambda>i. 0x200 + word_of_nat (16 * i)) [0..<1]) [[0x68]]" by simp
  from arguments_delivered [OF byte_memory_flat this] show ?thesis by auto
qed

end
