(* ===== verification/Task.thy ===== *)
theory Task
  imports Prelude "HOL-Library.AList"
begin

text \<open>
  The cooperative tasks of \<open>kernel/src/internal/task\<close>: task identifiers, the simple executor that
  polls all tasks in turn, and the executor that polls the tasks in its queue of woken ones.

  A future is a value of \<open>'f\<close> that works on a state \<open>'s\<close>; its \<open>poll\<close> is a parameter. Polled by the
  executor it may wake tasks, itself included: \<open>poll\<close> returns the identifiers whose wakers it called,
  in order. A waker only holds an identifier and the queue; the cache of wakers is the list of
  identifiers that have one.
\<close>

section \<open>Tasks\<close>

datatype Poll = Ready | Pending

type_synonym TaskId = u64

record 'f Task =
  task_id :: TaskId
  future :: 'f

text \<open>\<open>TaskId::new\<close>: \<open>NEXT_ID.fetch_add(1)\<close> wraps around.\<close>

definition TaskId_new :: "u64 \<Rightarrow> TaskId \<times> u64" where
  "TaskId_new next_id = (next_id, next_id + 1)"

definition Task_new :: "'f \<Rightarrow> u64 \<Rightarrow> 'f Task \<times> u64" where
  "Task_new f next_id = (case TaskId_new next_id of (i, next_id') \<Rightarrow> (\<lparr>task_id = i, future = f\<rparr>, next_id'))"

section \<open>The simple executor\<close>

text \<open>\<open>SimpleExecutor\<close> is its queue. The wakers do nothing, so \<open>poll\<close> has no wake-ups here.\<close>

type_synonym ('f, 's) simple_poll = "'f \<Rightarrow> 's \<Rightarrow> Poll \<times> 'f \<times> 's"

definition Task_poll :: "('f, 's) simple_poll \<Rightarrow> 'f Task \<Rightarrow> 's \<Rightarrow> Poll \<times> 'f Task \<times> 's" where
  "Task_poll poll t s = (case poll (future t) s of (r, f, s') \<Rightarrow> (r, t\<lparr>future := f\<rparr>, s'))"

definition simple_spawn :: "'f Task \<Rightarrow> 'f Task list \<Rightarrow> 'f Task list" where
  "simple_spawn t queue = queue @ [t]"

definition simple_turn :: "('f, 's) simple_poll \<Rightarrow> 'f Task \<Rightarrow> 'f Task list \<Rightarrow> 's \<Rightarrow> 'f Task list \<times> 's" where
  "simple_turn poll t queue s = (case Task_poll poll t s of
      (Ready, _, s') \<Rightarrow> (queue, s')
    | (Pending, t', s') \<Rightarrow> (queue @ [t'], s'))"

text \<open>\<open>run\<close>, which returns when no task is left; a task that is never ready keeps it running.\<close>

partial_function (option) simple_run :: "('f, 's) simple_poll \<Rightarrow> 'f Task list \<Rightarrow> 's \<Rightarrow> 's option" where
  "simple_run poll queue s = (case queue of
      [] \<Rightarrow> Some s
    | t # rest \<Rightarrow> (case simple_turn poll t rest s of (queue', s') \<Rightarrow> simple_run poll queue' s'))"

declare simple_run.simps [code]

section \<open>The executor\<close>

record 'f Executor =
  tasks :: "(TaskId \<times> 'f Task) list"
  task_queue :: "TaskId list"
  waker_cache :: "TaskId list"

definition Executor_new :: "'f Executor" where
  "Executor_new = \<lparr>tasks = [], task_queue = [], waker_cache = []\<rparr>"

text \<open>The queue has room for 100 identifiers; a push on a full one panics in all uses (\<open>expect\<close>).\<close>

definition QUEUE_CAPACITY :: nat where
  "QUEUE_CAPACITY = 100"

definition push_task :: "TaskId \<Rightarrow> ('f Executor, unit, unit) prog" where
  "push_task i ex =
     (if length (task_queue ex) < QUEUE_CAPACITY then (Ok (), ex\<lparr>task_queue := task_queue ex @ [i]\<rparr>) else (Panic, ex))"

definition exec_spawn :: "'f Task \<Rightarrow> ('f Executor, unit, unit) prog" where
  "exec_spawn t ex =
     (let i = task_id t; ex' = ex\<lparr>tasks := AList.update i t (tasks ex)\<rparr>
      in if map_of (tasks ex) i \<noteq> None then (Panic, ex') else push_task i ex')"

type_synonym ('f, 's) waking_poll = "TaskId \<Rightarrow> 'f \<Rightarrow> 's \<Rightarrow> Poll \<times> TaskId list \<times> 'f \<times> 's"

text \<open>One turn of the loop in \<open>run_ready_tasks\<close>, on the identifier that was popped.\<close>

definition run_task :: "('f, 's) waking_poll \<Rightarrow> TaskId \<Rightarrow> ('f Executor \<times> 's, unit, unit) prog" where
  "run_task poll i = (\<lambda>(ex, s). case map_of (tasks ex) i of
      None \<Rightarrow> (Ok (), (ex, s))
    | Some t \<Rightarrow>
        let ex = ex\<lparr>waker_cache := List.insert i (waker_cache ex)\<rparr>
        in (case poll i (future t) s of (r, wakes, f, s') \<Rightarrow>
          (case for_each push_task wakes (ex\<lparr>tasks := AList.update i (t\<lparr>future := f\<rparr>) (tasks ex)\<rparr>) of
             (Ok _, ex') \<Rightarrow> (Ok (), (if r = Ready
                then ex'\<lparr>tasks := AList.delete i (tasks ex'), waker_cache := removeAll i (waker_cache ex')\<rparr> else ex', s'))
           | (Err e, ex') \<Rightarrow> (Err e, (ex', s'))
           | (Panic, ex') \<Rightarrow> (Panic, (ex', s')))))"

partial_function (option) run_ready_tasks :: "('f, 's) waking_poll \<Rightarrow> 'f Executor \<times> 's
    \<Rightarrow> ((unit, unit) outcome \<times> 'f Executor \<times> 's) option" where
  "run_ready_tasks poll exs = (case task_queue (fst exs) of
      [] \<Rightarrow> Some (Ok (), exs)
    | i # rest \<Rightarrow> (case run_task poll i ((fst exs)\<lparr>task_queue := rest\<rparr>, snd exs) of
        (Ok _, exs') \<Rightarrow> run_ready_tasks poll exs'
      | (r, exs') \<Rightarrow> Some (r, exs')))"

declare run_ready_tasks.simps [code]

section \<open>Rounds of the simple executor\<close>

text \<open>One round polls every task of the queue once, in order, and keeps those that are pending.\<close>

fun simple_round :: "('f, 's) simple_poll \<Rightarrow> 'f Task list \<Rightarrow> 's \<Rightarrow> 'f Task list \<times> 's" where
  "simple_round poll [] s = ([], s)"
| "simple_round poll (t # ts) s = (case Task_poll poll t s of
      (Ready, _, s') \<Rightarrow> simple_round poll ts s'
    | (Pending, t', s') \<Rightarrow> (case simple_round poll ts s' of (q, s'') \<Rightarrow> (t' # q, s'')))"

lemma simple_run_Nil: "simple_run poll [] s = Some s"
  by (simp add: simple_run.simps)

lemma simple_run_Cons: "simple_run poll (t # q) s = (case simple_turn poll t q s of (q', s') \<Rightarrow> simple_run poll q' s')"
  by (subst simple_run.simps) simp

lemma simple_run_append:
  "simple_run poll (q @ done) s = (case simple_round poll q s of (q', s') \<Rightarrow> simple_run poll (done @ q') s')"
  by (induction q arbitrary: "done" s)
    (auto simp: simple_run_Cons simple_turn_def split: prod.splits Poll.splits)

text \<open>Futures that need at most \<open>left f\<close> more polls.\<close>

definition bounded :: "('f, 's) simple_poll \<Rightarrow> ('f \<Rightarrow> nat) \<Rightarrow> bool" where
  "bounded poll left \<longleftrightarrow> (\<forall>f s. case poll f s of (Pending, f', _) \<Rightarrow> left f' < left f | (Ready, _) \<Rightarrow> True)"

lemma simple_run_bounded:
  assumes "bounded poll left"
  shows "\<exists>s'. simple_run poll q s = Some s'"
proof (induction "sum_list (map (\<lambda>t. Suc (left (future t))) q)" arbitrary: q s rule: less_induct)
  case less
  show ?case
  proof (cases q)
    case Nil
    then show ?thesis by (simp add: simple_run_Nil)
  next
    case (Cons t rest)
    obtain q' s' where turn: "simple_turn poll t rest s = (q', s')" by (cases "simple_turn poll t rest s")
    have "sum_list (map (\<lambda>t. Suc (left (future t))) q') < sum_list (map (\<lambda>t. Suc (left (future t))) q)"
      using turn assms Cons
      by (fastforce simp: simple_turn_def Task_poll_def bounded_def split: prod.splits Poll.splits)
    then show ?thesis using less turn by (simp add: Cons simple_run_Cons)
  qed
qed

section \<open>The invariant of the executor\<close>

definition exec_ok :: "'f Executor \<Rightarrow> bool" where
  "exec_ok ex \<longleftrightarrow> distinct (map fst (tasks ex)) \<and> (\<forall>i t. map_of (tasks ex) i = Some t \<longrightarrow> task_id t = i) \<and>
     length (task_queue ex) \<le> QUEUE_CAPACITY \<and> set (waker_cache ex) \<subseteq> dom (map_of (tasks ex))"

lemma push_task_fields:
  "push_task i ex = (r, ex') \<Longrightarrow> tasks ex' = tasks ex \<and> waker_cache ex' = waker_cache ex \<and>
    (length (task_queue ex) \<le> QUEUE_CAPACITY \<longrightarrow> length (task_queue ex') \<le> QUEUE_CAPACITY)"
  by (auto simp: push_task_def split: if_splits)

lemma push_tasks_fields:
  "for_each push_task is ex = (r, ex') \<Longrightarrow> tasks ex' = tasks ex \<and> waker_cache ex' = waker_cache ex \<and>
    (length (task_queue ex) \<le> QUEUE_CAPACITY \<longrightarrow> length (task_queue ex') \<le> QUEUE_CAPACITY)"
proof (induction "is" arbitrary: ex)
  case (Cons i "is")
  obtain r1 ex1 where one: "push_task i ex = (r1, ex1)" by (cases "push_task i ex")
  show ?case
  proof (cases r1)
    case (Ok u)
    then show ?thesis using Cons push_task_fields [OF one] by (simp add: bind_Ok [where m = "push_task i", OF one [unfolded Ok]])
  qed (use Cons.prems push_task_fields [OF one] one in \<open>auto simp: bind_def\<close>)
qed (simp add: ret_def)

lemma run_task_ok:
  assumes ok: "exec_ok ex" and run: "run_task poll i (ex, s) = (r, (ex', s'))"
  shows "exec_ok ex'"
proof (cases "map_of (tasks ex) i")
  case None
  then show ?thesis using assms by (simp add: run_task_def)
next
  case (Some t)
  obtain p wakes f s1 where poll: "poll i (future t) s = (p, wakes, f, s1)" by (metis prod.exhaust)
  let ?ex = "ex\<lparr>waker_cache := List.insert i (waker_cache ex), tasks := AList.update i (t\<lparr>future := f\<rparr>) (tasks ex)\<rparr>"
  obtain r1 ex1 where push: "for_each push_task wakes ?ex = (r1, ex1)" by (cases "for_each push_task wakes ?ex")
  have "task_id t = i" using Some ok by (simp add: exec_ok_def)
  then have "exec_ok ?ex" using ok Some
    by (auto simp: exec_ok_def distinct_update update_conv' split: if_splits)
  then have ok1: "exec_ok ex1" using push_tasks_fields [OF push] by (simp add: exec_ok_def)
  have "ex' = ex1 \<or> ex' = ex1\<lparr>tasks := AList.delete i (tasks ex1), waker_cache := removeAll i (waker_cache ex1)\<rparr>"
    using run Some poll push by (auto simp: run_task_def Let_def split: outcome.splits if_splits)
  then show ?thesis using ok1 by (auto simp: exec_ok_def distinct_delete delete_conv' split: if_splits)
qed

lemma exec_spawn_ok:
  assumes "exec_ok ex" and "exec_spawn t ex = (Ok (), ex')"
  shows "exec_ok ex'"
proof -
  let ?ex = "ex\<lparr>tasks := AList.update (task_id t) t (tasks ex)\<rparr>"
  have push: "push_task (task_id t) ?ex = (Ok (), ex')"
    using assms(2) by (simp add: exec_spawn_def Let_def split: if_splits)
  have "length (task_queue ex') \<le> QUEUE_CAPACITY" "tasks ex' = AList.update (task_id t) t (tasks ex)" "waker_cache ex' = waker_cache ex"
    using push_task_fields [OF push] assms(1) by (simp_all add: exec_ok_def)
  then show ?thesis using assms(1) by (auto simp: exec_ok_def distinct_update update_conv')
qed

section \<open>Running woken tasks\<close>

lemma run_ready_Nil: "task_queue ex = [] \<Longrightarrow> run_ready_tasks poll (ex, s) = Some (Ok (), (ex, s))"
  by (subst run_ready_tasks.simps) simp

lemma run_ready_Cons: "task_queue ex = i # rest \<Longrightarrow> run_ready_tasks poll (ex, s) =
    (case run_task poll i (ex\<lparr>task_queue := rest\<rparr>, s) of
       (Ok _, exs') \<Rightarrow> run_ready_tasks poll exs' | (r, exs') \<Rightarrow> Some (r, exs'))"
  by (subst run_ready_tasks.simps) simp

text \<open>
  Futures that need at most \<open>left f\<close> more polls and wake exactly themselves while they are
  pending.
\<close>

definition self_waking :: "('f, 's) waking_poll \<Rightarrow> ('f \<Rightarrow> nat) \<Rightarrow> bool" where
  "self_waking poll left \<longleftrightarrow> (\<forall>i f s. case poll i f s of
      (Pending, wakes, f', _) \<Rightarrow> wakes = [i] \<and> left f' < left f
    | (Ready, wakes, _) \<Rightarrow> wakes = [])"

definition work :: "('f \<Rightarrow> nat) \<Rightarrow> 'f Executor \<Rightarrow> nat" where
  "work left ex = sum_list (map (\<lambda>(_, t). Suc (left (future t))) (tasks ex))"

lemma sum_update_less:
  "map_of xs i = Some t \<Longrightarrow> g t' < (g t :: nat) \<Longrightarrow>
    sum_list (map (\<lambda>(_, t). g t) (AList.update i t' xs)) < sum_list (map (\<lambda>(_, t). g t) xs)"
  by (induction xs) (auto split: if_splits)

lemma sum_delete_less:
  "map_of xs i = Some t \<Longrightarrow> 0 < (g t :: nat) \<Longrightarrow>
    sum_list (map (\<lambda>(_, t). g t) (AList.delete i xs)) < sum_list (map (\<lambda>(_, t). g t) xs)"
proof (induction xs)
  case (Cons x xs)
  have le: "sum_list (map (\<lambda>(_, t). g t) (AList.delete i ys)) \<le> sum_list (map (\<lambda>(_, t). g t) ys)" for ys
    by (induction ys) auto
  show ?case using Cons le [of xs] by (cases x) (auto split: if_splits intro: le_less_trans)
qed simp

text \<open>One turn: it does not panic, keeps every live task in the queue, and makes progress.\<close>

definition todo :: "('f \<Rightarrow> nat) \<Rightarrow> 'f Executor \<Rightarrow> nat" where
  "todo left ex = work left ex * Suc QUEUE_CAPACITY + length (task_queue ex)"

lemma todo_less_work: "work left ex' < work left ex \<Longrightarrow> length (task_queue ex') \<le> QUEUE_CAPACITY \<Longrightarrow> todo left ex' < todo left ex"
proof -
  assume "work left ex' < work left ex" and len: "length (task_queue ex') \<le> QUEUE_CAPACITY"
  then have "Suc (work left ex') * Suc QUEUE_CAPACITY \<le> work left ex * Suc QUEUE_CAPACITY" by (intro mult_le_mono1) simp
  then show ?thesis using len by (simp add: todo_def)
qed

lemma run_task_progress:
  assumes waking: "self_waking poll left" and ok: "exec_ok ex" and queue: "task_queue ex = i # rest"
    and live: "dom (map_of (tasks ex)) \<subseteq> set (task_queue ex)"
  obtains ex' s' where "run_task poll i (ex\<lparr>task_queue := rest\<rparr>, s) = (Ok (), (ex', s'))" and "exec_ok ex'"
    and "dom (map_of (tasks ex')) \<subseteq> set (task_queue ex')" and "todo left ex' < todo left ex"
proof -
  let ?ex = "ex\<lparr>task_queue := rest\<rparr>"
  have len: "length rest < QUEUE_CAPACITY" using ok queue by (simp add: exec_ok_def)
  have ok': "exec_ok ?ex" using ok queue by (simp add: exec_ok_def)
  have "\<exists>ex' s'. run_task poll i (?ex, s) = (Ok (), (ex', s')) \<and> dom (map_of (tasks ex')) \<subseteq> set (task_queue ex') \<and>
      todo left ex' < todo left ex"
  proof (cases "map_of (tasks ex) i")
    case None
    then show ?thesis using live queue by (auto simp: run_task_def todo_def work_def)
  next
    case (Some t)
    obtain p wakes f s1 where poll: "poll i (future t) s = (p, wakes, f, s1)" by (metis prod.exhaust)
    let ?t = "t\<lparr>future := f\<rparr>"
    show ?thesis
    proof (cases p)
      case Ready
      have "wakes = []" using waking [unfolded self_waking_def, rule_format, of i "future t" s] poll Ready by simp
      then have run: "run_task poll i (?ex, s) = (Ok (), (?ex\<lparr>tasks := AList.delete i (tasks ex),
          waker_cache := removeAll i (List.insert i (waker_cache ex))\<rparr>, s1))" (is "_ = (_, (?ex', _))")
        using Some poll Ready by (simp add: run_task_def Let_def ret_def delete_update_same)
      have "work left ?ex' < work left ex"
        using sum_delete_less [OF Some, of "\<lambda>t. Suc (left (future t))"] by (simp add: work_def)
      then have "todo left ?ex' < todo left ex" using len by (intro todo_less_work) simp_all
      moreover have "dom (map_of (tasks ?ex')) \<subseteq> set (task_queue ?ex')" using live queue by (auto simp: delete_conv')
      ultimately show ?thesis using run by blast
    next
      case Pending
      have wakes: "wakes = [i]" and less: "left f < left (future t)"
        using waking [unfolded self_waking_def, rule_format, of i "future t" s] poll Pending by simp_all
      then have run: "run_task poll i (?ex, s) = (Ok (), (?ex\<lparr>tasks := AList.update i ?t (tasks ex),
          waker_cache := List.insert i (waker_cache ex), task_queue := rest @ [i]\<rparr>, s1))" (is "_ = (_, (?ex', _))")
        using Some poll Pending len by (simp add: run_task_def Let_def push_task_def run_simps)
      have "work left ?ex' < work left ex"
        using sum_update_less [OF Some, of "\<lambda>t. Suc (left (future t))" ?t] less by (simp add: work_def)
      then have "todo left ?ex' < todo left ex" using len by (intro todo_less_work) simp_all
      moreover have "dom (map_of (tasks ?ex')) \<subseteq> set (task_queue ?ex')" using live queue by (auto simp: update_conv')
      ultimately show ?thesis using run by blast
    qed
  qed
  then obtain ex' s' where *: "run_task poll i (?ex, s) = (Ok (), (ex', s'))"
    "dom (map_of (tasks ex')) \<subseteq> set (task_queue ex')" "todo left ex' < todo left ex" by blast
  show thesis using that [OF *(1) run_task_ok [OF ok' *(1)] *(2,3)] .
qed

lemma run_ready_all:
  assumes "self_waking poll left"
  shows "exec_ok ex \<Longrightarrow> dom (map_of (tasks ex)) \<subseteq> set (task_queue ex) \<Longrightarrow>
    \<exists>s'. run_ready_tasks poll (ex, s) = Some (Ok (), (\<lparr>tasks = [], task_queue = [], waker_cache = []\<rparr>, s'))"
proof (induction "todo left ex" arbitrary: ex s rule: less_induct)
  case less
  show ?case
  proof (cases "task_queue ex")
    case Nil
    then have "dom (map_of (tasks ex)) = {}" using less.prems(2) by simp
    then have "tasks ex = []" by (cases "tasks ex") (auto simp: dom_def split: if_splits)
    then have "ex = \<lparr>tasks = [], task_queue = [], waker_cache = []\<rparr>"
      using Nil less.prems(1) by (cases ex) (simp add: exec_ok_def)
    then show ?thesis by (simp add: run_ready_Nil)
  next
    case (Cons i rest)
    obtain ex' s' where "run_task poll i (ex\<lparr>task_queue := rest\<rparr>, s) = (Ok (), (ex', s'))" "exec_ok ex'"
      "dom (map_of (tasks ex')) \<subseteq> set (task_queue ex')" "todo left ex' < todo left ex"
      using run_task_progress [OF assms less.prems(1) Cons less.prems(2)] by blast
    then show ?thesis using less.hyps [of ex' s'] by (simp add: run_ready_Cons [OF Cons])
  qed
qed

section \<open>Properties\<close>

text \<open>
  C25. The simple executor returns when every task needs a bounded number of polls, and it
  schedules in rounds: the run from a queue is a poll of every task in order, followed by the
  run from those that were pending.
\<close>

theorem simple_run_returns:
  assumes "bounded poll left"
  shows "\<exists>s'. simple_run poll queue s = Some s' \<and>
    simple_run poll (fst (simple_round poll queue s)) (snd (simple_round poll queue s)) = Some s'"
  using simple_run_bounded [OF assms, of queue s] simple_run_append [of poll queue "[]" s] by (auto split: prod.splits)

text \<open>A future that counts down and records the steps it makes.\<close>

definition countdown :: "nat \<Rightarrow> nat list \<Rightarrow> Poll \<times> nat \<times> nat list" where
  "countdown n log = (if n = 0 then Ready else Pending, n - 1, n # log)"

theorem simple_run_returns_witness:
  "simple_run countdown [\<lparr>task_id = 0, future = 2\<rparr>, \<lparr>task_id = 1, future = 1\<rparr>] [] = Some [0, 0, 1, 1, 2]"
proof -
  have "bounded countdown id" by (auto simp: bounded_def countdown_def split: Poll.splits)
  from simple_run_returns [OF this, of "[\<lparr>task_id = 0, future = 2\<rparr>, \<lparr>task_id = 1, future = 1\<rparr>]" "[]"]
  show ?thesis by (auto simp: countdown_def Task_poll_def simple_run_Cons simple_run_Nil simple_turn_def numeral_2_eq_2)
qed

text \<open>
  C24. The executor runs every task to its end: if all tasks are in the queue of woken tasks and
  every future wakes itself as long as it is pending and needs a bounded number of polls,
  \<open>run_ready_tasks\<close> returns without a panic and leaves no task, no queued identifier and no waker.
\<close>

theorem executor_completes:
  assumes "self_waking poll left" and "exec_ok ex" and "dom (map_of (tasks ex)) \<subseteq> set (task_queue ex)"
  shows "\<exists>s'. run_ready_tasks poll (ex, s) = Some (Ok (), (Executor_new, s'))"
  unfolding Executor_new_def using assms by (rule run_ready_all)

definition waking_countdown :: "TaskId \<Rightarrow> nat \<Rightarrow> nat \<Rightarrow> Poll \<times> TaskId list \<times> nat \<times> nat" where
  "waking_countdown i n s = (if n = 0 then (Ready, [], 0, Suc s) else (Pending, [i], n - 1, Suc s))"

theorem executor_completes_witness:
  "\<exists>s'. run_ready_tasks waking_countdown (snd (exec_spawn (fst (Task_new 3 0)) Executor_new), 0) =
    Some (Ok (), (Executor_new, s'))"
proof -
  have "self_waking waking_countdown id" by (simp add: self_waking_def waking_countdown_def)
  moreover have "exec_ok (snd (exec_spawn (fst (Task_new 3 0)) Executor_new))"
    by (simp add: exec_ok_def exec_spawn_def Executor_new_def Task_new_def TaskId_new_def push_task_def QUEUE_CAPACITY_def)
  moreover have "dom (map_of (tasks (snd (exec_spawn (fst (Task_new (3 :: nat) 0)) Executor_new)))) \<subseteq>
      set (task_queue (snd (exec_spawn (fst (Task_new (3 :: nat) 0)) Executor_new)))"
    by (simp add: exec_spawn_def Executor_new_def Task_new_def TaskId_new_def push_task_def QUEUE_CAPACITY_def)
  ultimately show ?thesis by (rule executor_completes)
qed

end
