(* ===== verification/Error_Text.thy ===== *)
theory Error_Text
  imports File_Types
begin

text \<open>
  The texts of the errors: \<open>Display\<close> of \<open>FsError\<close> in \<open>kernel/src/internal/fs.rs\<close> and of \<open>FileError\<close> in
  \<open>file.rs\<close>. The first is a recursive function, since one branch formats the error itself again;
  that it does not return is the value \<open>None\<close>.
\<close>

partial_function (option) FsError_fmt :: "FsError \<Rightarrow> string option" where
  "FsError_fmt e = (case e of
      FsInvalidPath \<Rightarrow> Some ''Invalid path''
    | FsFileNotFound \<Rightarrow> FsError_fmt FsFileNotFound
    | FsFileExists \<Rightarrow> Some ''File already exists''
    | FsDiskFull \<Rightarrow> Some ''Disk is full''
    | FsOutOfInodes \<Rightarrow> Some ''Out of inodes''
    | FsOutOfDataBlocks \<Rightarrow> Some ''Out of data blocks''
    | FsInvalidInode \<Rightarrow> Some ''Invalid inode''
    | FsInvalidDataBlock \<Rightarrow> Some ''Invalid data block''
    | FsInvalidSuperblock \<Rightarrow> Some ''Invalid superblock''
    | FsInvalidInodeTable \<Rightarrow> Some ''Invalid inode table''
    | FsInvalidMetadata \<Rightarrow> Some ''Invalid metadata''
    | FsWriteError \<Rightarrow> Some ''Write error''
    | FsReadError \<Rightarrow> Some ''Read error''
    | FsUnwritableFile \<Rightarrow> Some ''File is unwritable''
    | FsUnreadableFile \<Rightarrow> Some ''File is unreadable''
    | FsFilesystemNotFound \<Rightarrow> Some ''Filesystem not found''
    | FsFilesystemExists \<Rightarrow> Some ''Filesystem already exists''
    | FsInvalidFileDescriptor \<Rightarrow> Some ''Invalid file descriptor'')"

text \<open>\<open>{:?}\<close> of the derived \<open>Debug\<close> is the name of the variant.\<close>

fun FsError_debug :: "FsError \<Rightarrow> string" where
  "FsError_debug FsInvalidPath = ''InvalidPath''"
| "FsError_debug FsFileNotFound = ''FileNotFound''"
| "FsError_debug FsFileExists = ''FileExists''"
| "FsError_debug FsDiskFull = ''DiskFull''"
| "FsError_debug FsOutOfInodes = ''OutOfInodes''"
| "FsError_debug FsOutOfDataBlocks = ''OutOfDataBlocks''"
| "FsError_debug FsInvalidInode = ''InvalidInode''"
| "FsError_debug FsInvalidDataBlock = ''InvalidDataBlock''"
| "FsError_debug FsInvalidSuperblock = ''InvalidSuperblock''"
| "FsError_debug FsInvalidInodeTable = ''InvalidInodeTable''"
| "FsError_debug FsInvalidMetadata = ''InvalidMetadata''"
| "FsError_debug FsWriteError = ''WriteError''"
| "FsError_debug FsReadError = ''ReadError''"
| "FsError_debug FsUnwritableFile = ''UnwritableFile''"
| "FsError_debug FsUnreadableFile = ''UnreadableFile''"
| "FsError_debug FsFilesystemNotFound = ''FilesystemNotFound''"
| "FsError_debug FsFilesystemExists = ''FilesystemExists''"
| "FsError_debug FsInvalidFileDescriptor = ''InvalidFileDescriptor''"

definition print_msg_or_error :: "string option \<Rightarrow> FsError \<Rightarrow> string" where
  "print_msg_or_error msg e = FsError_debug e @ (case msg of None \<Rightarrow> '''' | Some t \<Rightarrow> '': '' @ t)"

fun FileError_fmt :: "FileError \<Rightarrow> string" where
  "FileError_fmt (ReadError s) = print_msg_or_error (message s) (fs_error s)"
| "FileError_fmt (WriteError s) = print_msg_or_error (message s) (fs_error s)"
| "FileError_fmt (CloseError s) = print_msg_or_error (message s) (fs_error s)"
| "FileError_fmt (FlushError s) = print_msg_or_error (message s) (fs_error s)"
| "FileError_fmt (PermissionError s) = print_msg_or_error (message s) (fs_error s)"
| "FileError_fmt (NotFoundError s) = print_msg_or_error (message s) (fs_error s)"

section \<open>Lemmas\<close>

lemma FsError_fmt_returns: "FsError_fmt e = Some t \<Longrightarrow> e \<noteq> FsFileNotFound"
  by (erule FsError_fmt.raw_induct [where P = "\<lambda>e _. e \<noteq> FsFileNotFound", rotated]) (auto split: FsError.splits)

text \<open>The conversion of an error keeps its name in the text.\<close>

lemma FileError_from_text: "FileError_fmt (FileError_from e) = FsError_debug e"
  by (cases e) (simp_all add: inner_from_def print_msg_or_error_def)

section \<open>Properties\<close>

text \<open>
  C39. The text of an error of the filesystem is produced for all errors but one: that of
  \<open>FileNotFound\<close> recurses without end. The text of the error of a file is its name in any case.
\<close>

theorem file_not_found_text_diverges:
  "(FsError_fmt e = None \<longleftrightarrow> e = FsFileNotFound) \<and> FileError_fmt (FileError_from e) = FsError_debug e"
proof -
  have "FsError_fmt FsFileNotFound = None" using FsError_fmt_returns by fastforce
  moreover have "FsError_fmt e \<noteq> None" if "e \<noteq> FsFileNotFound"
    using that by (subst FsError_fmt.simps) (simp split: FsError.split)
  ultimately show ?thesis using FileError_from_text by blast
qed

end
