(* ===== verification/Text.thy ===== *)
theory Text
  imports Prelude
begin

text \<open>
  Text as the kernel's files and messages use it: decimal numbers, fields between separators,
  lines, and the validity of UTF-8. These are the functions of the Rust library that
  \<open>user.rs\<close>, \<open>devices/proc.rs\<close>, \<open>clk\<close> and the system calls use (\<open>split\<close>, \<open>lines\<close>, \<open>trim\<close>,
  \<open>parse\<close>, \<open>format!\<close>), with the round trips that their clients need.
\<close>

section \<open>Decimal numbers\<close>

definition digit :: "nat \<Rightarrow> char" where
  "digit n = char_of (48 + n)"

fun show_nat :: "nat \<Rightarrow> string" where
  "show_nat n = (if n < 10 then [digit n] else show_nat (n div 10) @ [digit (n mod 10)])"

declare show_nat.simps [simp del]

text \<open>\<open>{:02}\<close> and \<open>{:04}\<close>.\<close>

definition pad_zero :: "nat \<Rightarrow> string \<Rightarrow> string" where
  "pad_zero n s = replicate (n - length s) CHR ''0'' @ s"

definition digit_value :: "char \<Rightarrow> nat option" where
  "digit_value c = (let n = of_char c :: nat in if 48 \<le> n \<and> n \<le> 57 then Some (n - 48) else None)"

text \<open>\<open>parse\<close> of an unsigned type with the largest value \<open>limit\<close>: an optional plus sign and digits.\<close>

fun parse_digits :: "nat \<Rightarrow> nat \<Rightarrow> string \<Rightarrow> nat option" where
  "parse_digits limit acc [] = Some acc"
| "parse_digits limit acc (c # cs) = (case digit_value c of
      None \<Rightarrow> None
    | Some d \<Rightarrow> if acc * 10 + d \<le> limit then parse_digits limit (acc * 10 + d) cs else None)"

definition parse_uint :: "nat \<Rightarrow> string \<Rightarrow> nat option" where
  "parse_uint limit s = (case s of
      [] \<Rightarrow> None
    | c # cs \<Rightarrow>
        if c = CHR ''+'' then (if cs = [] then None else parse_digits limit 0 cs)
        else parse_digits limit 0 s)"

lemma digit_value_digit [simp]: "d < 10 \<Longrightarrow> digit_value (digit d) = Some d"
  by (simp add: digit_value_def digit_def Let_def of_char_of)

lemma parse_digits_append:
  "parse_digits limit acc (xs @ ys) = (case parse_digits limit acc xs of
      None \<Rightarrow> None | Some v \<Rightarrow> parse_digits limit v ys)"
  by (induction xs arbitrary: acc) (auto split: option.splits)

lemma parse_digits_show: "n \<le> limit \<Longrightarrow> parse_digits limit 0 (show_nat n) = Some n"
proof (induction n rule: show_nat.induct)
  case (1 n)
  then show ?case
    by (subst show_nat.simps) (auto simp: parse_digits_append div_le_dividend [THEN order_trans] not_less)
qed

lemma digit_plus: "d < 10 \<Longrightarrow> digit d \<noteq> CHR ''+''"
  by (auto simp: digit_def of_char_of dest!: arg_cong [where f = "of_char :: char \<Rightarrow> nat"])

lemma show_nat_Cons: "\<exists>d cs. show_nat n = digit d # cs \<and> d < 10"
proof (induction n rule: show_nat.induct)
  case (1 n)
  show ?case
  proof (cases "n < 10")
    case True
    then show ?thesis by (subst show_nat.simps) auto
  next
    case False
    then show ?thesis using 1 by (subst show_nat.simps) (metis append_Cons)
  qed
qed

lemma parse_uint_show: "n \<le> limit \<Longrightarrow> parse_uint limit (show_nat n) = Some n"
  using show_nat_Cons [of n] parse_digits_show [of n limit] by (auto simp: parse_uint_def digit_plus)

text \<open>The characters of a number are digits.\<close>

lemma set_show_nat: "set (show_nat n) \<subseteq> digit ` {..<10}"
proof (induction n rule: show_nat.induct)
  case (1 n)
  then show ?case by (subst show_nat.simps) (auto simp: not_less)
qed

section \<open>Fields and lines\<close>

text \<open>\<open>split(sep)\<close>: always at least one field.\<close>

fun split_on :: "char \<Rightarrow> string \<Rightarrow> string list" where
  "split_on sep [] = [[]]"
| "split_on sep (c # cs) =
     (if c = sep then [] # split_on sep cs
      else (case split_on sep cs of [] \<Rightarrow> [[c]] | p # ps \<Rightarrow> (c # p) # ps))"

fun join :: "char \<Rightarrow> string list \<Rightarrow> string" where
  "join sep [] = []"
| "join sep [p] = p"
| "join sep (p # q # ps) = p @ sep # join sep (q # ps)"

lemma split_on_not_Nil [simp]: "split_on sep s \<noteq> []"
  by (induction s) (auto split: list.splits)

lemma split_on_plain: "sep \<notin> set p \<Longrightarrow> split_on sep p = [p]"
  by (induction p) auto

lemma split_on_Cons: "sep \<notin> set p \<Longrightarrow> split_on sep (p @ sep # s) = p # split_on sep s"
  by (induction p) auto

lemma split_on_join: "ps \<noteq> [] \<Longrightarrow> (\<And>p. p \<in> set ps \<Longrightarrow> sep \<notin> set p) \<Longrightarrow> split_on sep (join sep ps) = ps"
  by (induction sep ps rule: join.induct) (auto simp: split_on_plain split_on_Cons)

text \<open>\<open>lines\<close>: each line without its line end (\<open>\n\<close> or \<open>\r\n\<close>); no empty line behind the last.\<close>

definition carriage_return :: char where
  "carriage_return = CHR 0x0D"

definition strip_cr :: "string \<Rightarrow> string" where
  "strip_cr l = (if l \<noteq> [] \<and> last l = carriage_return then butlast l else l)"

definition newline :: char where
  "newline = CHR 0x0A"

definition lines :: "string \<Rightarrow> string list" where
  "lines s = (let ps = split_on newline s in
     map strip_cr (butlast ps) @ (if last ps = [] then [] else [last ps]))"

definition unlines :: "string list \<Rightarrow> string" where
  "unlines ls = concat (map (\<lambda>l. l @ [newline]) ls)"

lemma split_on_unlines: "(\<And>l. l \<in> set ls \<Longrightarrow> newline \<notin> set l) \<Longrightarrow> split_on newline (unlines ls) = ls @ [[]]"
  by (induction ls) (auto simp: unlines_def split_on_Cons)

lemma lines_unlines:
  assumes "\<And>l. l \<in> set ls \<Longrightarrow> newline \<notin> set l \<and> carriage_return \<notin> set l"
  shows "lines (unlines ls) = ls"
proof -
  have "strip_cr l = l" if "l \<in> set ls" for l
  proof -
    have "l \<noteq> [] \<longrightarrow> last l \<noteq> carriage_return" using assms [OF that] last_in_set [of l] by metis
    then show ?thesis by (auto simp: strip_cr_def)
  qed
  then show ?thesis using split_on_unlines [of ls] assms by (simp add: lines_def map_idI)
qed

section \<open>Character classes\<close>

definition is_ascii_graphic :: "char \<Rightarrow> bool" where
  "is_ascii_graphic c \<longleftrightarrow> (let n = of_char c :: nat in 0x21 \<le> n \<and> n \<le> 0x7E)"

definition is_ascii_whitespace :: "char \<Rightarrow> bool" where
  "is_ascii_whitespace c \<longleftrightarrow> of_char c \<in> {0x20, 0x09, 0x0A, 0x0C, 0x0D :: nat}"

text \<open>\<open>trim().is_empty()\<close>, for ASCII text.\<close>

definition is_blank :: "string \<Rightarrow> bool" where
  "is_blank s = list_all (\<lambda>c. of_char c \<in> {0x20, 0x09, 0x0A, 0x0B, 0x0C, 0x0D :: nat}) s"

section \<open>UTF-8\<close>

definition in_range :: "nat \<Rightarrow> nat \<Rightarrow> u8 \<Rightarrow> bool" where
  "in_range lo hi b \<longleftrightarrow> lo \<le> unat b \<and> unat b \<le> hi"

abbreviation is_cont :: "u8 \<Rightarrow> bool" where
  "is_cont \<equiv> in_range 0x80 0xBF"

text \<open>The well-formed sequences of one to four bytes.\<close>

fun valid_utf8 :: "u8 list \<Rightarrow> bool" where
  "valid_utf8 [] = True"
| "valid_utf8 (a # bs) =
     (if in_range 0 0x7F a then valid_utf8 bs
      else case bs of
        b # cs \<Rightarrow>
          if in_range 0xC2 0xDF a \<and> is_cont b then valid_utf8 cs
          else (case cs of
            c # ds \<Rightarrow>
              if is_cont c \<and> (unat a = 0xE0 \<and> in_range 0xA0 0xBF b \<or> in_range 0xE1 0xEC a \<and> is_cont b \<or>
                  unat a = 0xED \<and> in_range 0x80 0x9F b \<or> in_range 0xEE 0xEF a \<and> is_cont b)
              then valid_utf8 ds
              else (case ds of
                d # es \<Rightarrow>
                  is_cont c \<and> is_cont d \<and> (unat a = 0xF0 \<and> in_range 0x90 0xBF b \<or>
                    in_range 0xF1 0xF3 a \<and> is_cont b \<or> unat a = 0xF4 \<and> in_range 0x80 0x8F b) \<and>
                  valid_utf8 es
              | [] \<Rightarrow> False)
          | [] \<Rightarrow> False)
      | [] \<Rightarrow> False)"

lemma valid_utf8_ascii: "list_all (in_range 0 0x7F) bs \<Longrightarrow> valid_utf8 bs"
  by (induction bs) auto

end
