(* ===== verification/User.thy ===== *)
theory User
  imports Text
begin

text \<open>
  The user database of \<open>kernel/src/internal/user.rs\<close>: the lines of \<open>/etc/users\<close>, the list
  \<open>USERS\<close>, password checks and the lookup of a user identifier. \<open>hex_encode\<close> is the function
  of the crate \<open>hex\<close>. Reading the file through system calls is in \<open>Syscall\<close>.
\<close>

section \<open>Users\<close>

record User =
  uid :: nat
  user_name :: string
  passhash :: string
  home_dir :: string
  user_shell :: string
  groups :: "string list"

definition u64_max :: nat where
  "u64_max = 2 ^ 64 - 1"

definition check_password :: "(string \<Rightarrow> string) \<Rightarrow> User \<Rightarrow> string \<Rightarrow> bool" where
  "check_password hex_encode u pass \<longleftrightarrow> hex_encode pass = passhash u"

definition User_new :: "(string \<Rightarrow> string) \<Rightarrow> nat \<Rightarrow> string \<Rightarrow> string \<Rightarrow> string \<Rightarrow> string \<Rightarrow> string list \<Rightarrow> User" where
  "User_new hex_encode i name pass home sh gs =
     \<lparr>uid = i, user_name = name, passhash = hex_encode pass, home_dir = home, user_shell = sh, groups = gs\<rparr>"

text \<open>One line: \<open>name:passhash:uid:groups:home_dir:shell\<close>.\<close>

definition User_try_from :: "string \<Rightarrow> (string, User) outcome" where
  "User_try_from s =
     (let parts = split_on CHR '':'' s in
      if length parts \<noteq> 6 then Err ''invalid user entry''
      else (case parse_uint u64_max (parts ! 2) of
          None \<Rightarrow> Err ''invalid uid''
        | Some i \<Rightarrow> Ok \<lparr>uid = i, user_name = parts ! 0, passhash = parts ! 1, home_dir = parts ! 4,
            user_shell = parts ! 5, groups = split_on CHR '','' (parts ! 3)\<rparr>))"

text \<open>The whole file: invalid UTF-8 and an invalid line panic (\<open>unwrap\<close>).\<close>

fun collect_users :: "string list \<Rightarrow> ('e, User list) outcome" where
  "collect_users [] = Ok []"
| "collect_users (l # ls) =
     obind (expect (User_try_from l)) (\<lambda>u. obind (collect_users ls) (\<lambda>us. Ok (u # us)))"

definition parse_users :: "u8 list \<Rightarrow> ('e, User list) outcome" where
  "parse_users buf =
     (if \<not> valid_utf8 buf then Panic
      else
        (let text_of = filter (\<lambda>c. is_ascii_graphic c \<or> is_ascii_whitespace c) (map (\<lambda>b. char_of (unat b)) buf)
         in collect_users (filter (\<lambda>l. \<not> is_blank l) (lines text_of))))"

text \<open>\<open>USERS\<close> is \<open>None\<close> until it is initialised; \<open>init_once\<close> does nothing the second time.\<close>

definition init_once :: "User list \<Rightarrow> User list option \<Rightarrow> User list option" where
  "init_once us users = (case users of None \<Rightarrow> Some us | Some old \<Rightarrow> Some old)"

definition get_uid :: "User list option \<Rightarrow> string \<Rightarrow> ('e, nat option) outcome" where
  "get_uid users name = (case users of
      None \<Rightarrow> Panic
    | Some us \<Rightarrow> Ok (map_option uid (find (\<lambda>u. user_name u = name) us)))"

section \<open>Entries\<close>

definition show_user :: "User \<Rightarrow> string" where
  "show_user u = join CHR '':'' [user_name u, passhash u, show_nat (uid u), join CHR '','' (groups u),
     home_dir u, user_shell u]"

text \<open>Text that can be a field: printable characters without the separators.\<close>

definition field_text :: "string \<Rightarrow> bool" where
  "field_text s \<longleftrightarrow> (\<forall>c \<in> set s. is_ascii_graphic c \<and> c \<noteq> CHR '':'' \<and> c \<noteq> CHR '','')"

definition valid_user :: "User \<Rightarrow> bool" where
  "valid_user u \<longleftrightarrow> uid u \<le> u64_max \<and> field_text (user_name u) \<and> field_text (passhash u) \<and>
     field_text (home_dir u) \<and> field_text (user_shell u) \<and> groups u \<noteq> [] \<and> (\<forall>g \<in> set (groups u). field_text g)"

lemma set_join: "set (join sep ps) \<subseteq> insert sep (\<Union> (set ` set ps))"
  by (induction sep ps rule: join.induct) auto

lemma digit_code: "d < 10 \<Longrightarrow> of_char (digit d) = 48 + d"
  by (simp add: digit_def of_char_of)

lemma digit_graphic: "c \<in> set (show_nat n) \<Longrightarrow> is_ascii_graphic c \<and> c \<noteq> CHR '':'' \<and> c \<noteq> CHR '',''"
proof -
  assume "c \<in> set (show_nat n)"
  then obtain d where "c = digit d" "d < 10" using set_show_nat [of n] by auto
  then show ?thesis
    using digit_code [of d] by (auto simp: is_ascii_graphic_def dest!: arg_cong [where f = "of_char :: char \<Rightarrow> nat"])
qed

lemma field_text_show: "field_text (show_nat n)"
  using digit_graphic by (auto simp: field_text_def)

lemma field_no_sep: "field_text s \<Longrightarrow> CHR '':'' \<notin> set s \<and> CHR '','' \<notin> set s"
  by (auto simp: field_text_def)

lemma try_from_show_user:
  assumes "valid_user u"
  shows "User_try_from (show_user u) = Ok u"
proof -
  let ?parts = "[user_name u, passhash u, show_nat (uid u), join CHR '','' (groups u), home_dir u, user_shell u]"
  have groups: "split_on CHR '','' (join CHR '','' (groups u)) = groups u"
    using assms field_no_sep by (intro split_on_join) (auto simp: valid_user_def)
  have "CHR '':'' \<notin> set (join CHR '','' (groups u))"
    using assms set_join [of "CHR '',''" "groups u"] field_no_sep by (auto simp: valid_user_def)
  then have "split_on CHR '':'' (show_user u) = ?parts"
    using assms field_no_sep field_no_sep [OF field_text_show] unfolding show_user_def
    by (intro split_on_join) (auto simp: valid_user_def)
  then show ?thesis using assms
    by (simp add: User_try_from_def groups parse_uint_show valid_user_def numeral_eq_Suc)
qed

text \<open>The characters of an entry are printable, and it is not blank.\<close>

lemma show_user_graphic:
  assumes "valid_user u" and "c \<in> set (show_user u)"
  shows "is_ascii_graphic c"
proof -
  let ?parts = "[user_name u, passhash u, show_nat (uid u), join CHR '','' (groups u), home_dir u, user_shell u]"
  have parts: "is_ascii_graphic c'" if "p \<in> set ?parts" "c' \<in> set p" for p c'
    using that assms(1) set_join [of "CHR '',''" "groups u"] digit_graphic
    by (auto simp: valid_user_def field_text_def is_ascii_graphic_def)
  have "c \<in> insert CHR '':'' (\<Union> (set ` set ?parts))" using assms(2) set_join [of "CHR '':''" ?parts]
    unfolding show_user_def by blast
  moreover have "is_ascii_graphic CHR '':''" by (simp add: is_ascii_graphic_def)
  ultimately show ?thesis using parts by blast
qed

lemma show_user_not_blank: "\<not> is_blank (show_user u)"
  by (simp add: show_user_def is_blank_def)

lemma collect_users_show: "(\<And>u. u \<in> set us \<Longrightarrow> valid_user u) \<Longrightarrow> collect_users (map show_user us) = Ok us"
  by (induction us) (auto simp: try_from_show_user)

lemma char_of_as_bytes: "map (\<lambda>b. char_of (unat b)) (as_bytes s) = s"
  by (simp add: as_bytes_def comp_def unat_of_char)

definition users_file :: "User list \<Rightarrow> string" where
  "users_file us = unlines (map show_user us)"

lemma users_file_chars:
  assumes "\<And>u. u \<in> set us \<Longrightarrow> valid_user u" and "c \<in> set (users_file us)"
  shows "is_ascii_graphic c \<or> c = newline"
proof -
  have "c = newline \<or> (\<exists>u \<in> set us. c \<in> set (show_user u))"
    using assms(2) by (auto simp: users_file_def unlines_def split: if_splits)
  then show ?thesis using assms(1) show_user_graphic by blast
qed

lemma as_bytes_ascii:
  "(\<And>c. c \<in> set s \<Longrightarrow> of_char c < (128 :: nat)) \<Longrightarrow> list_all (in_range 0 0x7F) (as_bytes s)"
  by (fastforce simp: list_all_iff in_range_def as_bytes_def unat_of_char)

section \<open>The user file\<close>

text \<open>
  The entries of valid users, one per line, read into a buffer that zeros fill up, are parsed
  to exactly these users.
\<close>

lemma parse_users_file:
  assumes "\<And>u. u \<in> set us \<Longrightarrow> valid_user u"
  shows "parse_users (as_bytes (users_file us) @ replicate k 0) = Ok us"
proof -
  let ?keep = "\<lambda>c. is_ascii_graphic c \<or> is_ascii_whitespace c"
  have chars: "is_ascii_graphic c \<or> c = newline" if "c \<in> set (users_file us)" for c
    using users_file_chars [of us c] assms that by blast
  have "list_all (in_range 0 0x7F) (as_bytes (users_file us) @ replicate k 0)"
  proof -
    have "of_char c < (128 :: nat)" if "c \<in> set (users_file us)" for c
      using chars [OF that] by (auto simp: is_ascii_graphic_def newline_def Let_def)
    from as_bytes_ascii [OF this] show ?thesis by (auto simp: list_all_iff in_range_def)
  qed
  then have valid: "valid_utf8 (as_bytes (users_file us) @ replicate k 0)" by (rule valid_utf8_ascii)
  have "filter ?keep (users_file us) = users_file us"
  proof -
    have "is_ascii_whitespace newline" by (simp add: is_ascii_whitespace_def newline_def)
    then show ?thesis using chars by (auto simp: filter_id_conv)
  qed
  moreover have "filter ?keep (replicate k (char_of (0 :: nat))) = []"
    by (auto simp: filter_empty_conv is_ascii_graphic_def is_ascii_whitespace_def)
  ultimately have text_of: "filter ?keep (map (\<lambda>b. char_of (unat b)) (as_bytes (users_file us) @ replicate k 0)) = users_file us"
    using char_of_as_bytes [of "users_file us"] by simp
  have "newline \<notin> set l \<and> carriage_return \<notin> set l" if "l \<in> set (map show_user us)" for l
    using that assms show_user_graphic by (fastforce simp: is_ascii_graphic_def newline_def carriage_return_def)
  then have "lines (users_file us) = map show_user us" unfolding users_file_def by (rule lines_unlines)
  moreover have "filter (\<lambda>l. \<not> is_blank l) (map show_user us) = map show_user us"
    by (simp add: filter_id_conv show_user_not_blank)
  ultimately show ?thesis
    unfolding parse_users_def Let_def text_of using valid assms by (simp add: collect_users_show)
qed

definition sample_user :: User where
  "sample_user = \<lparr>uid = 1000, user_name = ''ann'', passhash = ''70'', home_dir = ''/home'', user_shell = ''/sh'',
     groups = [''a'', ''b'']\<rparr>"

lemma sample_user_valid: "valid_user sample_user"
  by (simp add: valid_user_def sample_user_def field_text_def is_ascii_graphic_def u64_max_def)

end
