(* ===== verification/Ports.thy ===== *)
theory Ports
  imports Prelude
begin

text \<open>
  The I/O ports of the machine, the crate \<open>x86_64\<close> and the hardware behind it: operations on
  bytes and 16-bit words at a port, over a machine state \<open>'p\<close>. The drivers take a \<open>Port_io\<close>
  as their parameter.
\<close>

record 'p Port_io =
  inb :: "u16 \<Rightarrow> 'p \<Rightarrow> u8 \<times> 'p"
  inw :: "u16 \<Rightarrow> 'p \<Rightarrow> u16 \<times> 'p"
  outb :: "u16 \<Rightarrow> u8 \<Rightarrow> 'p \<Rightarrow> 'p"
  outw :: "u16 \<Rightarrow> u16 \<Rightarrow> 'p \<Rightarrow> 'p"

end
