(* ===== verification/F64.thy ===== *)
theory F64
  imports Prelude "HOL-Library.Log_Nat"
begin

text \<open>
  The floating-point type \<open>f64\<close> as far as the clock uses it (\<open>clk/pit.rs\<close>, \<open>clk/mod.rs\<close>): finite numbers that are not negative are
  rationals, and every operation rounds its exact result to 53 binary digits, to the nearest and from halfway to the even neighbour.
  The clock stays far from the ends of the range of exponents, so that overflow and denormalised numbers do not occur.
\<close>

section \<open>Rounding\<close>

definition round_even :: "rat \<Rightarrow> int" where
  "round_even r =
     (let n = \<lfloor>r\<rfloor>; d = r - of_int n in
      if d < 1 / 2 \<or> d = 1 / 2 \<and> even n then n else n + 1)"

text \<open>The largest power of two that is at most \<open>x\<close>, for \<open>0 < x\<close>.\<close>

definition binade :: "rat \<Rightarrow> int" where
  "binade x = (case quotient_of x of (p, q) \<Rightarrow>
     let e = bitlen p - bitlen q in if x < 2 powi e then e - 1 else e)"

definition f64 :: "rat \<Rightarrow> rat" where
  "f64 x = (if x \<le> 0 then 0 else let u = 2 powi (binade x - 52) in of_int (round_even (x / u)) * u)"

text \<open>\<open>as u64\<close> and \<open>as usize\<close> cut off the fraction and saturate.\<close>

definition as_u64 :: "rat \<Rightarrow> nat" where
  "as_u64 r = min usize_max (nat \<lfloor>r\<rfloor>)"

section \<open>Bounds\<close>

lemma round_even_near: "\<bar>of_int (round_even r) - r\<bar> \<le> 1 / 2"
proof -
  have "of_int \<lfloor>r\<rfloor> \<le> r" "r < of_int \<lfloor>r\<rfloor> + 1" by linarith+
  then show ?thesis by (auto simp: round_even_def Let_def abs_le_iff)
qed

lemma binade_le: "0 < x \<Longrightarrow> 2 powi binade x \<le> x"
proof -
  assume x: "0 < x"
  obtain p q where pq: "quotient_of x = (p, q)" by (cases "quotient_of x")
  have q: "0 < q" using quotient_of_denom_pos [OF pq] .
  have eq: "x = of_int p / of_int q" using quotient_of_div [OF pq] .
  have p: "0 < p" using x q by (simp add: eq zero_less_divide_iff)
  define a b where "a = nat (bitlen p - 1)" and "b = nat (bitlen q)"
  have "2 ^ a \<le> p" and "q < 2 ^ b" using bitlen_bounds [OF p] bitlen_bounds [OF q] by (simp_all add: a_def b_def)
  then have "of_int (2 ^ a) \<le> (of_int p :: rat)" and "(of_int q :: rat) \<le> of_int (2 ^ b)"
    by (simp_all only: of_int_le_iff less_imp_le)
  then have "(2 :: rat) ^ a \<le> of_int p" and "of_int q \<le> (2 :: rat) ^ b" by simp_all
  then have "(2 :: rat) ^ a / 2 ^ b \<le> x" unfolding eq using p q by (intro frac_le) simp_all
  moreover have "int a - int b = bitlen p - bitlen q - 1"
    using bitlen_nonneg [of q] bitlen_nonneg [of p] bitlen_eq_zero_iff [of p] p by (simp add: a_def b_def)
  then have "(2 :: rat) powi (bitlen p - bitlen q - 1) = 2 ^ a / 2 ^ b"
    using power_int_diff [of "2 :: rat" "int a" "int b"] by simp
  ultimately have "(2 :: rat) powi (bitlen p - bitlen q - 1) \<le> x" by simp
  then show ?thesis by (simp add: binade_def pq Let_def)
qed

text \<open>The relative error of an operation.\<close>

lemma f64_error: "0 \<le> x \<Longrightarrow> \<bar>f64 x - x\<bar> \<le> x / 2 ^ 53"
proof (cases "x = 0")
  case False
  assume "0 \<le> x"
  with False have x: "0 < x" by simp
  define u :: rat where "u = 2 powi (binade x - 52)"
  have u: "0 < u" by (simp add: u_def zero_less_power_int)
  have "\<bar>of_int (round_even (x / u)) * u - x\<bar> = \<bar>of_int (round_even (x / u)) - x / u\<bar> * u"
  proof -
    have "of_int (round_even (x / u)) * u - x = (of_int (round_even (x / u)) - x / u) * u" using u by (simp add: left_diff_distrib)
    then show ?thesis using u by (simp add: abs_mult)
  qed
  also have "\<dots> \<le> 1 / 2 * u" using round_even_near [of "x / u"] u by (intro mult_right_mono) simp_all
  also have "\<dots> = 2 powi binade x / 2 ^ 53" by (simp add: u_def power_int_diff)
  also have "\<dots> \<le> x / 2 ^ 53" using binade_le [OF x] by (intro divide_right_mono) simp_all
  finally show ?thesis using x by (simp add: f64_def u_def [symmetric])
qed (simp add: f64_def)

lemma f64_between:
  assumes "0 \<le> a" and "a \<le> x" and "x \<le> b"
  shows "a * (1 - 1 / 2 ^ 53) \<le> f64 x" and "f64 x \<le> b * (1 + 1 / 2 ^ 53)"
proof -
  have "x * (1 - 1 / 2 ^ 53) \<le> f64 x" "f64 x \<le> x * (1 + 1 / 2 ^ 53)"
    using f64_error [of x] assms unfolding abs_le_iff by (simp_all add: distrib_left right_diff_distrib)
  moreover have "a * (1 - 1 / 2 ^ 53) \<le> x * (1 - 1 / 2 ^ 53)" "x * (1 + 1 / 2 ^ 53) \<le> b * (1 + 1 / 2 ^ 53)"
    using assms by (intro mult_right_mono; simp)+
  ultimately show "a * (1 - 1 / 2 ^ 53) \<le> f64 x" "f64 x \<le> b * (1 + 1 / 2 ^ 53)" by linarith+
qed

lemma f64_rough:
  "0 \<le> a \<Longrightarrow> a \<le> x \<Longrightarrow> a * (9999 / 10000) \<le> f64 x" "0 \<le> x \<Longrightarrow> x \<le> b \<Longrightarrow> f64 x \<le> b * (10001 / 10000)"
proof -
  assume "0 \<le> a" "a \<le> x"
  moreover from this have "a * (9999 / 10000) \<le> a * (1 - 1 / 2 ^ 53)" by (intro mult_left_mono) simp_all
  ultimately show "a * (9999 / 10000) \<le> f64 x" using f64_between(1) [of a x x] by linarith
next
  assume "0 \<le> x" "x \<le> b"
  moreover from this have "b * (1 + 1 / 2 ^ 53) \<le> b * (10001 / 10000)" by (intro mult_left_mono) simp_all
  ultimately show "f64 x \<le> b * (10001 / 10000)" using f64_between(2) [of x x b] by linarith
qed

lemma f64_nonneg [simp]: "0 \<le> f64 x"
  using f64_between(1) [of 0 x x] by (cases "0 \<le> x") (simp_all add: f64_def)

section \<open>Evaluation\<close>

lemma binade_gt: "0 < x \<Longrightarrow> x < 2 powi (binade x + 1)"
proof -
  assume x: "0 < x"
  obtain p q where pq: "quotient_of x = (p, q)" by (cases "quotient_of x")
  have q: "0 < q" using quotient_of_denom_pos [OF pq] .
  have eq: "x = of_int p / of_int q" using quotient_of_div [OF pq] .
  have p: "0 < p" using x q by (simp add: eq zero_less_divide_iff)
  define a b where "a = nat (bitlen p)" and "b = nat (bitlen q - 1)"
  have "p < 2 ^ a" and "2 ^ b \<le> q" using bitlen_bounds [OF p] bitlen_bounds [OF q] by (simp_all add: a_def b_def)
  then have "(of_int p :: rat) < of_int (2 ^ a)" and "of_int (2 ^ b) \<le> (of_int q :: rat)"
    by (simp_all only: of_int_le_iff of_int_less_iff)
  then have "of_int p < (2 :: rat) ^ a" and "(2 :: rat) ^ b \<le> of_int q" by simp_all
  then have "x < (2 :: rat) ^ a / 2 ^ b" unfolding eq using p q by (intro frac_less) simp_all
  moreover have "int a - int b = bitlen p - bitlen q + 1"
    using bitlen_nonneg [of q] bitlen_nonneg [of p] bitlen_eq_zero_iff [of q] q by (simp add: a_def b_def)
  then have "(2 :: rat) powi (bitlen p - bitlen q + 1) = 2 ^ a / 2 ^ b"
    using power_int_diff [of "2 :: rat" "int a" "int b"] by simp
  ultimately have "x < (2 :: rat) powi (bitlen p - bitlen q + 1)" by simp
  then show ?thesis by (simp add: binade_def pq Let_def)
qed

lemma round_even_eq: "\<bar>r - of_int n\<bar> < 1 / 2 \<Longrightarrow> round_even r = n"
  using round_even_near [of r] by linarith

text \<open>To evaluate: \<open>u\<close> is the distance of neighbours, and \<open>n\<close> the 53 digits.\<close>

lemma f64_eq:
  assumes "u = 2 powi k" and "2 ^ 52 * u \<le> x" and "x < 2 ^ 53 * u" and "\<bar>x / u - of_int n\<bar> < 1 / 2"
  shows "f64 x = of_int n * u"
proof -
  have "0 < u" by (simp add: assms(1) zero_less_power_int)
  then have x: "0 < x" by (intro less_le_trans [OF _ assms(2)]) simp
  have powers: "(2 :: rat) powi (k + 53) = 2 ^ 53 * u" "(2 :: rat) powi (k + 52) = 2 ^ 52 * u"
    using power_int_add [of "2 :: rat" k 53] power_int_add [of "2 :: rat" k 52]
    by (simp_all only: assms(1) power_int_numeral mult.commute) simp_all
  have "\<not> k + 53 \<le> binade x"
    using power_int_increasing [of "k + 53" "binade x" "2 :: rat"] binade_le [OF x] assms(3) unfolding powers by linarith
  moreover have "\<not> binade x + 1 \<le> k + 52"
    using power_int_increasing [of "binade x + 1" "k + 52" "2 :: rat"] binade_gt [OF x] assms(2) unfolding powers by linarith
  ultimately have "binade x - 52 = k" by linarith
  then show ?thesis using x round_even_eq [OF assms(4)] assms(1) by (simp add: f64_def)
qed

lemma f64_fraction:
  assumes "2 ^ 52 / 2 ^ m \<le> x" and "x < 2 ^ 53 / 2 ^ m" and "\<bar>x * 2 ^ m - of_int n\<bar> < 1 / 2"
  shows "f64 x = of_int n / 2 ^ m"
  using f64_eq [of "1 / 2 ^ m" "- int m" x n] assms by (simp add: power_int_minus inverse_eq_divide)

end
