(* ===== verification/Clk.thy ===== *)
theory Clk
  imports Complex_Main "HOL-Library.Signed_Division" Text Ports F64
begin

unbundle bit_operations_syntax

text \<open>
  The clock: the registers of the real-time clock (\<open>clk/rtc.rs\<close>), the conversion of a date
  to Unix time and to text (\<open>clk/mod.rs\<close>), and the ticks of the interval timer with the
  loop of \<open>sleep\<close> (\<open>clk/pit.rs\<close>). Readings of the tick counter and
  of the time-stamp counter are arguments. Each floating-point operation of the source rounds
  its exact result by \<open>f64\<close>.
\<close>

section \<open>The real-time clock\<close>

definition CMOS_ADDRESS :: u16 where
  "CMOS_ADDRESS = 0x70"

definition CMOS_DATA :: u16 where
  "CMOS_DATA = 0x71"

definition read_rtc_register :: "'p Port_io \<Rightarrow> u8 \<Rightarrow> 'p \<Rightarrow> u8 \<times> 'p" where
  "read_rtc_register io r m = inb io CMOS_DATA (outb io CMOS_ADDRESS r m)"

definition bcd_to_binary :: "u8 \<Rightarrow> u8" where
  "bcd_to_binary v = (v AND 0x0F) + (v div 16) * 10"

text \<open>Second, minute, hour, day, month and year, in this order.\<close>

type_synonym rtc_time = "u8 \<times> u8 \<times> u8 \<times> u8 \<times> u8 \<times> u8"

definition read_rtc :: "'p Port_io \<Rightarrow> 'p \<Rightarrow> rtc_time \<times> 'p" where
  "read_rtc io m =
     (case read_rtc_register io 0x00 m of (second, m) \<Rightarrow>
     (case read_rtc_register io 0x02 m of (minute, m) \<Rightarrow>
     (case read_rtc_register io 0x04 m of (hour, m) \<Rightarrow>
     (case read_rtc_register io 0x07 m of (day, m) \<Rightarrow>
     (case read_rtc_register io 0x08 m of (month, m) \<Rightarrow>
     (case read_rtc_register io 0x09 m of (year, m) \<Rightarrow>
       ((bcd_to_binary second, bcd_to_binary minute, bcd_to_binary hour,
         bcd_to_binary day, bcd_to_binary month, bcd_to_binary year), m)))))))"

section \<open>Dates\<close>

definition is_leap_year :: "int \<Rightarrow> bool" where
  "is_leap_year y \<longleftrightarrow> y smod 4 = 0 \<and> (y smod 100 \<noteq> 0 \<or> y smod 400 = 0)"

text \<open>Rust's division truncates.\<close>

definition unix_days :: "int \<Rightarrow> int \<Rightarrow> int \<Rightarrow> int" where
  "unix_days year month day =
     (year - 1970) * 365 + (year - 1969) sdiv 4 - (year - 1901) sdiv 100 + (year - 1601) sdiv 400
     + (367 * month - 362) sdiv 12
     + (if month \<le> 2 then 0 else if is_leap_year year then -1 else -2)
     + day - 1"

definition unix_time_of :: "rtc_time \<Rightarrow> u64" where
  "unix_time_of t = (case t of (second, minute, hour, day, month, year) \<Rightarrow>
     word_of_int (unix_days (uint year + 2000) (uint month) (uint day)) * 24 * 3600
       + ucast hour * 3600 + ucast minute * 60 + ucast second)"

definition get_unix_time :: "'p Port_io \<Rightarrow> 'p \<Rightarrow> u64 \<times> 'p" where
  "get_unix_time io m = (case read_rtc io m of (t, m') \<Rightarrow> (unix_time_of t, m'))"

definition get_time :: "'p Port_io \<Rightarrow> 'p \<Rightarrow> string \<times> 'p" where
  "get_time io m = (case read_rtc io m of ((second, minute, hour, day, month, year), m') \<Rightarrow>
     (pad_zero 2 (show_nat (unat hour)) @ '':'' @ pad_zero 2 (show_nat (unat minute)) @ '':'' @
      pad_zero 2 (show_nat (unat second)) @ '' '' @ pad_zero 4 (show_nat (unat year + 2000)) @ ''-'' @
      pad_zero 2 (show_nat (unat month)) @ ''-'' @ pad_zero 2 (show_nat (unat day)), m'))"

section \<open>Ticks\<close>

text \<open>Seconds between two ticks.\<close>

definition PIT_DIVIDER :: nat where
  "PIT_DIVIDER = 1193"

definition PIT_FREQUENCY :: rat where
  "PIT_FREQUENCY = f64 (3579545 / 3)"

definition PIT_INTERVAL :: rat where
  "PIT_INTERVAL = f64 (of_nat PIT_DIVIDER / PIT_FREQUENCY)"

definition pit_handler :: "nat \<Rightarrow> nat" where
  "pit_handler ticks = (if ticks = usize_max then 0 else ticks + 1)"

definition sleep_ticks :: "rat \<Rightarrow> nat" where
  "sleep_ticks seconds = as_u64 (f64 (seconds / PIT_INTERVAL))"

text \<open>
  The loop of \<open>sleep\<close> on the readings of the tick counter, one per turn; \<open>None\<close> says that it
  is still waiting after these readings. The difference panics when the counter has wrapped.
\<close>

fun sleep_loop :: "nat \<Rightarrow> nat \<Rightarrow> nat list \<Rightarrow> ('e, unit) outcome option" where
  "sleep_loop start n [] = None"
| "sleep_loop start n (now # later) =
     (if now < start then Some Panic
      else if now - start < n then sleep_loop start n later
      else Some (Ok ()))"

definition clk_sleep :: "rat \<Rightarrow> nat list \<Rightarrow> ('e, unit) outcome option" where
  "clk_sleep seconds readings = (case readings of
      [] \<Rightarrow> None
    | start # later \<Rightarrow> sleep_loop start (sleep_ticks seconds) later)"

definition get_time_since_boot :: "nat \<Rightarrow> rat" where
  "get_time_since_boot ticks = f64 (f64 (of_nat ticks) * PIT_INTERVAL)"

definition pit_init :: "'p Port_io \<Rightarrow> 'p \<Rightarrow> 'p" where
  "pit_init io p = outb io 0x40 (ucast (drop_bit 8 (word_of_nat PIT_DIVIDER :: u16)))
     (outb io 0x40 (ucast (word_of_nat PIT_DIVIDER AND 0xFF :: u16)) (outb io 0x43 0x36 p))"

text \<open>
  The frequency of the time-stamp counter is its difference over the second that \<open>calibrate_tsc\<close>
  sleeps. \<open>as u64\<close> saturates, and so makes the largest value of an infinite quotient and 0 of
  an undefined one.
\<close>

definition calibrate_tsc :: "nat \<Rightarrow> nat \<Rightarrow> ('e, nat) outcome" where
  "calibrate_tsc start fin = usize_sub fin start"

definition tsc_nanos :: "nat \<Rightarrow> nat \<Rightarrow> nat" where
  "tsc_nanos tsc tsc_freq =
     (if tsc_freq = 0 then if tsc = 0 then 0 else usize_max
      else as_u64 (f64 (f64 (f64 (of_nat tsc) / f64 (of_nat tsc_freq)) * 1000000000)))"

definition get_boot_time_ns :: "nat \<Rightarrow> nat \<Rightarrow> nat \<Rightarrow> ('e, nat) outcome" where
  "get_boot_time_ns ticks tsc tsc_freq =
     usize_add (tsc_nanos tsc tsc_freq) (as_u64 (f64 (get_time_since_boot ticks * 1000000000)))"

text \<open>\<open>wait\<close> has the loop of \<open>sleep\<close> on the time-stamp counter.\<close>

definition clk_wait :: "nat \<Rightarrow> nat \<Rightarrow> nat list \<Rightarrow> ('e, unit) outcome option" where
  "clk_wait ns tsc_freq readings = (case readings of
      [] \<Rightarrow> None
    | start # later \<Rightarrow> sleep_loop start (as_u64 (f64 (f64 (f64 (of_nat ns) / 1000000000) * f64 (of_nat tsc_freq)))) later)"

section \<open>The calendar\<close>

text \<open>The Gregorian calendar by counting days, as a reference for the formula.\<close>

definition gregorian_leap :: "int \<Rightarrow> bool" where
  "gregorian_leap y \<longleftrightarrow> 4 dvd y \<and> (\<not> 100 dvd y \<or> 400 dvd y)"

definition month_days :: "int \<Rightarrow> nat \<Rightarrow> int" where
  "month_days y m = (if m = 2 then (if gregorian_leap y then 29 else 28)
     else if m \<in> {4, 6, 9, 11} then 30 else 31)"

fun days_before_month :: "int \<Rightarrow> nat \<Rightarrow> int" where
  "days_before_month y 0 = 0"
| "days_before_month y (Suc 0) = 0"
| "days_before_month y (Suc (Suc m)) = days_before_month y (Suc m) + month_days y (Suc m)"

fun days_before_year :: "nat \<Rightarrow> int" where
  "days_before_year 0 = 0"
| "days_before_year (Suc n) =
     days_before_year n + (if gregorian_leap (1970 + int n) then 366 else 365)"

text \<open>Days from 1970-01-01 to a date.\<close>

definition days_since_epoch :: "nat \<Rightarrow> nat \<Rightarrow> nat \<Rightarrow> int" where
  "days_since_epoch y m d = days_before_year (y - 1970) + days_before_month (int y) m + int d - 1"

section \<open>Lemmas\<close>

text \<open>The constants of the timer as the compiler rounds them, and the ticks of a second.\<close>

lemma PIT_FREQUENCY_value: "PIT_FREQUENCY = 5124676236520107 / 2 ^ 32"
  using f64_fraction [where m = 32 and n = 5124676236520107 and x = "3579545 / 3"]
  by (simp add: PIT_FREQUENCY_def)

lemma PIT_INTERVAL_value: "PIT_INTERVAL = 4610983870841579 / 2 ^ 62"
  using f64_fraction [where m = 62 and n = 4610983870841579 and x = "1193 / PIT_FREQUENCY"]
  by (simp add: PIT_INTERVAL_def PIT_DIVIDER_def PIT_FREQUENCY_value)

lemma sleep_ticks_one: "sleep_ticks 1 = 1000"
proof -
  have ticks: "f64 (1 / PIT_INTERVAL) = 8797432466381542 / 2 ^ 43"
    using f64_fraction [where m = 43 and n = 8797432466381542 and x = "1 / PIT_INTERVAL"]
    by (simp add: PIT_INTERVAL_value)
  have "\<lfloor>8797432466381542 / 2 ^ 43 :: rat\<rfloor> = 1000" by (simp add: floor_eq_iff)
  then show ?thesis unfolding sleep_ticks_def ticks as_u64_def by simp
qed

lemma sdiv_nonneg: "0 \<le> a \<Longrightarrow> 0 < b \<Longrightarrow> (a :: int) sdiv b = a div b"
  by (cases "a = 0") (simp_all add: signed_divide_int_def)

lemma smod_nonneg: "0 \<le> a \<Longrightarrow> 0 < b \<Longrightarrow> (a :: int) smod b = a mod b"
  by (cases "a = 0") (simp_all add: signed_modulo_int_def)

lemma is_leap_year_gregorian: "0 \<le> y \<Longrightarrow> is_leap_year y = gregorian_leap y"
  by (simp add: is_leap_year_def gregorian_leap_def smod_nonneg dvd_eq_mod_eq_0)

lemma div_step:
  assumes "0 < (k :: int)"
  shows "(x + 1) div k = x div k + (if k dvd x + 1 then 1 else 0)"
proof (cases "k dvd x + 1")
  case True
  then obtain c where "x + 1 = k * c" by (elim dvdE)
  then have "x = k * (c - 1) + (k - 1)" by (simp add: algebra_simps)
  then have "x div k = c - 1" using assms by (intro int_div_pos_eq [of _ _ _ "k - 1"]) auto
  then show ?thesis using True \<open>x + 1 = k * c\<close> assms by simp
next
  case False
  have "x mod k + 1 \<noteq> k"
  proof
    assume k: "x mod k + 1 = k"
    have "x + 1 = k * (x div k) + (x mod k + 1)" by simp
    also have "\<dots> = k * (x div k + 1)" unfolding k by (simp add: distrib_left)
    finally have "x + 1 = k * (x div k + 1)" .
    then show False using False by simp
  qed
  then have "x mod k + 1 < k" using pos_mod_bound [OF assms, of x] by linarith
  moreover have "x + 1 = k * (x div k) + (x mod k + 1)" by (simp add: algebra_simps)
  ultimately have "(x + 1) div k = x div k"
    using pos_mod_sign [OF assms, of x] by (intro int_div_pos_eq [of _ _ _ "x mod k + 1"]) auto
  then show ?thesis using False by simp
qed

lemma leap_steps:
  fixes n :: int
  shows "(n + 2) div 4 = (n + 1) div 4 + (if 4 dvd (1970 + n) then 1 else 0)"
    and "(n + 70) div 100 = (n + 69) div 100 + (if 100 dvd (1970 + n) then 1 else 0)"
    and "(n + 370) div 400 = (n + 369) div 400 + (if 400 dvd (1970 + n) then 1 else 0)"
proof -
  have "4 dvd (n + 2) + 1968 \<longleftrightarrow> 4 dvd n + 2" "100 dvd (n + 70) + 1900 \<longleftrightarrow> 100 dvd n + 70"
    "400 dvd (n + 370) + 1600 \<longleftrightarrow> 400 dvd n + 370" by (rule dvd_add_left_iff; simp)+
  then show "(n + 2) div 4 = (n + 1) div 4 + (if 4 dvd (1970 + n) then 1 else 0)"
    "(n + 70) div 100 = (n + 69) div 100 + (if 100 dvd (1970 + n) then 1 else 0)"
    "(n + 370) div 400 = (n + 369) div 400 + (if 400 dvd (1970 + n) then 1 else 0)"
    using div_step [of 4 "n + 1"] div_step [of 100 "n + 69"] div_step [of 400 "n + 369"]
    by (simp_all add: add.commute [of 1970] add.assoc)
qed

lemma days_before_year_formula:
  "days_before_year n = int n * 365 + (int n + 1) div 4 - (int n + 69) div 100 + (int n + 369) div 400"
proof (induction n)
  case (Suc n)
  define p q r where "p \<longleftrightarrow> (4 :: int) dvd 1970 + int n" and "q \<longleftrightarrow> (100 :: int) dvd 1970 + int n"
    and "r \<longleftrightarrow> (400 :: int) dvd 1970 + int n"
  have "(4 :: int) dvd 100" "(100 :: int) dvd 400" by simp_all
  then have four: "q \<longrightarrow> p" "r \<longrightarrow> q" unfolding p_def q_def r_def using dvd_trans by blast+
  have next_year: "int (Suc n) + 1 = int n + 2" "int (Suc n) + 69 = int n + 70" "int (Suc n) + 369 = int n + 370"
    by simp_all
  show ?case unfolding next_year leap_steps days_before_year.simps Suc gregorian_leap_def
    unfolding p_def [symmetric] q_def [symmetric] r_def [symmetric]
    using four by (cases p; cases q; cases r; simp)
qed simp

lemma days_before_month_formula:
  assumes "1 \<le> m" and "m \<le> 12"
  shows "days_before_month y m =
    (367 * int m - 362) div 12 + (if m \<le> 2 then 0 else if gregorian_leap y then -1 else -2)"
proof -
  consider "m = 1" | "m = 2" | "m = 3" | "m = 4" | "m = 5" | "m = 6" | "m = 7" | "m = 8" | "m = 9"
    | "m = 10" | "m = 11" | "m = 12" using assms by (auto simp: numeral_eq_Suc le_Suc_eq)
  then show ?thesis
    by cases (simp_all add: numeral_eq_Suc month_days_def)
qed

lemma unix_days_calendar:
  assumes "1970 \<le> y" and "1 \<le> m" and "m \<le> 12"
  shows "unix_days (int y) (int m) (int d) = days_since_epoch y m d"
proof -
  have "int (y - 1970) = int y - 1970" using assms by simp
  then show ?thesis
    using assms days_before_year_formula [of "y - 1970"] days_before_month_formula [of m "int y"]
    by (simp add: unix_days_def days_since_epoch_def sdiv_nonneg is_leap_year_gregorian algebra_simps)
qed

lemma bcd_to_binary_digits:
  assumes "t \<le> 9" and "u \<le> 9"
  shows "unat (bcd_to_binary (word_of_nat (16 * t + u))) = 10 * t + u"
proof -
  define v :: u8 where "v = word_of_nat (16 * t + u)"
  have v: "unat v = 16 * t + u" using assms by (simp add: v_def unat_of_nat del: of_nat_add of_nat_mult)
  have "v AND 0x0F = take_bit 4 v" by (simp add: take_bit_eq_mask mask_eq_exp_minus_1)
  then have low: "unat (v AND 0x0F) = u" using assms by (simp add: take_bit_eq_mod unat_mod v)
  have high: "unat (v div 16) = t" using assms by (simp add: unat_div v)
  have "unat (v div 16 * 10) = 10 * t" using assms unat_word_ariths(2) [of "v div 16" 10] by (simp add: high)
  then show ?thesis
    using assms unat_word_ariths(1) [of "v AND 0x0F" "v div 16 * 10"] low
    unfolding bcd_to_binary_def v_def [symmetric] by simp
qed

text \<open>A clock chip: writing a register number to the address port selects what the data port reads.\<close>

definition rtc_io :: "(u8 \<Rightarrow> u8) \<Rightarrow> u8 Port_io" where
  "rtc_io regs = \<lparr>inb = (\<lambda>p m. (if p = 0x71 then regs m else 0, m)), inw = (\<lambda>_ m. (0, m)),
     outb = (\<lambda>p v m. if p = 0x70 then v else m), outw = (\<lambda>_ _ m. m)\<rparr>"

definition bcd :: "nat \<Rightarrow> u8" where
  "bcd n = word_of_nat (16 * (n div 10) + n mod 10)"

lemma unat_bcd: "n < 100 \<Longrightarrow> unat (bcd_to_binary (bcd n)) = n"
  using bcd_to_binary_digits [of "n div 10" "n mod 10"] by (simp add: bcd_def less_mult_imp_div_less)

lemma unix_days_nonneg:
  assumes "2000 \<le> y" and "1 \<le> m" and "m \<le> 12" and "y < 2100" and "d \<le> 31"
  shows "0 \<le> unix_days (int y) (int m) (int d)" and "unix_days (int y) (int m) (int d) < 50000"
proof -
  have "0 \<le> (int y - 1969) div 4" "(int y - 1969) div 4 \<le> 131 div 4"
    "0 \<le> (int y - 1901) div 100" "(int y - 1901) div 100 \<le> 199 div 100"
    "0 \<le> (int y - 1601) div 400" "(int y - 1601) div 400 \<le> 499 div 400"
    "0 \<le> (367 * int m - 362) div 12" "(367 * int m - 362) div 12 \<le> 4042 div 12"
    using assms by (auto intro!: zdiv_mono1 simp: pos_imp_zdiv_nonneg_iff)
  then show "0 \<le> unix_days (int y) (int m) (int d)" "unix_days (int y) (int m) (int d) < 50000"
    using assms by (simp_all add: unix_days_def sdiv_nonneg)
qed

section \<open>Properties\<close>

text \<open>
  C26. On a clock that reports a date of 2000 to 2099 in packed decimal digits, \<open>get_unix_time\<close>
  returns the seconds since 1970 that the Gregorian calendar gives.
\<close>

theorem unix_time_correct:
  assumes "regs 0 = bcd s" and "regs 2 = bcd mi" and "regs 4 = bcd h" and "regs 7 = bcd d"
    and "regs 8 = bcd mo" and "regs 9 = bcd y"
    and "s < 60" and "mi < 60" and "h < 24" and "1 \<le> mo" and "mo \<le> 12" and "y < 100"
    and "1 \<le> d" and "d \<le> 31"
  shows "int (unat (fst (get_unix_time (rtc_io regs) m))) =
    days_since_epoch (2000 + y) mo d * 86400 + int h * 3600 + int mi * 60 + int s"
proof -
  let ?days = "unix_days (int (2000 + y)) (int mo) (int d)"
  have rtc: "read_rtc (rtc_io regs) m = ((bcd_to_binary (bcd s), bcd_to_binary (bcd mi), bcd_to_binary (bcd h),
      bcd_to_binary (bcd d), bcd_to_binary (bcd mo), bcd_to_binary (bcd y)), 9)"
    by (simp add: read_rtc_def read_rtc_register_def rtc_io_def CMOS_ADDRESS_def CMOS_DATA_def assms(1-6))
  have bytes: "unat (bcd_to_binary (bcd s)) = s" "unat (bcd_to_binary (bcd mi)) = mi" "unat (bcd_to_binary (bcd h)) = h"
    "unat (bcd_to_binary (bcd d)) = d" "unat (bcd_to_binary (bcd mo)) = mo" "unat (bcd_to_binary (bcd y)) = y"
    using assms by (simp_all add: unat_bcd)
  have days: "0 \<le> ?days" "?days < 50000" using assms unix_days_nonneg [of "2000 + y" mo d] by simp_all
  obtain n where n: "?days = int n" "n < 50000" using days by (metis of_nat_less_numeral_iff zero_le_imp_eq_int)
  have "fst (get_unix_time (rtc_io regs) m) = word_of_nat (n * 24 * 3600 + h * 3600 + mi * 60 + s)"
  proof -
    have cast: "ucast b = (word_of_nat (unat b) :: u64)" for b :: u8 by simp
    have "unix_days (uint (bcd_to_binary (bcd y)) + 2000) (uint (bcd_to_binary (bcd mo))) (uint (bcd_to_binary (bcd d))) = int n"
      using n(1) by (simp add: uint_nat bytes add.commute)
    then show ?thesis unfolding get_unix_time_def rtc unix_time_of_def cast bytes
      by (simp add: cast bytes del: of_nat_unat)
  qed
  then have "unat (fst (get_unix_time (rtc_io regs) m)) = n * 24 * 3600 + h * 3600 + mi * 60 + s"
    using n(2) assms by (simp add: unat_of_nat del: of_nat_add of_nat_mult)
  then show ?thesis using n(1) unix_days_calendar [of "2000 + y" mo d] assms by simp
qed

definition sample_regs :: "u8 \<Rightarrow> u8" where
  "sample_regs r = bcd (if r = 0 then 45 else if r = 2 then 30 else if r = 4 then 12 else if r = 7 then 29
     else if r = 8 then 2 else 24)"

theorem unix_time_correct_witness:
  "unat (fst (get_unix_time (rtc_io sample_regs) 0)) = 1709209845"
proof -
  have "days_since_epoch (2000 + 24) 2 29 = 19782" by code_simp
  then have "int (unat (fst (get_unix_time (rtc_io sample_regs) 0))) = 1709209845"
    using unix_time_correct [of sample_regs 45 30 12 29 2 24 0] by (simp add: sample_regs_def)
  then show ?thesis by linarith
qed

text \<open>
  \<open>sleep\<close> ends exactly when the timer has ticked often enough: on readings of the counter
  that do not fall below the first one, it returns if and only if one of them is the
  demanded number of ticks later.
\<close>

lemma sleep_ends:
  assumes "\<And>t. t \<in> set later \<Longrightarrow> start \<le> t"
  shows "clk_sleep seconds (start # later) = Some (Ok () :: ('e, unit) outcome) \<longleftrightarrow> (\<exists>t \<in> set later. start + sleep_ticks seconds \<le> t)"
proof -
  have "sleep_loop start n later = Some (Ok () :: ('e, unit) outcome) \<longleftrightarrow> (\<exists>t \<in> set later. start + n \<le> t)" for n
    using assms
  proof (induction later)
    case (Cons now later)
    then have "start \<le> now" and IH: "sleep_loop start n later = Some (Ok () :: ('e, unit) outcome) \<longleftrightarrow> (\<exists>t \<in> set later. start + n \<le> t)"
      by simp_all
    then show ?case by (cases "start + n \<le> now") (simp_all add: not_le IH less_diff_conv2)
  qed simp
  then show ?thesis by (simp add: clk_sleep_def)
qed

lemma sleep_ends_example: "clk_sleep 1 [0, 500, 1000] = Some (Ok ())"
  using sleep_ends [of "[500, 1000]" 0 1] sleep_ticks_one by auto

text \<open>
  \<open>get_boot_time_ns\<close> counts the time since boot twice: when the time-stamp counter and the
  ticks agree on it, the result is their sum.
\<close>

lemma boot_time_twice:
  assumes "0 < tsc_freq" and "f64 (f64 (of_nat tsc) / f64 (of_nat tsc_freq)) = get_time_since_boot ticks"
    and "2 * nat \<lfloor>f64 (get_time_since_boot ticks * 1000000000)\<rfloor> \<le> usize_max"
  shows "get_boot_time_ns ticks tsc tsc_freq = (Ok (2 * nat \<lfloor>f64 (get_time_since_boot ticks * 1000000000)\<rfloor>) :: ('e, nat) outcome)"
proof -
  have "as_u64 (f64 (get_time_since_boot ticks * 1000000000)) = nat \<lfloor>f64 (get_time_since_boot ticks * 1000000000)\<rfloor>"
    using assms(3) by (simp add: as_u64_def)
  then show ?thesis using assms by (simp add: get_boot_time_ns_def tsc_nanos_def usize_add_def mult_2)
qed

end
