(* ===== verification/Io.thy ===== *)
theory Io
  imports Process User Clk
begin

text \<open>
  Streams of \<open>kernel/src/internal/io.rs\<close> and \<open>devices/proc.rs\<close>: the process information
  files, and the dispatch of the \<open>Stream\<close> operations over devices and files. The state
  \<open>Kernel\<close> collects the statics of the kernel that the streams and the system calls use.

  \<open>Env\<close> collects the parameters: the clock readings \<open>e_clk\<close> of a write, the order \<open>e_iter\<close> of
  the hash map of filesystems, the ATA driver, the random generator, the sizes of a process
  heap, the machine operations of \<open>Process\<close>, the allocator of the kernel, the ways to stop the
  machine, and the clocks during a call: the Unix time, the successive readings of the tick counter and of the
  time-stamp counter, and the frequency that \<open>calibrate_tsc\<close> found. \<open>k_polls\<close> are the keys that arrive while
  the console is read.
\<close>

section \<open>Kernel state\<close>

record ('r, 'f, 'h, 'm, 'd) Kernel =
  k_console :: Console_state
  k_polls :: "rchar list list"
  k_fss :: filesystems
  k_disk :: 'd
  k_procs :: "('r, 'f, 'h, 'm) Procs"
  k_users :: "User list option"
  k_files :: "(nat \<times> 'r File) list"
  k_errno :: nat

record ('r, 'h, 'm, 'd) Env =
  e_clk :: "nat \<Rightarrow> u64"
  e_iter :: "filesystems \<Rightarrow> fs_key list"
  e_ata :: "u8 \<Rightarrow> u8 \<Rightarrow> 'd sector_writer"
  e_fill :: "'r \<Rightarrow> nat \<Rightarrow> u8 list \<times> 'r"
  e_seed :: "u64 \<Rightarrow> 'r"
  e_heap_used :: "'h \<Rightarrow> nat"
  e_heap_size :: "'h \<Rightarrow> nat"
  e_mem :: "'m Mem_ops"
  e_parse :: elf_parser
  e_empty_heap :: 'h
  e_heap_init :: "u64 \<Rightarrow> u64 \<Rightarrow> 'h \<Rightarrow> 'h"
  e_alloc :: "nat \<Rightarrow> nat \<Rightarrow> ('m, unit, u64) prog"
  e_free :: "u64 \<Rightarrow> nat \<Rightarrow> nat \<Rightarrow> ('m, unit, unit) prog"
  e_shutdown :: "'m \<Rightarrow> 'm option"
  e_now :: u64
  e_ticks :: "nat list"
  e_tscs :: "nat list"
  e_tsc_freq :: nat

section \<open>Process information\<close>

definition ProcInfo_new :: "u32 \<Rightarrow> string \<Rightarrow> ProcInfo" where
  "ProcInfo_new i path = \<lparr>pi_pid = i, pi_path = path\<rparr>"

text \<open>\<open>PROCESS_TABLE.read().get(pid)\<close>.\<close>

definition proc_entry :: "('r, 'f, 'h, 'm, 'd) Kernel \<Rightarrow> ProcInfo \<Rightarrow> (FsError, ('r, 'f, 'h) Process) outcome" where
  "proc_entry k pinfo = (let t = process_table (k_procs k); i = unat (pi_pid pinfo) in
     if i < length t then Ok (t ! i) else Err FsInvalidPath)"

definition ProcInfo_resolve :: "('r, 'h, 'm, 'd) Env \<Rightarrow> ('r, 'f, 'h, 'm, 'd) Kernel \<Rightarrow> ProcInfo \<Rightarrow> (FsError, string) outcome" where
  "ProcInfo_resolve par k pinfo =
     (let route = last (split_on CHR ''/'' (pi_path pinfo)) in
      if route = ''ppid'' then
        obind (proc_entry k pinfo) (\<lambda>p. Ok (show_nat (p_ppid p)))
      else if route = ''used_memory'' then
        obind (proc_entry k pinfo) (\<lambda>p. Ok (show_nat (e_heap_used par (allocator p))))
      else if route = ''heap_size'' then
        obind (proc_entry k pinfo) (\<lambda>p. Ok (show_nat (e_heap_size par (allocator p))))
      else if route = ''uid'' then
        obind (proc_entry k pinfo) (\<lambda>p.
          (case user (p_data p) of
             None \<Rightarrow> Err FsReadError
           | Some name \<Rightarrow>
               obind (get_uid (k_users k) name) (\<lambda>i.
               (case i of None \<Rightarrow> Err FsReadError | Some n \<Rightarrow> Ok (show_nat n)))))
      else Err FsInvalidPath)"

definition code_points :: "string \<Rightarrow> rchar list" where
  "code_points s = map of_char s"

definition ProcInfo_read :: "('r, 'h, 'm, 'd) Env \<Rightarrow> u8 list \<Rightarrow> ProcInfo
    \<Rightarrow> (('r, 'f, 'h, 'm, 'd) Kernel, FileError, nat \<times> u8 list) prog" where
  "ProcInfo_read par buf pinfo =
     bind (reads (\<lambda>k. map_err FileError_from (ProcInfo_resolve par k pinfo))) (\<lambda>out.
     bind (modify (\<lambda>k. k\<lparr>k_console := kprint (Text (code_points (''proc info: '' @ [CHR 0x22] @ out @
       [CHR 0x22, CHR 0x0A]))) (k_console k)\<rparr>)) (\<lambda>_.
     let bytes = as_bytes out; i = min (length buf) (length bytes)
     in ret (i, take i bytes @ drop i buf)))"

definition ProcInfo_write :: "(FileError, nat) outcome" where
  "ProcInfo_write = Err (PermissionError (inner_from FsWriteError))"

definition ProcInfo_seek :: "(FileError, nat) outcome" where
  "ProcInfo_seek = Err (PermissionError (inner_from FsWriteError))"

fun ProcInfo_poll :: "IOEvent \<Rightarrow> bool" where
  "ProcInfo_poll EventRead = True"
| "ProcInfo_poll EventWrite = False"

section \<open>Devices\<close>

text \<open>Reading may wait for keys: \<open>None\<close> says that it still does.\<close>

fun Device_read :: "('r, 'h, 'm, 'd) Env \<Rightarrow> u8 list \<Rightarrow> 'r Device \<Rightarrow> ('r, 'f, 'h, 'm, 'd) Kernel
    \<Rightarrow> ((FileError, nat \<times> u8 list) outcome \<times> 'r Device \<times> ('r, 'f, 'h, 'm, 'd) Kernel) option" where
  "Device_read par buf DevStdin k = (case Console_read buf (k_polls k) (k_console k) of
      None \<Rightarrow> None
    | Some (r, polls, c) \<Rightarrow> Some (r, DevStdin, k\<lparr>k_console := c, k_polls := polls\<rparr>))"
| "Device_read par buf DevStdout k = Some (Stdout_read, DevStdout, k)"
| "Device_read par buf DevStderr k = Some (Stderr_read, DevStderr, k)"
| "Device_read par buf (DevNull n) k = Some (Null_read n buf, DevNull n, k)"
| "Device_read par buf (DevZero z) k = Some (Zero_read z buf, DevZero z, k)"
| "Device_read par buf (DevRand r) k = (case Rand_read (e_fill par) buf r of
      (res, r') \<Rightarrow> Some (res, DevRand r', k))"

definition on_console :: "(Console_state, 'e, 'a) prog \<Rightarrow> (('r, 'f, 'h, 'm, 'd) Kernel, 'e, 'a) prog" where
  "on_console m k = (case m (k_console k) of (r, c) \<Rightarrow> (r, k\<lparr>k_console := c\<rparr>))"

fun Device_write :: "u8 list \<Rightarrow> 'r Device \<Rightarrow> (('r, 'f, 'h, 'm, 'd) Kernel, FileError, nat) prog" where
  "Device_write buf DevStdin = on_console (Console_write buf)"
| "Device_write buf DevStdout = on_console (Stdout_write buf)"
| "Device_write buf DevStderr = on_console (Stderr_write buf)"
| "Device_write buf (DevNull n) = reads (\<lambda>_. Null_write n buf)"
| "Device_write buf (DevZero z) = reads (\<lambda>_. Zero_write z buf)"
| "Device_write buf (DevRand r) = reads (\<lambda>_. Rand_write r buf)"

fun Device_poll :: "IOEvent \<Rightarrow> 'r Device \<Rightarrow> bool" where
  "Device_poll event DevStdin = Console_poll event"
| "Device_poll event DevStdout = Stdout_poll event"
| "Device_poll event DevStderr = Stderr_poll event"
| "Device_poll event (DevNull n) = Null_poll n event"
| "Device_poll event (DevZero z) = Zero_poll z event"
| "Device_poll event (DevRand r) = Rand_poll r event"

text \<open>\<open>close\<close>, \<open>flush\<close> and \<open>seek\<close> are the same for all devices.\<close>

definition Device_close :: "'r Device \<Rightarrow> (FileError, unit) outcome" where
  "Device_close dev = device_noop"

definition Device_flush :: "'r Device \<Rightarrow> (FileError, unit) outcome" where
  "Device_flush dev = device_noop"

definition Device_seek :: "nat \<Rightarrow> 'r Device \<Rightarrow> (FileError, nat) outcome" where
  "Device_seek pos dev = device_seek pos"

section \<open>Files\<close>

text \<open>An operation changes the file it is called on and the kernel.\<close>

fun File_read :: "('r, 'h, 'm, 'd) Env \<Rightarrow> u8 list \<Rightarrow> 'r File \<Rightarrow> ('r, 'f, 'h, 'm, 'd) Kernel
    \<Rightarrow> ((FileError, nat \<times> u8 list) outcome \<times> 'r File \<times> ('r, 'f, 'h, 'm, 'd) Kernel) option" where
  "File_read par buf (FileFile h) k = (case handle_read (k_fss k) buf h of (r, h') \<Rightarrow> Some (r, FileFile h', k))"
| "File_read par buf (FileDevice dev) k = (case Device_read par buf dev k of
      None \<Rightarrow> None
    | Some (r, dev', k') \<Rightarrow> Some (r, FileDevice dev', k'))"
| "File_read par buf (FileProcInfo p) k = (case ProcInfo_read par buf p k of (r, k') \<Rightarrow> Some (r, FileProcInfo p, k'))"

type_synonym ('r, 'f, 'h, 'm, 'd, 'a) file_op =
  "('r File \<times> ('r, 'f, 'h, 'm, 'd) Kernel, FileError, 'a) prog"

fun File_write :: "('r, 'h, 'm, 'd) Env \<Rightarrow> u8 list \<Rightarrow> ('r, 'f, 'h, 'm, 'd, nat) file_op" where
  "File_write par buf (FileFile h, k) = (case handle_write (e_clk par) buf (h, k_fss k) of
      (r, (h', fss)) \<Rightarrow> (r, (FileFile h', k\<lparr>k_fss := fss\<rparr>)))"
| "File_write par buf (FileDevice dev, k) = (case Device_write buf dev k of (r, k') \<Rightarrow> (r, (FileDevice dev, k')))"
| "File_write par buf (FileProcInfo p, k) = (ProcInfo_write, (FileProcInfo p, k))"

fun File_close :: "('r, 'f, 'h, 'm, 'd, unit) file_op" where
  "File_close (FileFile h, k) = (case handle_close h (k_fss k) of
      (r, fss) \<Rightarrow> (r, (FileFile h, k\<lparr>k_fss := fss\<rparr>)))"
| "File_close (FileDevice dev, k) = (Device_close dev, (FileDevice dev, k))"
| "File_close (FileProcInfo p, k) = (Ok (), (FileProcInfo p, k))"

fun File_flush :: "('r, 'h, 'm, 'd) Env \<Rightarrow> ('r, 'f, 'h, 'm, 'd, unit) file_op" where
  "File_flush par (FileFile h, k) = (case handle_flush (e_ata par) (k_fss k) h (k_disk k) of
      (r, d) \<Rightarrow> (r, (FileFile h, k\<lparr>k_disk := d\<rparr>)))"
| "File_flush par (FileDevice dev, k) = (Device_flush dev, (FileDevice dev, k))"
| "File_flush par (FileProcInfo p, k) = (Ok (), (FileProcInfo p, k))"

fun File_poll :: "IOEvent \<Rightarrow> 'r File \<Rightarrow> bool" where
  "File_poll event (FileFile h) = handle_poll h event"
| "File_poll event (FileDevice dev) = Device_poll event dev"
| "File_poll event (FileProcInfo p) = ProcInfo_poll event"

fun File_seek :: "nat \<Rightarrow> ('r, 'f, 'h, 'm, 'd, nat) file_op" where
  "File_seek pos (FileFile h, k) = (case handle_seek pos h of (r, h') \<Rightarrow> (r, (FileFile h', k)))"
| "File_seek pos (FileDevice dev, k) = (Device_seek pos dev, (FileDevice dev, k))"
| "File_seek pos (FileProcInfo p, k) = (ProcInfo_seek, (FileProcInfo p, k))"

section \<open>What the operations leave alone\<close>

text \<open>No stream operation touches the descriptor table, the processes, the users or the error number.\<close>

definition same_tables :: "('r, 'f, 'h, 'm, 'd) Kernel \<Rightarrow> ('r, 'f, 'h, 'm, 'd) Kernel \<Rightarrow> bool" where
  "same_tables k k' \<longleftrightarrow> k_files k' = k_files k \<and> k_procs k' = k_procs k \<and> k_users k' = k_users k \<and> k_errno k' = k_errno k"

lemma same_tables_refl [simp]: "same_tables k k"
  by (simp add: same_tables_def)

lemma Device_read_same: "Device_read par buf dev k = Some (r, dev', k') \<Longrightarrow> same_tables k k'"
  by (cases dev) (auto simp: same_tables_def split: option.splits prod.splits)

lemma File_read_same: "File_read par buf f k = Some (r, f', k') \<Longrightarrow> same_tables k k'"
  by (cases f) (auto simp: ProcInfo_read_def run_simps Let_def same_tables_def
      dest: Device_read_same [unfolded same_tables_def] split: option.splits prod.splits outcome.splits)

lemma Device_write_same: "Device_write buf dev k = (r, k') \<Longrightarrow> same_tables k k'"
  by (cases dev) (auto simp: same_tables_def on_console_def reads_def split: prod.splits)

lemma File_write_same: "File_write par buf (f, k) = (r, (f', k')) \<Longrightarrow> same_tables k k'"
  by (cases f) (auto simp: same_tables_def dest: Device_write_same [unfolded same_tables_def] split: prod.splits)

lemma File_close_same: "File_close (f, k) = (r, (f', k')) \<Longrightarrow> same_tables k k'"
  by (cases f) (auto simp: same_tables_def split: prod.splits)

lemma File_flush_same: "File_flush par (f, k) = (r, (f', k')) \<Longrightarrow> same_tables k k'"
  by (cases f) (auto simp: same_tables_def split: prod.splits)

lemma File_seek_same: "File_seek pos (f, k) = (r, (f', k')) \<Longrightarrow> same_tables k k'"
  by (cases f) (auto simp: same_tables_def split: prod.splits)

lemmas file_ops_same = File_read_same File_write_same File_close_same File_flush_same File_seek_same

end
