(* ===== verification/Syscall.thy ===== *)
theory Syscall
  imports Io "HOL-Library.AList"
begin

text \<open>
  The system calls of \<open>kernel/src/internal/syscall\<close>: the services on the descriptor table
  \<open>FILES\<close> and the error number \<open>ERRNO\<close>, the creation and the end of processes, and \<open>dispatch\<close>
  with the buffers of the caller in memory; and the reading of the user file at boot
  (\<open>user::init\<close>), which goes through system calls.

  The ordered map of descriptors is an association list with at most one entry per key.
  No call fails with an error value: the error type of their programs is \<open>unit\<close> and not used.
  \<open>sleep\<close> and \<open>wait\<close> loop over the readings of the clocks in \<open>Env\<close> and have not returned (\<open>None\<close>) when
  these run out.
\<close>

section \<open>Descriptors\<close>

definition set_errno :: "Error \<Rightarrow> ('r, 'f, 'h, 'm, 'd) Kernel \<Rightarrow> ('r, 'f, 'h, 'm, 'd) Kernel" where
  "set_errno e k = k\<lparr>k_errno := errno_code e\<rparr>"

text \<open>\<open>as isize\<close>.\<close>

definition as_isize :: "nat \<Rightarrow> int" where
  "as_isize n = sint (word_of_nat n :: u64)"

definition insert_file :: "nat \<Rightarrow> 'r File \<Rightarrow> ('r, 'f, 'h, 'm, 'd) Kernel \<Rightarrow> ('r, 'f, 'h, 'm, 'd) Kernel" where
  "insert_file fd f k = k\<lparr>k_files := AList.update fd f (k_files k)\<rparr>"

fun insert_devices :: "('r, 'h, 'm, 'd) Env \<Rightarrow> nat list \<Rightarrow> (('r, 'f, 'h, 'm, 'd) Kernel, unit, unit) prog" where
  "insert_devices par [] = ret ()"
| "insert_devices par (i # is) =
     (case Device_try_from (e_seed par) (e_now par) (word_of_nat i) 0 of
        None \<Rightarrow> panic
      | Some dev \<Rightarrow> bind (modify (insert_file i (FileDevice dev))) (\<lambda>_. insert_devices par is))"

definition sys_init :: "('r, 'h, 'm, 'd) Env \<Rightarrow> (('r, 'f, 'h, 'm, 'd) Kernel, unit, unit) prog" where
  "sys_init par = insert_devices par [0..<NUM_DEVICES]"

definition open_block_device :: "string \<Rightarrow> (('r, 'f, 'h, 'm, 'd) Kernel, unit, int) prog" where
  "open_block_device path =
     (if path = ''/dev/stdin'' then ret 0
      else if path = ''/dev/stdout'' then ret 1
      else if path = ''/dev/stderr'' then ret 2
      else if path = ''/dev/null'' then ret 3
      else if path = ''/dev/zero'' then ret 4
      else if path = ''/dev/random'' then ret 5
      else bind (modify (set_errno ENOENT)) (\<lambda>_. ret (-1)))"

text \<open>The debug line prints the new entry; the path stands in it unescaped here.\<close>

definition debug_entry :: "nat \<Rightarrow> string \<Rightarrow> string" where
  "debug_entry i path = ''Some(ProcInfo(ProcInfo { pid: '' @ show_nat i @ '', path: '' @ [CHR 0x22] @ path @
     [CHR 0x22] @ '' }))'' @ [CHR 0x0A]"

definition open_proc_file :: "string \<Rightarrow> (('r, 'f, 'h, 'm, 'd) Kernel, unit, int) prog" where
  "open_proc_file path =
     (let parts = split_on CHR ''/'' path;
          pid_of = (if 2 < length parts then parse_uint (2 ^ 32 - 1) (parts ! 2) else None)
      in case pid_of of
           None \<Rightarrow> bind (modify (set_errno ENOENT)) (\<lambda>_. ret (-1))
         | Some i \<Rightarrow>
             bind (reads (\<lambda>k. Ok (length (k_files k)))) (\<lambda>fd.
             bind (modify (insert_file fd (FileProcInfo (ProcInfo_new (word_of_nat i) path)))) (\<lambda>_.
             bind (on_console (modify (kprint (Text (code_points (debug_entry i path)))))) (\<lambda>_.
             ret (as_isize fd)))))"

definition sys_open :: "('r, 'h, 'm, 'd) Env \<Rightarrow> string \<Rightarrow> u8 \<Rightarrow> (('r, 'f, 'h, 'm, 'd) Kernel, unit, int) prog" where
  "sys_open par path flags =
     (let path = canonicalise path in
      if starts_with path ''/dev/'' then open_block_device path
      else if starts_with path ''/proc/'' then open_proc_file path
      else (\<lambda>k. case new_with_likely_fs (e_iter par) (k_fss k) path flags of
          Panic \<Rightarrow> (Panic, k)
        | Err e \<Rightarrow> (Ok (-1), set_errno (Error_from_FileError e) k)
        | Ok h \<Rightarrow> (Ok (as_isize (length (k_files k))), insert_file (length (k_files k)) (FileFile h) k)))"

text \<open>An operation on an open descriptor: \<open>-1\<close> and the error number on failure.\<close>

definition finish :: "('a \<Rightarrow> int) \<Rightarrow> (FileError, 'a) outcome \<Rightarrow> (('r, 'f, 'h, 'm, 'd) Kernel, unit, int) prog" where
  "finish ok r = (case r of
      Ok x \<Rightarrow> ret (ok x)
    | Err e \<Rightarrow> bind (modify (set_errno (Error_from_FileError e))) (\<lambda>_. ret (-1))
    | Panic \<Rightarrow> panic)"

definition bad_fd :: "(('r, 'f, 'h, 'm, 'd) Kernel, unit, int) prog" where
  "bad_fd = bind (modify (set_errno EBADF)) (\<lambda>_. ret (-1))"

definition on_fd :: "nat \<Rightarrow> ('r, 'f, 'h, 'm, 'd, 'a) file_op \<Rightarrow> ('a \<Rightarrow> int)
    \<Rightarrow> (('r, 'f, 'h, 'm, 'd) Kernel, unit, int) prog" where
  "on_fd fd oper ok k = (case map_of (k_files k) fd of
      None \<Rightarrow> bad_fd k
    | Some f \<Rightarrow> (case oper (f, k) of (r, (f', k')) \<Rightarrow> finish ok r (insert_file fd f' k')))"

definition sys_write :: "('r, 'h, 'm, 'd) Env \<Rightarrow> nat \<Rightarrow> u8 list \<Rightarrow> (('r, 'f, 'h, 'm, 'd) Kernel, unit, int) prog" where
  "sys_write par fd buf = on_fd fd (File_write par buf) as_isize"

text \<open>\<open>read\<close> also returns the buffer it leaves; \<open>None\<close> while it waits for keys.\<close>

definition sys_read :: "('r, 'h, 'm, 'd) Env \<Rightarrow> nat \<Rightarrow> u8 list \<Rightarrow> ('r, 'f, 'h, 'm, 'd) Kernel
    \<Rightarrow> ((unit, int \<times> u8 list) outcome \<times> ('r, 'f, 'h, 'm, 'd) Kernel) option" where
  "sys_read par fd buf k = (case map_of (k_files k) fd of
      None \<Rightarrow> Some (bind bad_fd (\<lambda>n. ret (n, buf)) k)
    | Some f \<Rightarrow> (case File_read par buf f k of
        None \<Rightarrow> None
      | Some (r, f', k') \<Rightarrow>
          Some (bind (finish (\<lambda>(n, _). as_isize n) r)
            (\<lambda>n. ret (n, case r of Ok (_, buf') \<Rightarrow> buf' | _ \<Rightarrow> buf)) (insert_file fd f' k'))))"

definition sys_close :: "nat \<Rightarrow> (('r, 'f, 'h, 'm, 'd) Kernel, unit, int) prog" where
  "sys_close fd k = (case map_of (k_files k) fd of
      None \<Rightarrow> bad_fd k
    | Some f \<Rightarrow> (case File_close (f, k\<lparr>k_files := AList.delete fd (k_files k)\<rparr>) of
        (r, (_, k')) \<Rightarrow> finish (\<lambda>_. 0) r k'))"

definition sys_flush :: "('r, 'h, 'm, 'd) Env \<Rightarrow> nat \<Rightarrow> (('r, 'f, 'h, 'm, 'd) Kernel, unit, int) prog" where
  "sys_flush par fd = on_fd fd (File_flush par) (\<lambda>_. 0)"

definition sys_seek :: "nat \<Rightarrow> nat \<Rightarrow> (('r, 'f, 'h, 'm, 'd) Kernel, unit, int) prog" where
  "sys_seek fd pos = on_fd fd (File_seek pos) as_isize"

definition sys_poll :: "nat \<Rightarrow> nat \<Rightarrow> (('r, 'f, 'h, 'm, 'd) Kernel, unit, int) prog" where
  "sys_poll fd event =
     (if event \<noteq> 1 \<and> event \<noteq> 2 then bind (modify (set_errno EINVAL)) (\<lambda>_. ret (-1))
      else (\<lambda>k. case map_of (k_files k) fd of
          None \<Rightarrow> bad_fd k
        | Some f \<Rightarrow> ret (if File_poll (if event = 1 then EventRead else EventWrite) f then 1 else 0) k))"

section \<open>The machine\<close>

definition on_procs :: "(('r, 'f, 'h, 'm) Procs, 'e, 'a) prog \<Rightarrow> (('r, 'f, 'h, 'm, 'd) Kernel, 'e, 'a) prog" where
  "on_procs m k = (case m (k_procs k) of (r, ps) \<Rightarrow> (r, k\<lparr>k_procs := ps\<rparr>))"

text \<open>
  \<open>shutdown\<close> returns only on a machine that stays on. Type 1 loads the page table at the physical address 0, which does not
  map the kernel: the processor faults without end and resets, and the call does not return.
\<close>

definition sys_stop :: "('r, 'h, 'm, 'd) Env \<Rightarrow> nat \<Rightarrow> ('r, 'f, 'h, 'm, 'd) Kernel
    \<Rightarrow> ((unit, int) outcome \<times> ('r, 'f, 'h, 'm, 'd) Kernel) option" where
  "sys_stop par stop_type k =
     (if stop_type = 0 then
        map_option (\<lambda>mem. (Ok 0, k\<lparr>k_procs := (k_procs k)\<lparr>memory := mem\<rparr>\<rparr>)) (e_shutdown par (memory (k_procs k)))
      else if stop_type = 1 then None
      else Some (bind (modify (set_errno EINVAL)) (\<lambda>_. ret (-1)) k))"

text \<open>\<open>Layout::from_size_align\<close>: the alignment is a power of two and the rounded size fits \<open>isize\<close>.\<close>

definition layout_ok :: "nat \<Rightarrow> nat \<Rightarrow> bool" where
  "layout_ok sz align \<longleftrightarrow> list_ex (\<lambda>k. align = 2 ^ k) [0..<64] \<and> sz + (align - 1) < 2 ^ 63"

definition sys_alloc :: "('r, 'h, 'm, 'd) Env \<Rightarrow> nat \<Rightarrow> nat \<Rightarrow> (('r, 'f, 'h, 'm, 'd) Kernel, unit, u64) prog" where
  "sys_alloc par sz align =
     (if \<not> layout_ok sz align then panic
      else on_procs (on_memory (e_alloc par sz align)))"

definition sys_free :: "('r, 'h, 'm, 'd) Env \<Rightarrow> u64 \<Rightarrow> nat \<Rightarrow> nat \<Rightarrow> (('r, 'f, 'h, 'm, 'd) Kernel, unit, unit) prog" where
  "sys_free par ptr sz align =
     (if \<not> layout_ok sz align then panic else on_procs (on_memory (e_free par ptr sz align)))"

text \<open>The seconds that \<open>SLEEP\<close> passes to \<open>clk::sleep\<close> for an argument in nanoseconds.\<close>

definition sleep_seconds :: "nat \<Rightarrow> rat" where
  "sleep_seconds nanos = f64 (f64 (of_nat nanos) / 1000000)"

definition sys_sleep :: "('r, 'h, 'm, 'd) Env \<Rightarrow> nat \<Rightarrow> (unit, int) outcome option" where
  "sys_sleep par nanos = map_option (\<lambda>r. obind r (\<lambda>_. Ok 0)) (clk_sleep (sleep_seconds nanos) (e_ticks par))"

definition sys_wait :: "('r, 'h, 'm, 'd) Env \<Rightarrow> nat \<Rightarrow> (unit, int) outcome option" where
  "sys_wait par nanos = map_option (\<lambda>r. obind r (\<lambda>_. Ok 0)) (clk_wait nanos (e_tsc_freq par) (e_tscs par))"

definition sys_nanos :: "('r, 'h, 'm, 'd) Env \<Rightarrow> (unit, nat) outcome option" where
  "sys_nanos par = (case (e_ticks par, e_tscs par) of
      (ticks # _, tsc # _) \<Rightarrow> Some (get_boot_time_ns ticks tsc (e_tsc_freq par))
    | _ \<Rightarrow> None)"

section \<open>Processes\<close>

text \<open>A call returns to the caller, or enters a new process.\<close>

datatype sys_result = Returns int | Enters user_entry

definition start_process :: "('r, 'h, 'm, 'd) Env \<Rightarrow> u8 list \<Rightarrow> u64 \<Rightarrow> nat
    \<Rightarrow> (('r, 'f, 'h, 'm, 'd) Kernel, unit, sys_result) prog" where
  "start_process par bin args_ptr args_len k =
     (case on_procs (Process_spawn (e_mem par) (e_parse par) (e_empty_heap par) (e_heap_init par)
             bin args_ptr args_len) k of
        (Ok entry, k') \<Rightarrow> (Ok (Enters entry), k')
      | (Err code, k') \<Rightarrow> (Ok (Returns (int (unat (exit_code_value code)))), k')
      | (Panic, k') \<Rightarrow> (Panic, k'))"

definition sys_spawn :: "('r, 'h, 'm, 'd) Env \<Rightarrow> string \<Rightarrow> u64 \<Rightarrow> nat \<Rightarrow> ('r, 'f, 'h, 'm, 'd) Kernel
    \<Rightarrow> ((unit, sys_result) outcome \<times> ('r, 'f, 'h, 'm, 'd) Kernel) option" where
  "sys_spawn par path args_ptr args_len k =
     (let path = canonicalise path in
      case sys_open par path (flag_bits FlagRead) k of
        (Panic, k1) \<Rightarrow> Some (Panic, k1)
      | (Err e, k1) \<Rightarrow> Some (Err e, k1)
      | (Ok fd, k1) \<Rightarrow>
          if fd < 0 then Some (Ok (Returns (-1)), k1)
          else (case get_buffer_size (k_fss k1) 0 1 path of
            Panic \<Rightarrow> Some (Panic, k1)
          | Err _ \<Rightarrow> Some (bind (sys_close (nat fd)) (\<lambda>_.
              bind (modify (set_errno EINVAL)) (\<lambda>_. ret (Returns (-1)))) k1)
          | Ok n \<Rightarrow> (case sys_read par (nat fd) (replicate n 0) k1 of
              None \<Rightarrow> None
            | Some (Panic, k2) \<Rightarrow> Some (Panic, k2)
            | Some (Err e, k2) \<Rightarrow> Some (Err e, k2)
            | Some (Ok (count, buf), k2) \<Rightarrow>
                if count < 0 then Some (bind (sys_close (nat fd)) (\<lambda>_. ret (Returns (-1))) k2)
                else Some (bind (reads (\<lambda>_. slice buf 0 (nat count))) (\<lambda>bin.
                  bind (sys_close (nat fd)) (\<lambda>_. start_process par bin args_ptr args_len)) k2))))"

definition sys_exit :: "('r, 'h, 'm, 'd) Env \<Rightarrow> ExitCode \<Rightarrow> (('r, 'f, 'h, 'm, 'd) Kernel, unit, ExitCode) prog" where
  "sys_exit par code = bind (on_procs (process_exit (e_mem par))) (\<lambda>_. ret code)"

section \<open>Dispatch\<close>

text \<open>The numbers of the calls.\<close>

datatype Call = READ | WRITE | OPEN | CLOSE | FLUSH | EXIT | SLEEP | WAIT | GETPID | EXEC | FORK | GETTID
  | STOP | WAITPID | CONNECT | ACCEPT | LISTEN | ALLOC | FREE | KIND | GETERRNO | POLL | BOOTTIME | TIME | SEEK

definition all_calls :: "Call list" where
  "all_calls = [READ, WRITE, OPEN, CLOSE, FLUSH, EXIT, SLEEP, WAIT, GETPID, EXEC, FORK, GETTID, STOP, WAITPID,
     CONNECT, ACCEPT, LISTEN, ALLOC, FREE, KIND, GETERRNO, POLL, BOOTTIME, TIME, SEEK]"

text \<open>They are numbered from 1.\<close>

definition call_of :: "nat \<Rightarrow> Call option" where
  "call_of n = (if 1 \<le> n \<and> n \<le> 0x19 then Some (all_calls ! (n - 1)) else None)"

text \<open>Memory of the caller: bytes and strings at an address.\<close>

definition bytes_at :: "('r, 'h, 'm, 'd) Env \<Rightarrow> nat \<Rightarrow> nat \<Rightarrow> ('r, 'f, 'h, 'm, 'd) Kernel \<Rightarrow> (unit, u64 \<times> u8 list) outcome" where
  "bytes_at par addr n k = obind (ptr_from_addr (word_of_nat addr) (k_procs k)) (\<lambda>p.
     Ok (p, mo_read (e_mem par) p n (memory (k_procs k))))"

definition utf8_from_raw_parts :: "u8 list \<Rightarrow> string" where
  "utf8_from_raw_parts bs = map (\<lambda>b. char_of (unat b)) bs"

definition store_bytes :: "('r, 'h, 'm, 'd) Env \<Rightarrow> u64 \<Rightarrow> u8 list \<Rightarrow> ('r, 'f, 'h, 'm, 'd) Kernel \<Rightarrow> ('r, 'f, 'h, 'm, 'd) Kernel" where
  "store_bytes par p bs k = k\<lparr>k_procs := (k_procs k)\<lparr>memory := mo_write (e_mem par) p bs (memory (k_procs k))\<rparr>\<rparr>"

definition dispatch_read :: "('r, 'h, 'm, 'd) Env \<Rightarrow> nat \<Rightarrow> nat \<Rightarrow> nat \<Rightarrow> ('r, 'f, 'h, 'm, 'd) Kernel
    \<Rightarrow> ((unit, sys_result) outcome \<times> ('r, 'f, 'h, 'm, 'd) Kernel) option" where
  "dispatch_read par fd addr n k = (case (bytes_at par addr n k :: (unit, _) outcome) of
      Panic \<Rightarrow> Some (Panic, k)
    | Err e \<Rightarrow> Some (Err e, k)
    | Ok (p, buf) \<Rightarrow> (case sys_read par fd buf k of
        None \<Rightarrow> None
      | Some (Ok (r, buf'), k') \<Rightarrow> Some (Ok (Returns r), store_bytes par p buf' k')
      | Some (Err e, k') \<Rightarrow> Some (Err e, k')
      | Some (Panic, k') \<Rightarrow> Some (Panic, k')))"

text \<open>A call whose result is a number.\<close>

definition returns :: "('s, unit, int) prog \<Rightarrow> ('s, unit, sys_result) prog" where
  "returns m = bind m (\<lambda>n. ret (Returns n))"

text \<open>A call that only reads the clocks.\<close>

definition timed :: "(unit, int) outcome option \<Rightarrow> ('r, 'f, 'h, 'm, 'd) Kernel
    \<Rightarrow> ((unit, sys_result) outcome \<times> ('r, 'f, 'h, 'm, 'd) Kernel) option" where
  "timed r k = map_option (\<lambda>r. (obind r (\<lambda>n. Ok (Returns n)), k)) r"

fun dispatch_call :: "('r, 'h, 'm, 'd) Env \<Rightarrow> Call \<Rightarrow> nat \<Rightarrow> nat \<Rightarrow> nat \<Rightarrow> nat \<Rightarrow> ('r, 'f, 'h, 'm, 'd) Kernel
    \<Rightarrow> ((unit, sys_result) outcome \<times> ('r, 'f, 'h, 'm, 'd) Kernel) option" where
  "dispatch_call par READ a1 a2 a3 a4 k = dispatch_read par a1 a2 a3 k"
| "dispatch_call par WRITE a1 a2 a3 a4 k =
     Some (bind (reads (bytes_at par a2 a3)) (\<lambda>(_, buf). returns (sys_write par a1 buf)) k)"
| "dispatch_call par OPEN a1 a2 a3 a4 k =
     Some (bind (reads (bytes_at par a1 a2)) (\<lambda>(_, bs).
       returns (sys_open par (utf8_from_raw_parts bs) (word_of_nat a3))) k)"
| "dispatch_call par CLOSE a1 a2 a3 a4 k = Some (returns (sys_close a1) k)"
| "dispatch_call par FLUSH a1 a2 a3 a4 k = Some (returns (sys_flush par a1) k)"
| "dispatch_call par EXIT a1 a2 a3 a4 k =
     Some (bind (sys_exit par (ExitCode_from (word_of_nat a1))) (\<lambda>c. ret (Returns (int (unat (exit_code_value c))))) k)"
| "dispatch_call par SLEEP a1 a2 a3 a4 k = timed (sys_sleep par a1) k"
| "dispatch_call par WAIT a1 a2 a3 a4 k = timed (sys_wait par a1) k"
| "dispatch_call par GETPID a1 a2 a3 a4 k = Some (ret (Returns (as_isize (cur_pid (k_procs k)))) k)"
| "dispatch_call par EXEC a1 a2 a3 a4 k = (case (bytes_at par a1 a2 k :: (unit, _) outcome) of
      Panic \<Rightarrow> Some (Panic, k)
    | Err e \<Rightarrow> Some (Err e, k)
    | Ok (_, bs) \<Rightarrow> sys_spawn par (utf8_from_raw_parts bs) (word_of_nat a3) a4 k)"
| "dispatch_call par STOP a1 a2 a3 a4 k = map_option (\<lambda>(r, k'). (obind r (\<lambda>v. Ok (Returns v)), k')) (sys_stop par a1 k)"
| "dispatch_call par ALLOC a1 a2 a3 a4 k = Some (bind (sys_alloc par a1 a2) (\<lambda>p. ret (Returns (sint p))) k)"
| "dispatch_call par FREE a1 a2 a3 a4 k =
     Some (bind (sys_free par (word_of_nat a1) a2 a3) (\<lambda>_. ret (Returns 0)) k)"
| "dispatch_call par GETERRNO a1 a2 a3 a4 k = Some (ret (Returns (as_isize (k_errno k))) k)"
| "dispatch_call par POLL a1 a2 a3 a4 k = Some (returns (sys_poll a1 a2) k)"
| "dispatch_call par BOOTTIME a1 a2 a3 a4 k =
     timed (map_option (\<lambda>r. obind r (\<lambda>n. Ok (as_isize n))) (sys_nanos par)) k"
| "dispatch_call par TIME a1 a2 a3 a4 k = Some (ret (Returns (sint (e_now par))) k)"
| "dispatch_call par SEEK a1 a2 a3 a4 k = Some (returns (sys_seek a1 a2) k)"
| "dispatch_call par _ a1 a2 a3 a4 k = Some (panic k)"

definition dispatch :: "('r, 'h, 'm, 'd) Env \<Rightarrow> nat \<Rightarrow> nat \<Rightarrow> nat \<Rightarrow> nat \<Rightarrow> nat \<Rightarrow> ('r, 'f, 'h, 'm, 'd) Kernel
    \<Rightarrow> ((unit, sys_result) outcome \<times> ('r, 'f, 'h, 'm, 'd) Kernel) option" where
  "dispatch par n a1 a2 a3 a4 k = (case call_of n of
      None \<Rightarrow> Some (ret (Returns (-1)) k)
    | Some c \<Rightarrow> dispatch_call par c a1 a2 a3 a4 k)"

section \<open>The users at boot\<close>

text \<open>
  \<open>user::init\<close>. The error number is that of the last call that failed, whenever that was. The
  calls go through the trap with addresses of the kernel, which process 0 leaves as they are.
\<close>

definition user_init :: "('r, 'h, 'm, 'd) Env \<Rightarrow> ('r, 'f, 'h, 'm, 'd) Kernel
    \<Rightarrow> ((unit, unit) outcome \<times> ('r, 'f, 'h, 'm, 'd) Kernel) option" where
  "user_init par k = (case sys_open par ''/etc/users'' (flag_bits FlagRead) k of
      (Panic, k1) \<Rightarrow> Some (Panic, k1)
    | (Err e, k1) \<Rightarrow> Some (Err e, k1)
    | (Ok fd, k1) \<Rightarrow>
        if k_errno k1 \<noteq> 0 then Some (Ok (), k1)
        else (case sys_read par (nat fd) (replicate 2048 0) k1 of
          None \<Rightarrow> None
        | Some (Panic, k2) \<Rightarrow> Some (Panic, k2)
        | Some (Err e, k2) \<Rightarrow> Some (Err e, k2)
        | Some (Ok (_, buf), k2) \<Rightarrow>
            if k_errno k2 \<noteq> 0 then Some (Ok (), k2)
            else Some (bind (reads (\<lambda>_. parse_users buf)) (\<lambda>us.
              modify (\<lambda>k. k\<lparr>k_users := init_once us (k_users k)\<rparr>)) k2)))"

end
