(* ===== verification/Syscall_Facts.thy ===== *)
theory Syscall_Facts
  imports Syscall Virt_Facts
begin

text \<open>
  What the system calls do: the descriptor table stays a map, calls on descriptors that are
  not open fail, new descriptors and the loss of one after a \<open>close\<close>, a round trip of bytes
  through \<open>open\<close>, \<open>write\<close>, \<open>seek\<close> and \<open>read\<close>, the devices at boot, and the invariant of the
  kernel under all calls.
\<close>

section \<open>The descriptor table\<close>

definition fds_ok :: "('r, 'f, 'h, 'm, 'd) Kernel \<Rightarrow> bool" where
  "fds_ok k \<longleftrightarrow> distinct (map fst (k_files k))"

text \<open>Descriptors without gaps, as long as none was closed.\<close>

definition dense :: "('r, 'f, 'h, 'm, 'd) Kernel \<Rightarrow> bool" where
  "dense k \<longleftrightarrow> map fst (k_files k) = [0..<length (k_files k)]"

lemma fds_ok_insert [simp]: "fds_ok k \<Longrightarrow> fds_ok (insert_file fd f k)"
  by (simp add: fds_ok_def insert_file_def distinct_update)

lemma insert_file_same [simp]:
  "k_procs (insert_file fd f k) = k_procs k" "k_users (insert_file fd f k) = k_users k"
  "k_errno (insert_file fd f k) = k_errno k" "k_fss (insert_file fd f k) = k_fss k"
  "k_console (insert_file fd f k) = k_console k" "k_polls (insert_file fd f k) = k_polls k"
  "k_disk (insert_file fd f k) = k_disk k"
  by (simp_all add: insert_file_def)

lemma map_of_insert_file [simp]: "map_of (k_files (insert_file fd f k)) = (map_of (k_files k))(fd \<mapsto> f)"
  by (simp add: insert_file_def update_conv')

lemma set_errno_same [simp]:
  "k_procs (set_errno e k) = k_procs k" "k_users (set_errno e k) = k_users k"
  "k_files (set_errno e k) = k_files k" "k_fss (set_errno e k) = k_fss k"
  "k_errno (set_errno e k) = errno_code e" "fds_ok (set_errno e k) = fds_ok k"
  by (simp_all add: set_errno_def fds_ok_def)

lemma errno_code_nonzero [simp]: "errno_code e \<noteq> 0" "0 < errno_code e"
  by (cases e; simp)+

lemma same_tablesD:
  assumes "same_tables k k'"
  shows "k_files k' = k_files k" "k_procs k' = k_procs k" "fds_ok k' = fds_ok k" "k_errno k' = k_errno k"
    "k_users k' = k_users k"
  using assms by (simp_all add: same_tables_def fds_ok_def)

lemma update_dense: "map fst xs = [0..<n] \<Longrightarrow> AList.update n v xs = xs @ [(n, v)]"
proof -
  assume "map fst xs = [0..<n]"
  then have "n \<notin> fst ` set xs" by (metis set_map atLeastLessThan_iff less_irrefl set_upt)
  then show ?thesis by (induction xs) auto
qed

lemma dense_insert: "dense k \<Longrightarrow> dense (insert_file (length (k_files k)) f k)"
  by (simp add: dense_def insert_file_def update_dense)

lemma dense_lookup: "dense k \<Longrightarrow> map_of (k_files k) fd = None \<longleftrightarrow> length (k_files k) \<le> fd"
  unfolding dense_def map_of_eq_None_iff by (metis atLeastLessThan_iff not_le set_map set_upt zero_le)

lemma as_isize_small: "n < 2 ^ 63 \<Longrightarrow> as_isize n = int n"
  by (simp add: as_isize_def signed_of_nat signed_take_bit_int_eq_self)

section \<open>Calls that leave the processes alone\<close>

definition quiet :: "('r, 'f, 'h, 'm, 'd) Kernel \<Rightarrow> ('r, 'f, 'h, 'm, 'd) Kernel \<Rightarrow> bool" where
  "quiet k k' \<longleftrightarrow> same_procs (k_procs k) (k_procs k') \<and> (fds_ok k \<longrightarrow> fds_ok k')"

lemma quiet_refl [simp]: "quiet k k"
  by (simp add: quiet_def)

lemma quiet_trans: "quiet k k' \<Longrightarrow> quiet k' k'' \<Longrightarrow> quiet k k''"
  by (auto simp: quiet_def same_procs_def)

lemma quietI: "k_procs k' = k_procs k \<Longrightarrow> (fds_ok k \<Longrightarrow> fds_ok k') \<Longrightarrow> quiet k k'"
  by (simp add: quiet_def)

lemma quiet_finish: "finish ok r k = (x, k') \<Longrightarrow> quiet k k'"
  by (auto simp: finish_def run_simps intro: quietI split: outcome.splits)

lemma quiet_bad_fd: "bad_fd k = (x, k') \<Longrightarrow> quiet k k'"
  by (auto simp: bad_fd_def run_simps intro: quietI)

lemma quiet_on_fd:
  assumes "\<And>f f' r k'. oper (f, k) = (r, (f', k')) \<Longrightarrow> same_tables k k'" and "on_fd fd oper ok k = (x, k')"
  shows "quiet k k'"
proof (cases "map_of (k_files k) fd")
  case None
  then show ?thesis using assms(2) by (auto simp: on_fd_def dest: quiet_bad_fd)
next
  case (Some f)
  obtain r f' k1 where oper: "oper (f, k) = (r, (f', k1))" by (metis prod.collapse)
  have "quiet k (insert_file fd f' k1)"
    using same_tablesD [OF assms(1) [OF oper]] by (intro quietI) auto
  moreover have "quiet (insert_file fd f' k1) k'"
    using assms(2) Some oper by (auto simp: on_fd_def intro: quiet_finish)
  ultimately show ?thesis by (rule quiet_trans)
qed

lemma fds_ok_delete: "fds_ok k \<Longrightarrow> fds_ok (k\<lparr>k_files := AList.delete fd (k_files k)\<rparr>)"
  by (simp add: fds_ok_def distinct_delete)

lemma quiet_close:
  assumes "sys_close fd k = (x, k')"
  shows "quiet k k'"
proof (cases "map_of (k_files k) fd")
  case None
  then show ?thesis using assms by (auto simp: sys_close_def dest: quiet_bad_fd)
next
  case (Some f)
  let ?k = "k\<lparr>k_files := AList.delete fd (k_files k)\<rparr>"
  obtain r f' k1 where c: "File_close (f, ?k) = (r, (f', k1))" by (metis prod.collapse)
  have "quiet k k1" using same_tablesD [OF File_close_same [OF c]] fds_ok_delete by (intro quietI) auto
  moreover have "quiet k1 k'" using assms Some c by (auto simp: sys_close_def intro: quiet_finish)
  ultimately show ?thesis by (rule quiet_trans)
qed

lemma quiet_read:
  assumes "sys_read par fd buf k = Some (x, k')"
  shows "quiet k k'"
proof (cases "map_of (k_files k) fd")
  case None
  then show ?thesis using assms by (auto simp: sys_read_def bad_fd_def run_simps intro: quietI)
next
  case (Some f)
  then obtain r f' k1 where read: "File_read par buf f k = Some (r, (f', k1))"
    using assms by (auto simp: sys_read_def split: option.splits)
  have "quiet k (insert_file fd f' k1)" using same_tablesD [OF File_read_same [OF read]] by (intro quietI) auto
  moreover have "quiet (insert_file fd f' k1) k'"
    using assms Some read
    by (auto simp: sys_read_def finish_def run_simps intro: quietI split: outcome.splits prod.splits)
  ultimately show ?thesis by (rule quiet_trans)
qed

lemma quiet_open:
  assumes "sys_open par path flags k = (x, k')"
  shows "quiet k k'"
  using assms
  by (auto simp: sys_open_def open_block_device_def open_proc_file_def Let_def run_simps on_console_def
      intro!: quietI split: if_splits option.splits outcome.splits) (simp_all add: fds_ok_def insert_file_def distinct_update)

lemma quiet_on_fd_ops:
  "sys_write par fd buf k = (x, k') \<Longrightarrow> quiet k k'" "sys_flush par fd k = (x, k') \<Longrightarrow> quiet k k'"
  "sys_seek fd pos k = (y, k') \<Longrightarrow> quiet k k'"
  unfolding sys_write_def sys_flush_def sys_seek_def
  by (erule quiet_on_fd [rotated], erule file_ops_same)+

lemma quiet_poll: "sys_poll fd event k = (x, k') \<Longrightarrow> quiet k k'"
  by (auto simp: sys_poll_def run_simps intro: quietI dest: quiet_bad_fd split: if_splits option.splits)

lemma quiet_on_memory: "on_procs (on_memory m) k = (x, k') \<Longrightarrow> quiet k k'"
  by (auto simp: on_procs_def on_memory_def quiet_def same_procs_def fds_ok_def split: prod.splits)

lemma quiet_memory: "quiet k (k\<lparr>k_procs := (k_procs k)\<lparr>memory := mem\<rparr>\<rparr>)"
  by (simp add: quiet_def same_procs_def fds_ok_def)

lemma quiet_machine:
  "sys_stop par n k = Some (x, k') \<Longrightarrow> quiet k k'" "sys_alloc par sz al k = (y, k') \<Longrightarrow> quiet k k'"
  "sys_free par p sz al k = (z, k') \<Longrightarrow> quiet k k'"
  by (auto simp: sys_stop_def sys_alloc_def sys_free_def run_simps intro: quietI quiet_on_memory quiet_memory
      split: if_splits prod.splits outcome.splits)

lemma quiet_store: "quiet k (store_bytes par p bs k)"
  by (simp add: quiet_def store_bytes_def same_procs_def fds_ok_def)

lemma quiet_dispatch_read: "dispatch_read par fd addr n k = Some (x, k') \<Longrightarrow> quiet k k'"
  by (auto simp: dispatch_read_def dest: quiet_read intro: quiet_trans [OF _ quiet_store]
      split: outcome.splits option.splits prod.splits)

section \<open>The kernel invariant\<close>

definition kernel_ok :: "('r, 'f, 'h, 'm, 'd) Kernel \<Rightarrow> bool" where
  "kernel_ok k \<longleftrightarrow> fds_ok k \<and> stacked (k_procs k)"

lemma kernel_ok_quiet: "quiet k k' \<Longrightarrow> kernel_ok k \<Longrightarrow> kernel_ok k'"
  by (auto simp: kernel_ok_def quiet_def stacked_same)

lemma start_process_ok:
  assumes "kernel_ok k" and "start_process par bin ap an k = (r, k')" and "r \<noteq> Panic"
  shows "kernel_ok k'"
proof -
  let ?spawn = "Process_spawn (e_mem par) (e_parse par) (e_empty_heap par) (e_heap_init par) bin ap an"
  obtain x ps where run: "?spawn (k_procs k) = (x, ps)" by (cases "?spawn (k_procs k)")
  then have "x \<noteq> Panic" "k' = k\<lparr>k_procs := ps\<rparr>"
    using assms(2,3) by (auto simp: start_process_def on_procs_def split: outcome.splits)
  then show ?thesis using spawn_stacked [OF _ run] assms(1) by (simp add: kernel_ok_def fds_ok_def)
qed

lemma bind_quietE:
  assumes "bind m f k = (r, k')" and "\<And>x k'. m k = (x, k') \<Longrightarrow> quiet k k'"
  obtains "quiet k k'" and "\<forall>x. r \<noteq> Ok x" | x k1 where "quiet k k1" and "f x k1 = (r, k')"
proof -
  obtain x k1 where m: "m k = (x, k1)" by (cases "m k")
  then show thesis using assms that by (cases x) (auto simp: bind_def)
qed

lemma reads_quiet: "reads g k = (x, k') \<Longrightarrow> quiet k k'"
  by (simp add: reads_def)

lemma quiet_set_errno: "quiet k (set_errno e k)"
  by (rule quietI) simp_all

text \<open>\<open>spawn\<close> changes the processes only by the start of the new one, at its end.\<close>

lemma sys_spawn_cases:
  assumes "sys_spawn par path ap an k = Some (r, k')"
  obtains "quiet k k'" and "\<forall>e. r \<noteq> Ok (Enters e)" | bin k1 where "quiet k k1" and "start_process par bin ap an k1 = (r, k')"
proof -
  let ?path = "canonicalise path"
  obtain x k1 where op: "sys_open par ?path (flag_bits FlagRead) k = (x, k1)"
    by (cases "sys_open par ?path (flag_bits FlagRead) k")
  note q1 = quiet_open [OF op]
  show thesis
  proof (cases "\<exists>fd n. x = Ok fd \<and> 0 \<le> fd \<and> get_buffer_size (k_fss k1) 0 1 ?path = Ok n")
    case False
    then consider "k' = k1" "\<forall>e. r \<noteq> Ok (Enters e)" | fd where "bind (sys_close (nat fd)) (\<lambda>_.
        bind (modify (set_errno EINVAL)) (\<lambda>_. ret (Returns (-1)))) k1 = (r, k')"
      using assms op by (auto simp: sys_spawn_def Let_def split: outcome.splits if_splits)
    then have "quiet k1 k' \<and> (\<forall>e. r \<noteq> Ok (Enters e))"
    proof cases
      case 2
      then show ?thesis
        by (rule bind_quietE) (auto simp: run_simps intro: quiet_close quiet_trans [OF _ quiet_set_errno])
    qed simp
    then show thesis using that(1) q1 quiet_trans by blast
  next
    case True
    then obtain fd n where fd: "x = Ok fd" "0 \<le> fd" and n: "get_buffer_size (k_fss k1) 0 1 ?path = Ok n" by blast
    obtain y k2 where rd: "sys_read par (nat fd) (replicate n 0) k1 = Some (y, k2)"
      using assms op fd n by (auto simp: sys_spawn_def Let_def split: option.splits)
    have q2: "quiet k k2" using quiet_trans [OF q1 quiet_read [OF rd]] .
    show thesis
    proof (cases y)
      case (Ok cb)
      obtain count buf where cb: "cb = (count, buf)" by (cases cb)
      consider (fail) "bind (sys_close (nat fd)) (\<lambda>_. ret (Returns (-1))) k2 = (r, k')"
        | (run) "bind (reads (\<lambda>_. slice buf 0 (nat count))) (\<lambda>bin.
            bind (sys_close (nat fd)) (\<lambda>_. start_process par bin ap an)) k2 = (r, k')"
        using assms op fd n rd Ok cb by (auto simp: sys_spawn_def Let_def split: if_splits)
      then show thesis
      proof cases
        case fail
        then show thesis
          by (rule bind_quietE) (use that(1) quiet_trans [OF q2] in \<open>auto simp: ret_def intro: quiet_close\<close>)
      next
        case run
        then show thesis
        proof (rule bind_quietE)
          fix bin k3
          assume q3: "quiet k2 k3" and "bind (sys_close (nat fd)) (\<lambda>_. start_process par bin ap an) k3 = (r, k')"
          from this(2) show thesis
            by (rule bind_quietE) (use that q2 q3 quiet_trans quiet_close in blast)+
        qed (use that(1) q2 quiet_trans reads_quiet in blast)+
      qed
    qed (use assms op fd n rd q2 that(1) in \<open>auto simp: sys_spawn_def Let_def\<close>)
  qed
qed

lemma sys_spawn_ok:
  assumes "kernel_ok k" and "sys_spawn par path ap an k = Some (r, k')" and "r \<noteq> Panic"
  shows "kernel_ok k'"
  using assms(2)
proof (cases rule: sys_spawn_cases)
  case 1
  then show ?thesis using kernel_ok_quiet [OF 1(1) assms(1)] by blast
next
  case (2 bin k1)
  then show ?thesis using start_process_ok [OF kernel_ok_quiet [OF 2(1) assms(1)] 2(2) assms(3)] by blast
qed

lemma sys_exit_ok:
  assumes "kernel_ok k" and "cur_pid (k_procs k) \<noteq> 0" and "sys_exit par c k = (r, k')"
  shows "kernel_ok k'"
proof -
  obtain x ps where run: "(process_exit (e_mem par) (k_procs k) :: (unit, unit) outcome \<times> _) = (x, ps)"
    by (cases "process_exit (e_mem par) (k_procs k) :: (unit, unit) outcome \<times> _")
  have "x = Ok ()" "stacked ps" using exit_stacked [OF _ assms(2) run] assms(1) by (simp_all add: kernel_ok_def)
  then show ?thesis using assms run
    by (auto simp: sys_exit_def bind_def on_procs_def ret_def kernel_ok_def fds_ok_def)
qed

lemma returns_quiet:
  assumes "returns m k = (r, k')" and "\<And>x k'. m k = (x, k') \<Longrightarrow> quiet k k'"
  shows "quiet k k'"
proof -
  obtain x k1 where m: "m k = (x, k1)" by (cases "m k")
  then have "k' = k1" using assms(1) by (cases x) (auto simp: returns_def bind_def ret_def)
  then show ?thesis using assms(2) [OF m] by simp
qed

lemma quiet_bind_reads:
  assumes "bind (reads g) f k = (r, k')" and "\<And>x. f x k = (r, k') \<Longrightarrow> quiet k k'"
  shows "quiet k k'"
  using assms by (auto simp: bind_reads split: outcome.splits)

lemma quiet_bind_ret:
  assumes "bind m (\<lambda>x. ret (g x)) k = (r, k')" and "\<And>x k'. m k = (x, k') \<Longrightarrow> quiet k k'"
  shows "quiet k k'"
proof -
  obtain x k1 where m: "m k = (x, k1)" by (cases "m k")
  then have "k' = k1" using assms(1) by (cases x) (auto simp: bind_def ret_def)
  then show ?thesis using assms(2) [OF m] by simp
qed

lemma quiet_calls:
  "returns (sys_close a) k = (r, k') \<Longrightarrow> quiet k k'" "returns (sys_flush par a) k = (r, k') \<Longrightarrow> quiet k k'"
  "returns (sys_poll a b) k = (r, k') \<Longrightarrow> quiet k k'"
  "returns (sys_seek a b) k = (r, k') \<Longrightarrow> quiet k k'" "returns (sys_write par a buf) k = (r, k') \<Longrightarrow> quiet k k'"
  "returns (sys_open par path fl) k = (r, k') \<Longrightarrow> quiet k k'"
  by (erule returns_quiet, rule quiet_close quiet_on_fd_ops quiet_machine quiet_poll quiet_open, assumption)+

text \<open>All calls but \<open>EXIT\<close> and \<open>EXEC\<close> leave the processes alone.\<close>

lemma dispatch_call_quiet:
  assumes "\<not> (c = EXIT \<or> c = EXEC)" and "dispatch_call par c a1 a2 a3 a4 k = Some (r, k')"
  shows "quiet k k'"
  using assms
  by (cases c)
    (auto simp: panic_def ret_def timed_def dest!: quiet_calls quiet_dispatch_read
      elim!: quiet_bind_reads quiet_bind_ret intro: quiet_machine)

text \<open>Every call that returns keeps the invariant, the exit of process 0 apart.\<close>

lemma dispatch_call_ok:
  assumes ok: "kernel_ok k" and live: "c = EXIT \<Longrightarrow> cur_pid (k_procs k) \<noteq> 0"
    and run: "dispatch_call par c a1 a2 a3 a4 k = Some (r, k')" and "r \<noteq> Panic"
  shows "kernel_ok k'"
proof (cases "c = EXIT \<or> c = EXEC")
  case True
  then show ?thesis
  proof
    assume c: "c = EXIT"
    have "sys_exit par (ExitCode_from (word_of_nat a1)) k = (x, k') \<Longrightarrow> kernel_ok k'" for x
      using sys_exit_ok [OF ok live [OF c]] by blast
    then show ?thesis using run c by (auto simp: bind_def ret_def split: prod.splits outcome.splits)
  next
    assume "c = EXEC"
    then show ?thesis using run ok assms(4) sys_spawn_ok [OF ok]
      by (auto split: outcome.splits)
  qed
next
  case False
  then show ?thesis using kernel_ok_quiet [OF dispatch_call_quiet [OF _ run] ok] by blast
qed

section \<open>Boot\<close>

definition boot_devices :: "('r, 'h, 'm, 'd) Env \<Rightarrow> (nat \<times> 'r File) list" where
  "boot_devices par = [(0, FileDevice DevStdin), (1, FileDevice DevStdout), (2, FileDevice DevStderr),
     (3, FileDevice (DevNull (Null_new 0))), (4, FileDevice (DevZero (Zero_new 0))),
     (5, FileDevice (DevRand (Rand_new (e_seed par) (e_now par) 0)))]"

lemma sys_init_devices:
  assumes "k_files k = []"
  shows "sys_init par k = (Ok (), k\<lparr>k_files := boot_devices par\<rparr>)"
proof -
  have six: "[0..<NUM_DEVICES] = [0, 1, 2, 3, 4, 5]" by (simp add: NUM_DEVICES_def upt_rec)
  show ?thesis unfolding sys_init_def six
    by (simp add: assms Device_try_from_def insert_file_def ret_def boot_devices_def)
qed

text \<open>
  The system calls and the keyboard, from the state after \<open>syscall::init\<close>. The clocks read
  whatever they read during a call.
\<close>

definition at_time :: "nat list \<Rightarrow> nat list \<Rightarrow> u64 \<Rightarrow> ('r, 'h, 'm, 'd) Env \<Rightarrow> ('r, 'h, 'm, 'd) Env" where
  "at_time ticks tscs now par = par\<lparr>e_ticks := ticks, e_tscs := tscs, e_now := now\<rparr>"

definition boot_kernel :: "('r, 'h, 'm, 'd) Env \<Rightarrow> u64 \<Rightarrow> u64 \<Rightarrow> 'm \<Rightarrow> filesystems \<Rightarrow> 'd \<Rightarrow> ('r, 'f, 'h, 'm, 'd) Kernel" where
  "boot_kernel par cr3 addr mem fss d = snd (sys_init par
     \<lparr>k_console = boot_console, k_polls = [], k_fss = fss, k_disk = d,
      k_procs = boot_procs cr3 (e_empty_heap par) addr mem, k_users = None, k_files = [], k_errno = 0\<rparr>)"

inductive kernel_step :: "('r, 'h, 'm, 'd) Env \<Rightarrow> ('r, 'f, 'h, 'm, 'd) Kernel \<Rightarrow> ('r, 'f, 'h, 'm, 'd) Kernel \<Rightarrow> bool"
  for par where
  step_call: "call_of n = Some c \<Longrightarrow> (c = EXIT \<Longrightarrow> cur_pid (k_procs k) \<noteq> 0) \<Longrightarrow>
    dispatch (at_time ticks tscs now par) n a1 a2 a3 a4 k = Some (Ok r, k') \<Longrightarrow> kernel_step par k k'"
| step_key: "kernel_step par k (k\<lparr>k_console := handle_key key (k_console k)\<rparr>)"
| step_keys_ahead: "kernel_step par k (k\<lparr>k_polls := polls\<rparr>)"

inductive_cases kernel_stepE: "kernel_step par k k'"

lemma boot_kernel_ok: "kernel_ok (boot_kernel par cr3 addr mem fss d)"
  by (simp add: boot_kernel_def sys_init_devices kernel_ok_def fds_ok_def boot_devices_def stacked_boot)

lemma kernel_step_ok: "kernel_step par k k' \<Longrightarrow> kernel_ok k \<Longrightarrow> kernel_ok k'"
proof (induction rule: kernel_step.induct)
  case (step_call n c k ticks tscs now a1 a2 a3 a4 r k')
  then show ?case using dispatch_call_ok [of k c "at_time ticks tscs now par" a1 a2 a3 a4 "Ok r" k'] by (auto simp: dispatch_def)
qed (simp_all add: kernel_ok_def fds_ok_def)

lemma kernel_steps_ok: "(kernel_step par)\<^sup>*\<^sup>* k k' \<Longrightarrow> kernel_ok k \<Longrightarrow> kernel_ok k'"
  by (induction rule: rtranclp_induct) (auto dest: kernel_step_ok)

section \<open>Open files\<close>

lemma on_fd_Ok:
  assumes "map_of (k_files k) fd = Some f" and "oper (f, k) = (Ok x, (f', k'))"
  shows "on_fd fd oper ok k = (Ok (ok x), insert_file fd f' k')"
  using assms by (simp add: on_fd_def finish_def ret_def)

lemma sys_write_file:
  assumes "map_of (k_files k) fd = Some (FileFile h)" and "handle_write (e_clk par) buf (h, k_fss k) = (Ok n, (h', fss))"
  shows "sys_write par fd buf k = (Ok (as_isize n), insert_file fd (FileFile h') (k\<lparr>k_fss := fss\<rparr>))"
  unfolding sys_write_def by (rule on_fd_Ok [OF assms(1)]) (simp add: assms(2))

lemma sys_seek_file:
  assumes "map_of (k_files k) fd = Some (FileFile h)"
  shows "sys_seek fd pos k = (Ok (as_isize pos), insert_file fd (FileFile (h\<lparr>file_pos := pos\<rparr>)) k)"
  unfolding sys_seek_def by (rule on_fd_Ok [OF assms]) (simp add: handle_seek_def run_simps)

lemma sys_read_file:
  assumes "map_of (k_files k) fd = Some (FileFile h)" and "handle_read (k_fss k) buf h = (Ok (n, buf'), h')"
  shows "sys_read par fd buf k = Some (Ok (as_isize n, buf'), insert_file fd (FileFile h') k)"
  using assms by (simp add: sys_read_def finish_def run_simps)

lemma sys_close_file:
  assumes "map_of (k_files k) fd = Some (FileFile h)" and "k_fss k (fh_key h) = Some fs"
  obtains k' where "sys_close fd k = (Ok 0, k')" and "k_files k' = AList.delete fd (k_files k)" and "k_errno k' = k_errno k"
    and "k_procs k' = k_procs k"
proof -
  have "handle_close h (k_fss k) = (Ok (), snd (handle_close h (k_fss k)))"
    using assms(2) by (simp add: handle_close_def get_fs_def run_simps)
  then show thesis using assms(1) that by (cases "handle_close h (k_fss k)") (auto simp: sys_close_def finish_def run_simps)
qed

lemma sys_open_file:
  assumes "starts_with path ''/''" and "\<not> starts_with path ''/dev/''" and "\<not> starts_with path ''/proc/''"
    and "new_with_likely_fs (e_iter par) (k_fss k) path flags = Ok h"
  shows "sys_open par path flags k =
    (Ok (as_isize (length (k_files k))), insert_file (length (k_files k)) (FileFile h) k)"
  using assms by (simp add: sys_open_def canonicalise_def Let_def)

text \<open>\<open>spawn\<close> of a file that is found on the first drive.\<close>

lemma sys_spawn_file:
  assumes path: "starts_with path ''/''" "\<not> starts_with path ''/dev/''" "\<not> starts_with path ''/proc/''"
    and h: "new_with_likely_fs (e_iter par) (k_fss k) path (flag_bits FlagRead) = Ok h" "file_pos h = 0"
      "fh_flags h = flag_bits FlagRead" "fh_key h = (0, 1)" "fh_file_name h = path"
    and o: "opened (k_fss k) h md bytes" and len: "length bytes < 2 ^ 63" "length (k_files k) < 2 ^ 63"
  obtains k' where "sys_spawn par path ap an k = Some (start_process par bytes ap an k')"
    and "k_procs k' = k_procs k" and "k_errno k' = k_errno k"
    and "map_of (k_files k') = (map_of (k_files k))(length (k_files k) := None)"
proof -
  let ?fd = "length (k_files k)" and ?n = "length bytes"
  have canon: "canonicalise path = path" using path(1) by (simp add: canonicalise_def)
  have open1: "sys_open par path (flag_bits FlagRead) k = (Ok (int ?fd), insert_file ?fd (FileFile h) k)" (is "_ = (_, ?k1)")
    using sys_open_file [OF path h(1)] len(2) by (simp add: as_isize_small)
  have size: "get_buffer_size (k_fss ?k1) 0 1 path = Ok ?n"
    using o by (rule openedE) (simp add: get_buffer_size_def get_fs_def h)
  have "handle_read (k_fss k) (replicate ?n 0) h = (Ok (?n, bytes), h\<lparr>file_pos := ?n\<rparr>)"
    using handle_read_opened [OF o, of "replicate ?n 0"] h by (simp add: is_set_def Let_def)
  then have read2: "sys_read par ?fd (replicate ?n 0) ?k1 = Some (Ok (int ?n, bytes), insert_file ?fd (FileFile (h\<lparr>file_pos := ?n\<rparr>)) ?k1)"
    (is "_ = Some (_, ?k2)")
    using sys_read_file [where k = ?k1 and fd = ?fd and h = h and par = par] len(1) by (simp add: as_isize_small)
  obtain fs where "k_fss ?k2 (fh_key (h\<lparr>file_pos := ?n\<rparr>)) = Some fs" using o by (auto simp: opened_def fh_key_def)
  then obtain k3 where close3: "sys_close ?fd ?k2 = (Ok 0, k3)" and k3: "k_files k3 = AList.delete ?fd (k_files ?k2)"
    "k_errno k3 = k_errno k" "k_procs k3 = k_procs k"
    by (rule sys_close_file [of ?k2 ?fd "h\<lparr>file_pos := ?n\<rparr>", rotated]) simp_all
  have "sys_spawn par path ap an k = Some (start_process par bytes ap an k3)"
    using open1 size read2 close3
    by (simp add: sys_spawn_def canon slice_def bind_Ok [where m = "sys_close ?fd"] bind_reads)
  moreover have "map_of (k_files k3) = (map_of (k_files k))(?fd := None)" using k3(1) by (auto simp: delete_conv')
  ultimately show thesis using that k3 by blast
qed

section \<open>A sample system\<close>

text \<open>The sample file \<open>/a\<close> mounted on bus 0, device 1, just after boot.\<close>

definition sample_env :: "(unit, unit, unit, unit) Env" where
  "sample_env = \<lparr>e_clk = (\<lambda>_. 9), e_iter = (\<lambda>_. [(0, 1)]), e_ata = (\<lambda>_ _ _ _. ret ()), e_fill = (\<lambda>_ n. (replicate n 4, ())),
     e_seed = (\<lambda>_. ()), e_heap_used = (\<lambda>_. 0), e_heap_size = (\<lambda>_. 0), e_mem = idle_memory, e_parse = (\<lambda>_. None),
     e_empty_heap = (), e_heap_init = (\<lambda>_ _ h. h), e_alloc = (\<lambda>_ _. ret 0), e_free = (\<lambda>_ _ _. ret ()),
     e_shutdown = Some, e_now = 7, e_ticks = [0, 500, 1000], e_tscs = [5], e_tsc_freq = 1000000\<rparr>"

definition sample_kernel :: "(unit, unit, unit, unit, unit) Kernel" where
  "sample_kernel = boot_kernel sample_env 0x1000 0x1000000 () sample_mount ()"

lemma sample_kernel_fields [simp]:
  "k_files sample_kernel = boot_devices sample_env" "k_fss sample_kernel = sample_mount" "k_errno sample_kernel = 0"
  "k_users sample_kernel = None" "k_procs sample_kernel = sample_procs"
  by (simp_all add: sample_kernel_def boot_kernel_def sys_init_devices sample_procs_def sample_env_def)

lemma length_boot_devices [simp]: "length (boot_devices par) = 6"
  by (simp add: boot_devices_def)

lemma sample_kernel_dense: "dense sample_kernel"
  by (simp add: dense_def boot_devices_def upt_rec)

lemma sample_env_fields [simp]: "e_iter sample_env = (\<lambda>_. [(0, 1)])" "e_clk sample_env = (\<lambda>_. 9)"
  by (simp_all add: sample_env_def)

lemma sample_likely: "new_with_likely_fs (\<lambda>_. [(0, 1)]) sample_mount ''/a'' (flags_bitor FlagRead FlagWrite) = Ok sample_handle"
proof -
  have "read_file sample_file_fs ''/a'' = Ok ([], new_metadata (\<lambda>_. 7) (6, 6, 6) 0)"
    using sample_mount_file by (simp add: sample_mount_at read_file_files)
  then obtain i where "find_inode_by_name sample_file_fs ''/a'' = Ok i" by (auto simp: read_file_def)
  then show ?thesis
    by (simp add: new_with_likely_fs_def sample_mount_at FileHandle_new_def sample_handle_def del: One_nat_def)
qed

text \<open>A filesystem with one file of at most one block, mounted in place of the sample.\<close>

lemma written_fs:
  assumes name: "valid_name name" and "length bytes < 512"
  obtains fs md where "direct_fs fs" and "files fs (padded name) = Some (md, pad_data bytes)"
proof -
  have fresh: "files sample_fs (padded name) = None" by (simp add: sample_fs_blank(2))
  obtain fs1 where fs1: "direct_fs fs1"
      "files fs1 = (files sample_fs)(padded name \<mapsto> (new_metadata (\<lambda>_. 7) (6, 6, 6) 0, []))"
    and free: "card (free_blocks sample_fs) \<le> card (free_blocks fs1) + 1"
    using create_file_refines [OF sample_fs_blank(1) name fresh sample_fs_free sample_fs_table(1,2) not_live_default]
    by blast
  then have here: "files fs1 (padded name) = Some (new_metadata (\<lambda>_. 7) (6, 6, 6) 0, [])" by simp
  have "fits fs1 name (length bytes)"
    using free sample_fs_blank(3) assms(2) by (simp add: fits_def blocks_needed_def)
  from phys.wr_law [OF fs1(1) name here this] obtain fs' where "direct_fs fs'"
    "files fs' = (files fs1)(padded name \<mapsto>
      (updated_metadata (\<lambda>_. 9) None None (new_metadata (\<lambda>_. 7) (6, 6, 6) 0), pad_data bytes))" by blast
  then show thesis using that by simp
qed

definition mounted :: "PhysFs \<Rightarrow> (unit, unit, unit, unit, unit) Kernel" where
  "mounted fs = sample_kernel\<lparr>k_fss := [(0, 1) \<mapsto> sample_vfs\<lparr>phys_fs := fs\<rparr>]\<rparr>"

lemma mounted_fields [simp]: "k_files (mounted fs) = boot_devices sample_env" "k_errno (mounted fs) = 0"
  "k_users (mounted fs) = None" "k_procs (mounted fs) = sample_procs"
  by (simp_all add: mounted_def)

lemma mounted_opened:
  assumes "direct_fs fs" and "files fs (padded name) = Some (md, bytes)" and name: "valid_name name"
  shows "new_with_likely_fs (\<lambda>_. [(0, 1)]) (k_fss (mounted fs)) name flags = Ok (FileHandle_new name 0 1 flags)"
    and "opened (k_fss (mounted fs)) (FileHandle_new name 0 1 flags) md bytes"
proof -
  obtain i where "find_inode_by_name fs name = Ok i"
    using read_file_files [OF assms(1) name] assms(2) by (auto simp: read_file_def)
  then show "new_with_likely_fs (\<lambda>_. [(0, 1)]) (k_fss (mounted fs)) name flags = Ok (FileHandle_new name 0 1 flags)"
    by (simp add: new_with_likely_fs_def mounted_def)
  show "opened (k_fss (mounted fs)) (FileHandle_new name 0 1 flags) md bytes"
    using assms by (simp add: opened_def FileHandle_new_def fh_key_def mounted_def)
qed

lemma sample_users_length: "length (as_bytes (users_file [sample_user])) < 512"
  by (simp add: users_file_def unlines_def show_user_def sample_user_def show_nat.simps [of "_ :: nat"] newline_def)

section \<open>Properties\<close>

text \<open>
  C5. The invariant of the kernel: from boot on, through any system calls that return and any
  keys, each descriptor has one file, and the processes form a stack of at most four with
  the running process on top. (Process 0 must not exit.)
\<close>

theorem kernel_invariant:
  assumes "(kernel_step par)\<^sup>*\<^sup>* (boot_kernel par cr3 addr mem fss d) k"
  shows "distinct (map fst (k_files k)) \<and> max_pid (k_procs k) = Suc (cur_pid (k_procs k)) \<and>
    max_pid (k_procs k) \<le> MAX_PROCS \<and>
    (\<forall>i < max_pid (k_procs k). p_pid (process_table (k_procs k) ! i) = i \<and> p_ppid (process_table (k_procs k) ! i) = i - 1)"
  using kernel_steps_ok [OF assms boot_kernel_ok] by (simp add: kernel_ok_def fds_ok_def stacked_def)

theorem kernel_invariant_witness:
  "let k = snd (the (dispatch sample_env 4 3 0 0 0 sample_kernel)) in
     distinct (map fst (k_files k)) \<and> max_pid (k_procs k) = Suc (cur_pid (k_procs k))"
proof -
  have run: "dispatch sample_env 4 3 0 0 0 sample_kernel = Some (Ok (Returns 0), snd (the (dispatch sample_env 4 3 0 0 0 sample_kernel)))"
    by (simp add: dispatch_def call_of_def all_calls_def returns_def sys_close_def boot_devices_def run_simps finish_def
        Device_close_def device_noop_def)
  have "call_of 4 = Some CLOSE" by (simp add: call_of_def all_calls_def)
  moreover have "at_time [0, 500, 1000] [5] 7 sample_env = sample_env" by (simp add: at_time_def sample_env_def)
  ultimately have "kernel_step sample_env sample_kernel (snd (the (dispatch sample_env 4 3 0 0 0 sample_kernel)))"
    using step_call [of 4 CLOSE sample_kernel "[0, 500, 1000]" "[5]" 7 sample_env] run by simp
  then have "(kernel_step sample_env)\<^sup>*\<^sup>* (boot_kernel sample_env 0x1000 0x1000000 () sample_mount ())
      (snd (the (dispatch sample_env 4 3 0 0 0 sample_kernel)))"
    unfolding sample_kernel_def by (rule r_into_rtranclp)
  from kernel_invariant [OF this] show ?thesis by (simp add: Let_def)
qed

text \<open>
  C35. A call on a descriptor that is not open returns \<open>-1\<close>, sets the error number to \<open>EBADF\<close>
  and changes nothing else.
\<close>

theorem bad_descriptor:
  assumes "map_of (k_files k) fd = None"
  shows "sys_write par fd buf k = (Ok (-1), k\<lparr>k_errno := 9\<rparr>) \<and>
    sys_read par fd buf k = Some (Ok (-1, buf), k\<lparr>k_errno := 9\<rparr>) \<and>
    sys_close fd k = (Ok (-1), k\<lparr>k_errno := 9\<rparr>) \<and> sys_flush par fd k = (Ok (-1), k\<lparr>k_errno := 9\<rparr>) \<and>
    sys_seek fd pos k = (Ok (-1), k\<lparr>k_errno := 9\<rparr>) \<and> sys_poll fd 1 k = (Ok (-1), k\<lparr>k_errno := 9\<rparr>)"
  using assms by (simp add: sys_write_def sys_read_def sys_close_def sys_flush_def sys_seek_def sys_poll_def
      on_fd_def bad_fd_def run_simps set_errno_def)

theorem bad_descriptor_witness: "sys_close 9 sample_kernel = (Ok (-1), sample_kernel\<lparr>k_errno := 9\<rparr>)"
proof -
  have "map_of (k_files sample_kernel) 9 = None" by (simp add: boot_devices_def)
  from bad_descriptor [OF this] show ?thesis by blast
qed

text \<open>
  Opening a file that is found on a filesystem, as long as no descriptor was closed: the
  new descriptor is the number of open ones, was free, starts at the beginning of the file,
  and no other descriptor changes.
\<close>

lemma open_fresh:
  assumes "dense k" and "length (k_files k) < 2 ^ 63" and "\<not> starts_with path ''/dev/''"
    and "\<not> starts_with path ''/proc/''" and "starts_with path ''/''"
    and "new_with_likely_fs (e_iter par) (k_fss k) path flags = Ok h"
  shows "\<exists>k'. sys_open par path flags k = (Ok (int (length (k_files k))), k') \<and> dense k' \<and>
    map_of (k_files k) (length (k_files k)) = None \<and>
    map_of (k_files k') = (map_of (k_files k))(length (k_files k) \<mapsto> FileFile h)"
proof -
  have "sys_open par path flags k =
      (Ok (int (length (k_files k))), insert_file (length (k_files k)) (FileFile h) k)"
    using assms by (simp add: sys_open_def canonicalise_def Let_def as_isize_small)
  then show ?thesis using dense_insert [OF assms(1)] assms(1) by (simp add: dense_lookup)
qed

lemma open_fresh_example:
  "\<exists>k'. sys_open sample_env ''/a'' (flags_bitor FlagRead FlagWrite) sample_kernel = (Ok 6, k') \<and>
    map_of (k_files k') 6 = Some (FileFile sample_handle)"
  using open_fresh [OF sample_kernel_dense, where path = "''/a''" and par = sample_env and h = sample_handle
      and flags = "flags_bitor FlagRead FlagWrite"] sample_likely
  by auto

text \<open>
  C34. Descriptors after a close: when a descriptor below the highest is closed, the next open
  returns the highest descriptor, which is still open, and its file is lost.
\<close>

theorem open_after_close_replaces:
  assumes "dense k" and "Suc fd < length (k_files k)" and "length (k_files k) < 2 ^ 63"
    and "sys_close fd k = (Ok 0, k1)" and "\<not> starts_with path ''/dev/''"
    and "\<not> starts_with path ''/proc/''" and "starts_with path ''/''"
    and "new_with_likely_fs (e_iter par) (k_fss k1) path flags = Ok h"
  shows "\<exists>k2 f. map_of (k_files k1) (length (k_files k) - 1) = Some f \<and>
    sys_open par path flags k1 = (Ok (int (length (k_files k) - 1)), k2) \<and>
    map_of (k_files k2) (length (k_files k) - 1) = Some (FileFile h)"
proof -
  let ?n = "length (k_files k)"
  have keys: "map fst (k_files k) = [0..<?n]" using assms(1) by (simp add: dense_def)
  obtain f where f: "map_of (k_files k) fd = Some f"
    using assms(1,2) dense_lookup [of k fd] by (cases "map_of (k_files k) fd") auto
  obtain r f' k' where "File_close (f, k\<lparr>k_files := AList.delete fd (k_files k)\<rparr>) = (r, (f', k'))"
    by (metis prod.collapse)
  from same_tablesD(1) [OF File_close_same [OF this]] assms(4) f this
  have files: "k_files k1 = AList.delete fd (k_files k)"
    by (auto simp: sys_close_def finish_def run_simps set_errno_def split: outcome.splits)
  have "length (k_files k1) = ?n - 1"
  proof -
    have "map fst (k_files k1) = removeAll fd [0..<?n]"
      unfolding files AList.delete_eq filter_map [symmetric] by (simp add: removeAll_filter_not_eq keys [symmetric] filter_map comp_def split_def)
    also have "\<dots> = remove1 fd [0..<?n]" by (simp add: distinct_remove1_removeAll)
    finally have "length (map fst (k_files k1)) = length (remove1 fd [0..<?n])" by simp
    then show ?thesis using assms(2) by (simp add: length_remove1)
  qed
  moreover have "map_of (k_files k1) (?n - 1) = map_of (k_files k) (?n - 1)"
    unfolding files using assms(2) by (simp add: delete_conv')
  moreover have "map_of (k_files k) (?n - 1) \<noteq> None" using assms(2) by (simp add: dense_lookup [OF assms(1)])
  ultimately show ?thesis
    using assms(3,5-8) by (auto simp: sys_open_def canonicalise_def Let_def as_isize_small)
qed

theorem open_after_close_replaces_witness:
  "\<exists>k1 k2. sys_close 3 sample_kernel = (Ok 0, k1) \<and>
    sys_open sample_env ''/a'' (flags_bitor FlagRead FlagWrite) k1 = (Ok 5, k2) \<and>
    map_of (k_files k2) 5 = Some (FileFile sample_handle)"
proof -
  let ?k1 = "sample_kernel\<lparr>k_files := AList.delete 3 (k_files sample_kernel)\<rparr>"
  have close: "sys_close 3 sample_kernel = (Ok 0, ?k1)"
    by (simp add: sys_close_def boot_devices_def Device_close_def device_noop_def finish_def run_simps)
  show ?thesis
    using open_after_close_replaces [OF sample_kernel_dense _ _ close, where path = "''/a''" and par = sample_env
        and h = sample_handle and flags = "flags_bitor FlagRead FlagWrite"] sample_likely close
    by auto
qed

text \<open>
  C6. A round trip through the system calls: a file that is found is opened for reading and
  writing, bytes are written, and after seeking to the beginning they are read back; closing
  the descriptor leaves the table as it was, and no call sets the error number.
\<close>

theorem file_roundtrip:
  assumes "dense k" and "length (k_files k) < 2 ^ 63"
    and path: "starts_with path ''/''" "\<not> starts_with path ''/dev/''" "\<not> starts_with path ''/proc/''"
    and h: "new_with_likely_fs (e_iter par) (k_fss k) path flags = Ok h" "file_pos h = 0" "fh_flags h = flags"
    and flags: "is_set FlagRead flags" "is_set FlagWrite flags"
    and opened: "opened (k_fss k) h md bytes" and buf: "length buf < 2 ^ 63" "length buf' = length buf"
    and room: "\<And>fs. k_fss k (fh_key h) = Some fs \<Longrightarrow>
      fits (phys_fs fs) (fh_file_name h) (length (written bytes 0 buf))"
  shows "\<exists>k1 k2 k3 k4 k5. sys_open par path flags k = (Ok (int (length (k_files k))), k1) \<and>
    sys_write par (length (k_files k)) buf k1 = (Ok (int (length buf)), k2) \<and>
    sys_seek (length (k_files k)) 0 k2 = (Ok 0, k3) \<and>
    sys_read par (length (k_files k)) buf' k3 = Some (Ok (int (length buf), buf), k4) \<and>
    sys_close (length (k_files k)) k4 = (Ok 0, k5) \<and>
    map_of (k_files k5) = map_of (k_files k) \<and> k_errno k5 = k_errno k"
proof -
  let ?fd = "length (k_files k)" and ?n = "length buf"
  have free: "map_of (k_files k) ?fd = None" using assms(1) by (simp add: dense_lookup)
  have open1: "sys_open par path flags k = (Ok (int ?fd), insert_file ?fd (FileFile h) k)" (is "_ = (_, ?k1)")
    using sys_open_file [OF path h(1)] assms(2) by (simp add: as_isize_small)
  obtain fss md' where
      wr: "handle_write (e_clk par) buf (h, k_fss k) = (Ok ?n, (h\<lparr>file_pos := ?n\<rparr>, fss))"
    and rd: "handle_read fss buf' h = (Ok (?n, buf), h\<lparr>file_pos := ?n\<rparr>)"
    and op: "opened fss h md' (pad_data (written bytes 0 buf))"
    by (rule handle_write_read [OF opened _ _ _ buf(2), where clk = "e_clk par"])
      (use flags h(2,3) room buf(1) in simp_all)
  have write2: "sys_write par ?fd buf ?k1 = (Ok (int ?n), insert_file ?fd (FileFile (h\<lparr>file_pos := ?n\<rparr>)) (?k1\<lparr>k_fss := fss\<rparr>))"
    (is "_ = (_, ?k2)")
    using sys_write_file [where k = ?k1 and fd = ?fd and h = h and buf = buf] wr buf(1) by (simp add: as_isize_small)
  have h0: "h\<lparr>file_pos := 0\<rparr> = h" using h(2) by simp
  have seek3: "sys_seek ?fd 0 ?k2 = (Ok 0, insert_file ?fd (FileFile h) ?k2)" (is "_ = (_, ?k3)")
    using sys_seek_file [where k = ?k2 and fd = ?fd and pos = 0 and h = "h\<lparr>file_pos := ?n\<rparr>"] by (simp add: as_isize_small h0)
  have read4: "sys_read par ?fd buf' ?k3 = Some (Ok (int ?n, buf), insert_file ?fd (FileFile (h\<lparr>file_pos := ?n\<rparr>)) ?k3)"
    (is "_ = Some (_, ?k4)")
    using sys_read_file [where k = ?k3 and fd = ?fd, of h buf'] rd buf(1) by (simp add: as_isize_small)
  obtain fs where "k_fss ?k4 (fh_key (h\<lparr>file_pos := ?n\<rparr>)) = Some fs" using op by (auto simp: opened_def fh_key_def)
  then obtain k5 where "sys_close ?fd ?k4 = (Ok 0, k5)" "k_files k5 = AList.delete ?fd (k_files ?k4)" "k_errno k5 = k_errno k"
    by (rule sys_close_file [of ?k4 ?fd "h\<lparr>file_pos := ?n\<rparr>", rotated]) simp_all
  moreover from this(2) have "map_of (k_files k5) = map_of (k_files k)"
    using free by (auto simp: delete_conv')
  ultimately show ?thesis using open1 write2 seek3 read4 by blast
qed

theorem file_roundtrip_witness:
  "\<exists>k1 k2 k3 k4. sys_open sample_env ''/a'' (flags_bitor FlagRead FlagWrite) sample_kernel = (Ok 6, k1) \<and>
    sys_write sample_env 6 [1, 2, 3] k1 = (Ok 3, k2) \<and> sys_seek 6 0 k2 = (Ok 0, k3) \<and>
    sys_read sample_env 6 [0, 0, 0] k3 = Some (Ok (3, [1, 2, 3]), k4)"
proof -
  have "fits sample_file_fs ''/a'' 3" using sample_file_fs_facts(3) by (simp add: fits_def blocks_needed_def)
  then have room: "fits (phys_fs fs) (fh_file_name sample_handle) (length (written [] 0 [1 :: u8, 2, 3]))"
    if "k_fss sample_kernel (fh_key sample_handle) = Some fs" for fs
    using that by (simp add: sample_mount_at length_written numeral_3_eq_3 del: One_nat_def)
  have "length (k_files sample_kernel) < 2 ^ 63" "starts_with ''/a'' ''/''" "\<not> starts_with ''/a'' ''/dev/''"
      "\<not> starts_with ''/a'' ''/proc/''" by simp_all
  note start = this
  have "is_set FlagRead (flags_bitor FlagRead FlagWrite)" "is_set FlagWrite (flags_bitor FlagRead FlagWrite)" by simp_all
  note flags = this
  have likely: "new_with_likely_fs (e_iter sample_env) (k_fss sample_kernel) ''/a'' (flags_bitor FlagRead FlagWrite) = Ok sample_handle"
    using sample_likely by simp
  have opened: "opened (k_fss sample_kernel) sample_handle (new_metadata (\<lambda>_. 7) (6, 6, 6) 0) []"
    using sample_opened by simp
  from file_roundtrip [OF sample_kernel_dense start likely _ _ flags opened _ _ room, of "[0, 0, 0]"]
  show ?thesis by simp blast
qed

text \<open>
  The null, zero and random devices of the boot: they are opened without flags, so that
  every read and every write on their descriptors is refused with \<open>EIO\<close>.
\<close>

lemma boot_devices_refuse:
  assumes "k = boot_kernel par cr3 addr mem fss d" and "fd \<in> {3, 4, 5}"
  shows "sys_read par fd buf k = Some (Ok (-1, buf), k\<lparr>k_errno := errno_code EIO\<rparr>) \<and>
    sys_write par fd buf k = (Ok (-1), k\<lparr>k_errno := errno_code EIO\<rparr>)"
proof -
  have "map_of (k_files k) fd = Some (if fd = 3 then FileDevice (DevNull (Null_new 0))
      else if fd = 4 then FileDevice (DevZero (Zero_new 0)) else FileDevice (DevRand (Rand_new (e_seed par) (e_now par) 0)))"
    and "insert_file fd (the (map_of (k_files k) fd)) k = k"
    using assms(2) by (auto simp: assms(1) boot_kernel_def sys_init_devices boot_devices_def insert_file_def)
  then show ?thesis using assms(2)
    by (auto simp: sys_read_def sys_write_def on_fd_def finish_def run_simps set_errno_def reads_def
        Null_read_def Zero_read_def Rand_read_def Null_write_def Zero_write_def Rand_write_def
        Null_new_def Zero_new_def Rand_new_def is_set_def)
qed

lemma boot_devices_refuse_example:
  "sys_write sample_env 3 [65] sample_kernel = (Ok (-1), sample_kernel\<lparr>k_errno := 5\<rparr>)"
  using boot_devices_refuse [of sample_kernel sample_env "0x1000" "0x1000000" "()" sample_mount "()" 3 "[65]"]
  by (simp add: sample_kernel_def)

lemma fds_ok_users: "fds_ok (k\<lparr>k_users := us\<rparr>) = fds_ok k"
  by (simp add: fds_ok_def)

lemma length_update_le: "length (AList.update k v al) \<le> Suc (length al)"
  by (induction al) auto

lemma insert_file_again: "insert_file fd f (insert_file fd g k) = insert_file fd f k"
  by (simp add: insert_file_def AList.update_last)

lemma length_insert_file: "length (k_files (insert_file fd f k)) \<le> Suc (length (k_files k))"
  by (simp add: insert_file_def length_update_le)

text \<open>
  The users at boot: when the error number is 0 and \<open>/etc/users\<close> holds the entries of
  valid users and zeros, at most 2048 bytes, then \<open>user::init\<close> returns and installs
  exactly these users.
\<close>

lemma user_init_loads:
  assumes "k_errno k = 0" and "k_users k = None" and "length (k_files k) < 2 ^ 63"
    and h: "new_with_likely_fs (e_iter par) (k_fss k) ''/etc/users'' (flag_bits FlagRead) = Ok h"
      "file_pos h = 0" "fh_flags h = flag_bits FlagRead"
    and entries: "opened (k_fss k) h md (as_bytes (users_file us) @ replicate z 0)"
      "length (as_bytes (users_file us)) + z \<le> 2048"
    and users: "\<And>u. u \<in> set us \<Longrightarrow> valid_user u"
  shows "\<exists>k'. user_init par k = Some (Ok (), k') \<and> k_users k' = Some us \<and> k_fss k' = k_fss k \<and> k_errno k' = 0 \<and>
    k_procs k' = k_procs k \<and> length (k_files k') \<le> Suc (length (k_files k)) \<and> (fds_ok k \<longrightarrow> fds_ok k')"
proof -
  let ?fd = "length (k_files k)" and ?bytes = "as_bytes (users_file us) @ replicate z 0"
  let ?n = "length ?bytes"
  have op: "sys_open par ''/etc/users'' (flag_bits FlagRead) k = (Ok (int ?fd), insert_file ?fd (FileFile h) k)"
    (is "_ = (_, ?k1)")
    using sys_open_file [OF _ _ _ h(1)] assms(3) by (simp add: as_isize_small)
  have "handle_read (k_fss k) (replicate 2048 0) h =
      (Ok (?n, ?bytes @ replicate (2048 - ?n) 0), h\<lparr>file_pos := ?n\<rparr>)"
    using handle_read_opened [OF entries(1), of "replicate 2048 0"] h(2,3) entries(2)
    by (simp add: Let_def min_absorb2 is_set_def)
  then have "sys_read par ?fd (replicate 2048 0) ?k1 =
      Some (Ok (as_isize ?n, ?bytes @ replicate (2048 - ?n) 0), insert_file ?fd (FileFile (h\<lparr>file_pos := ?n\<rparr>)) ?k1)"
    by (intro sys_read_file) simp_all
  moreover have "?bytes @ replicate (2048 - ?n) 0 = as_bytes (users_file us) @ replicate (z + (2048 - ?n)) 0"
    by (simp add: replicate_add)
  moreover have "parse_users (as_bytes (users_file us) @ replicate (z + (2048 - ?n)) 0) = (Ok us :: (unit, _) outcome)"
    using users by (rule parse_users_file)
  ultimately show ?thesis using op assms(1,2) by (simp add: user_init_def run_simps init_once_def insert_file_again length_insert_file fds_ok_users)
qed

lemma user_init_loads_example:
  "\<exists>(k :: (unit, unit, unit, unit, unit) Kernel) k'. user_init sample_env k = Some (Ok (), k') \<and> k_users k' = Some [sample_user]"
proof -
  let ?bytes = "as_bytes (users_file [sample_user])"
  have name: "valid_name ''/etc/users''" by (simp add: valid_name_def)
  obtain fs md where fs: "direct_fs fs" "files fs (padded ''/etc/users'') = Some (md, pad_data ?bytes)"
    using written_fs [OF name sample_users_length] by blast
  obtain z where z: "pad_data ?bytes = ?bytes @ replicate z 0" "z \<le> 512" using pad_data_prefix by fastforce
  have len: "length ?bytes + z \<le> 2048" using z(2) sample_users_length by simp
  have "k_errno (mounted fs) = 0" "k_users (mounted fs) = None" "length (k_files (mounted fs)) < 2 ^ 63" by simp_all
  from user_init_loads [OF this mounted_opened(1) [OF fs name, of "flag_bits FlagRead", folded sample_env_fields(1)] _ _
      mounted_opened(2) [OF fs name, unfolded z(1)] len]
  have "\<exists>k'. user_init sample_env (mounted fs) = Some (Ok (), k') \<and> k_users k' = Some [sample_user]"
    using sample_user_valid by (auto simp: FileHandle_new_def)
  then show ?thesis by blast
qed

text \<open>
  The error number is never reset: after any call that failed, \<open>user::init\<close> gives up and
  leaves the users as they are, whatever \<open>/etc/users\<close> holds.
\<close>

lemma stale_errno_skips_users:
  assumes "k_errno k \<noteq> 0" and "user_init par k = Some (r, k')"
  shows "k_users k' = k_users k \<and> k_errno k' \<noteq> 0"
proof -
  have "\<exists>r k1. sys_open par ''/etc/users'' (flag_bits FlagRead) k = (r, k1) \<and> k_users k1 = k_users k \<and>
      k_errno k1 \<noteq> 0"
    using assms(1) by (auto simp: sys_open_def canonicalise_def Let_def split: outcome.splits)
  then show ?thesis using assms(2) by (auto simp: user_init_def split: outcome.splits if_splits)
qed

lemma stale_errno_skips_users_example:
  "k_users (snd (the (user_init sample_env (sample_kernel\<lparr>k_errno := 9\<rparr>)))) = None"
proof -
  let ?k = "sample_kernel\<lparr>k_errno := 9\<rparr>"
  have "\<exists>r k'. user_init sample_env ?k = Some (r, k')"
    by (auto simp: user_init_def sys_open_def canonicalise_def Let_def split: outcome.splits)
  then obtain r k' where run: "user_init sample_env ?k = Some (r, k')" by blast
  from stale_errno_skips_users [OF _ run] show ?thesis using run by simp
qed

text \<open>
  C40. \<open>POLL\<close> for reading on an open file answers the wrong way round: 1 exactly when \<open>READ\<close>
  would fail, and 0 when it would succeed.
\<close>

theorem poll_inverted:
  assumes "map_of (k_files k) fd = Some (FileFile h)" and "opened (k_fss k) h md bytes"
    and "file_pos h \<le> length bytes" and "length buf < 2 ^ 63"
  shows "sys_poll fd 1 k = (Ok (if \<exists>k'. sys_read par fd buf k = Some (Ok (-1, buf), k') then 1 else 0), k)"
proof (cases "is_set FlagRead (fh_flags h)")
  case True
  let ?n = "min (length buf) (length bytes - file_pos h)"
  have "sys_read par fd buf k = Some (Ok (int ?n, take ?n (drop (file_pos h) bytes) @ drop ?n buf),
      insert_file fd (FileFile (h\<lparr>file_pos := file_pos h + ?n\<rparr>)) k)"
    using sys_read_file [where k = k and h = h and fd = fd and buf = buf] handle_read_opened [OF assms(2) True assms(3), of buf] assms(1,4)
    by (simp add: Let_def as_isize_small)
  then show ?thesis using True assms(1) by (auto simp: sys_poll_def ret_def)
next
  case False
  have "handle_read (k_fss k) buf h = (Err (PermissionError (inner_from FsReadError)), h)"
    using assms(2) False by (auto simp: handle_read_def opened_def get_fs_def run_simps)
  then show ?thesis using False assms(1)
    by (auto simp: sys_poll_def sys_read_def finish_def run_simps)
qed

theorem poll_inverted_witness:
  "let k = insert_file 6 (FileFile sample_handle) sample_kernel in
    sys_poll 6 1 k = (Ok 0, k) \<and> fst (the (sys_read sample_env 6 [] k)) = Ok (0, [])"
proof -
  let ?k = "insert_file 6 (FileFile sample_handle) sample_kernel"
  have read: "sys_read sample_env 6 [] ?k = Some (Ok (0, []), insert_file 6 (FileFile (sample_handle\<lparr>file_pos := 0\<rparr>)) ?k)"
    using sys_read_file [where k = ?k and h = sample_handle and fd = 6 and buf = "[]" and par = sample_env]
      handle_read_opened [OF sample_opened, of "[]"] by (simp add: as_isize_small)
  have "opened (k_fss ?k) sample_handle (new_metadata (\<lambda>_. 7) (6, 6, 6) 0) []" using sample_opened by simp
  from poll_inverted [OF _ this, of 6 "[]" sample_env] show ?thesis using read by (simp add: Let_def)
qed

end
