(* ===== verification/Interrupts.thy ===== *)
theory Interrupts
  imports Syscall_Facts
begin

text \<open>
  Interrupts of \<open>kernel/src/internal/interrupts.rs\<close>: the descriptor table and the table of
  IRQ handlers, the page fault handler, and the system call handler with the context of a
  process that \<open>EXEC\<close> saves and \<open>EXIT\<close> restores.

  \<open>'f\<close> is the interrupt frame on the stack. \<open>notify_end_of_interrupt\<close> of the crate \<open>pic8259\<close> is a
  parameter; for the vector 0x80 it does nothing, as no controller has it, and is left out.
  The naked wrapper pushes and pops the registers that \<open>Registers\<close> lists.
\<close>

section \<open>Vectors\<close>

definition PIC_1_OFFSET :: u8 where
  "PIC_1_OFFSET = 32"

definition PIC_2_OFFSET :: u8 where
  "PIC_2_OFFSET = PIC_1_OFFSET + 8"

datatype InterruptIndex = Timer | Keyboard

fun as_u8 :: "InterruptIndex \<Rightarrow> u8" where
  "as_u8 Timer = PIC_1_OFFSET"
| "as_u8 Keyboard = PIC_1_OFFSET + 1"

datatype handler_fn = breakpoint_handler | double_fault_handler | page_fault_handler
  | general_protection_fault_handler | wrapped_syscall_handler | timer_interrupt_handler | irq_handler nat

text \<open>The table \<open>IDT\<close>, entries set in the order of the source; the vectors of the exceptions are those of the CPU.\<close>

definition set_irqs :: "(u8 \<rightharpoonup> handler_fn) \<Rightarrow> u8 \<rightharpoonup> handler_fn" where
  "set_irqs idt = foldl (\<lambda>idt n. idt(PIC_1_OFFSET + word_of_nat n \<mapsto> irq_handler n)) idt [0..<16]"

definition IDT :: "u8 \<rightharpoonup> handler_fn" where
  "IDT = set_irqs (Map.empty(3 \<mapsto> breakpoint_handler, 8 \<mapsto> double_fault_handler, 14 \<mapsto> page_fault_handler,
     13 \<mapsto> general_protection_fault_handler, 0x80 \<mapsto> wrapped_syscall_handler,
     as_u8 Timer \<mapsto> timer_interrupt_handler, 14 \<mapsto> page_fault_handler))"

section \<open>IRQ handlers\<close>

text \<open>\<open>IRQ_HANDLERS\<close>: sixteen functions on the state of the machine, at first without effect.\<close>

definition no_handlers :: "('s \<Rightarrow> 's) list" where
  "no_handlers = replicate 16 (\<lambda>s. s)"

definition set_irq_handler :: "u8 \<Rightarrow> ('s \<Rightarrow> 's) \<Rightarrow> ('s \<Rightarrow> 's) list \<Rightarrow> ('e, ('s \<Rightarrow> 's) list) outcome" where
  "set_irq_handler irq h hs = index_set hs (unat irq) h"

definition run_irq :: "(u8 \<Rightarrow> 's \<Rightarrow> 's) \<Rightarrow> ('s \<Rightarrow> 's) list \<Rightarrow> nat \<Rightarrow> ('s, 'e, unit) prog" where
  "run_irq eoi hs n =
     bind (reads (\<lambda>_. index hs n)) (\<lambda>h.
     bind (modify h) (\<lambda>_. modify (eoi (PIC_1_OFFSET + word_of_nat n))))"

text \<open>An interrupt from one of the controllers.\<close>

definition external_interrupt :: "(u8 \<Rightarrow> 's \<Rightarrow> 's) \<Rightarrow> ('s \<Rightarrow> 's) list \<Rightarrow> u8 \<Rightarrow> ('s, 'e, unit) prog" where
  "external_interrupt eoi hs v = (case IDT v of
      Some (irq_handler n) \<Rightarrow> run_irq eoi hs n
    | Some timer_interrupt_handler \<Rightarrow> modify (eoi (as_u8 Timer))
    | _ \<Rightarrow> panic)"

section \<open>Page faults\<close>

text \<open>Bits of the error code: 1 for a write, 2 for user mode.\<close>

definition caused_by_write :: "u64 \<Rightarrow> bool" where
  "caused_by_write code \<longleftrightarrow> bit code 1"

definition user_mode :: "u64 \<Rightarrow> bool" where
  "user_mode code \<longleftrightarrow> bit code 2"

text \<open>A mapping that fails is a value here: \<open>alloc_pages(..)\<close> seen through \<open>is_err\<close> and \<open>is_ok\<close>.\<close>

definition try_alloc :: "'m Mem_ops \<Rightarrow> u64 \<Rightarrow> nat \<Rightarrow> (('r, 'f, 'h, 'm) Procs, unit, bool) prog" where
  "try_alloc mo addr n ps = (case current ps :: (unit, _) outcome of
      Ok p \<Rightarrow> (case mo_alloc_pages mo (page_table_frame p) addr n (memory ps) of
          (Ok _, mem) \<Rightarrow> (Ok True, ps\<lparr>memory := mem\<rparr>)
        | (Err _, mem) \<Rightarrow> (Ok False, ps\<lparr>memory := mem\<rparr>)
        | (Panic, mem) \<Rightarrow> (Panic, ps\<lparr>memory := mem\<rparr>))
    | Err e \<Rightarrow> (Err e, ps)
    | Panic \<Rightarrow> (Panic, ps))"

definition copy_code_page :: "'m Mem_ops \<Rightarrow> u64 \<Rightarrow> (('r, 'f, 'h, 'm) Procs, unit, unit) prog" where
  "copy_code_page mo start =
     bind (reads get_code_addr) (\<lambda>base.
     bind (reads (\<lambda>_. u64_add base start)) (\<lambda>src.
     on_memory (modify (\<lambda>mem. mo_write mo start (mo_read mo src 4096 mem) mem))))"

text \<open>\<open>error!\<close> panics after it has printed, so that \<open>hlt_loop\<close> behind it is not reached.\<close>

definition page_fault :: "'m Mem_ops \<Rightarrow> u64 \<Rightarrow> u64 \<Rightarrow> (('r, 'f, 'h, 'm) Procs, unit, unit) prog" where
  "page_fault mo code addr =
     (if caused_by_write code then
        bind (try_alloc mo addr 1) (\<lambda>ok.
        if ok then ret ()
        else if user_mode code then process_exit mo
        else panic)
      else if user_mode code then
        let start = addr div 4096 * 4096 in
        bind (try_alloc mo start 4096) (\<lambda>ok.
        if ok \<and> is_userspace start then copy_code_page mo start else ret ())
      else panic)"

section \<open>System calls\<close>

text \<open>How the handler leaves: back to the caller with a frame and registers, or into a new process.\<close>

datatype 'f trap_result = Iret 'f Registers | Enter user_entry

fun call_name :: "Call \<Rightarrow> string" where
  "call_name READ = ''read''"
| "call_name WRITE = ''write''"
| "call_name OPEN = ''open''"
| "call_name CLOSE = ''close''"
| "call_name FLUSH = ''flush''"
| "call_name EXIT = ''exit''"
| "call_name SLEEP = ''sleep''"
| "call_name WAIT = ''wait''"
| "call_name GETPID = ''getpid''"
| "call_name EXEC = ''exec''"
| "call_name FORK = ''fork''"
| "call_name GETTID = ''gettid''"
| "call_name STOP = ''stop''"
| "call_name WAITPID = ''waitpid''"
| "call_name CONNECT = ''connect''"
| "call_name ACCEPT = ''accept''"
| "call_name LISTEN = ''listen''"
| "call_name ALLOC = ''alloc''"
| "call_name FREE = ''free''"
| "call_name KIND = ''kind''"
| "call_name GETERRNO = ''get_errno''"
| "call_name POLL = ''poll''"
| "call_name BOOTTIME = ''boot_time''"
| "call_name TIME = ''unix_time''"
| "call_name SEEK = ''seek''"

definition syscall_name :: "nat \<Rightarrow> string" where
  "syscall_name n = (case call_of n of None \<Rightarrow> ''<unknown>'' | Some c \<Rightarrow> call_name c)"

definition save_context :: "'f \<Rightarrow> Registers \<Rightarrow> (('r, 'f, 'h, 'm, 'd) Kernel, unit, unit) prog" where
  "save_context frame regs = on_procs (bind (set_stack_frame frame) (\<lambda>_. set_registers regs))"

definition restore_context :: "(('r, 'f, 'h, 'm, 'd) Kernel, unit, 'f trap_result) prog" where
  "restore_context =
     bind (reads (\<lambda>k. get_stack_frame (k_procs k))) (\<lambda>sf.
     bind (reads (\<lambda>k. get_registers (k_procs k))) (\<lambda>rs. ret (Iret sf rs)))"

definition after_dispatch :: "'f \<Rightarrow> Registers \<Rightarrow> sys_result \<Rightarrow> (('r, 'f, 'h, 'm, 'd) Kernel, unit, 'f trap_result) prog" where
  "after_dispatch frame regs res = (case res of
      Enters entry \<Rightarrow> ret (Enter entry)
    | Returns v \<Rightarrow>
        if call_of (unat (rax regs)) = Some EXIT then restore_context
        else ret (Iret frame (regs\<lparr>rax := word_of_int v\<rparr>)))"

definition syscall_handler :: "('r, 'h, 'm, 'd) Env \<Rightarrow> 'f \<Rightarrow> Registers \<Rightarrow> ('r, 'f, 'h, 'm, 'd) Kernel
    \<Rightarrow> ((unit, 'f trap_result) outcome \<times> ('r, 'f, 'h, 'm, 'd) Kernel) option" where
  "syscall_handler par frame regs k =
     (case (if call_of (unat (rax regs)) = Some EXEC then save_context frame regs else ret ()) k of
        (Panic, k1) \<Rightarrow> Some (Panic, k1)
      | (Err e, k1) \<Rightarrow> Some (Err e, k1)
      | (Ok _, k1) \<Rightarrow>
          (case dispatch par (unat (rax regs)) (unat (rdi regs)) (unat (rsi regs)) (unat (rdx regs)) (unat (r8 regs)) k1 of
             None \<Rightarrow> None
           | Some (Panic, k2) \<Rightarrow> Some (Panic, k2)
           | Some (Err e, k2) \<Rightarrow> Some (Err e, k2)
           | Some (Ok res, k2) \<Rightarrow> Some (after_dispatch frame regs res k2)))"

section \<open>What a call leaves of the processes below\<close>

lemma quiet_procs: "quiet k k' \<Longrightarrow> same_procs (k_procs k) (k_procs k')"
  by (simp add: quiet_def)

lemma start_process_below:
  assumes "kernel_ok k" and "start_process par bin ap an k = (r, k')" and "r \<noteq> Panic" and "j \<le> cur_pid (k_procs k)"
  shows "process_table (k_procs k') ! j = process_table (k_procs k) ! j"
proof -
  let ?spawn = "Process_spawn (e_mem par) (e_parse par) (e_empty_heap par) (e_heap_init par) bin ap an"
  obtain x ps where run: "?spawn (k_procs k) = (x, ps)" by (cases "?spawn (k_procs k)")
  then have "x \<noteq> Panic" "k' = k\<lparr>k_procs := ps\<rparr>"
    using assms(2,3) by (auto simp: start_process_def on_procs_def split: outcome.splits)
  then show ?thesis using spawn_below [OF _ run _ assms(4)] assms(1) by (simp add: kernel_ok_def)
qed

lemma dispatch_below:
  assumes ok: "kernel_ok k" and live: "call_of n = Some EXIT \<Longrightarrow> cur_pid (k_procs k) \<noteq> 0"
    and run: "dispatch par n a1 a2 a3 a4 k = Some (Ok r, k')" and j: "j \<le> cur_pid (k_procs k)"
  shows "process_table (k_procs k') ! j = process_table (k_procs k) ! j"
proof (cases "call_of n")
  case None
  then show ?thesis using run by (simp add: dispatch_def ret_def)
next
  case (Some c)
  then have call: "dispatch_call par c a1 a2 a3 a4 k = Some (Ok r, k')" using run by (simp add: dispatch_def)
  show ?thesis
  proof (cases "c = EXIT \<or> c = EXEC")
    case False
    then have "quiet k k'" using call by (rule dispatch_call_quiet)
    then show ?thesis using quiet_procs by (fastforce simp: same_procs_def)
  next
    case True
    then show ?thesis
    proof
      assume "c = EXIT"
      then obtain ps where ps: "(process_exit (e_mem par) (k_procs k) :: (unit, unit) outcome \<times> _) = (Ok (), ps)" "k_procs k' = ps"
        using call by (auto simp: bind_eq_Ok sys_exit_def on_procs_def ret_def split: prod.splits)
      show ?thesis using exit_stacked [where ps = "k_procs k", OF _ _ ps(1)] ps(2) ok live \<open>c = EXIT\<close> Some
        by (simp add: kernel_ok_def)
    next
      assume "c = EXEC"
      then obtain path where "sys_spawn par path (word_of_nat a3) a4 k = Some (Ok r, k')"
        using call by (auto split: outcome.splits)
      then show ?thesis
      proof (cases rule: sys_spawn_cases)
        case 1
        then show ?thesis using quiet_procs by (fastforce simp: same_procs_def)
      next
        case (2 bin k1)
        have "j \<le> cur_pid (k_procs k1)" "process_table (k_procs k1) = process_table (k_procs k)"
          using quiet_procs [OF 2(1)] j by (simp_all add: same_procs_def)
        then show ?thesis using start_process_below [OF kernel_ok_quiet [OF 2(1) ok] 2(2)] by simp
      qed
    qed
  qed
qed

section \<open>Contexts\<close>

definition has_context :: "nat \<Rightarrow> 'f \<Rightarrow> Registers \<Rightarrow> ('r, 'f, 'h, 'm, 'd) Kernel \<Rightarrow> bool" where
  "has_context j frame regs k \<longleftrightarrow> stack_frame (process_table (k_procs k) ! j) = Some frame \<and>
     registers (process_table (k_procs k) ! j) = regs"

lemma save_context_eq:
  assumes "stacked (k_procs k)"
  shows "save_context frame regs k = (Ok (), k\<lparr>k_procs := (k_procs k)\<lparr>process_table := (process_table (k_procs k))
    [cur_pid (k_procs k) := (process_table (k_procs k) ! cur_pid (k_procs k))\<lparr>stack_frame := Some frame, registers := regs\<rparr>]\<rparr>\<rparr>)"
proof -
  have "cur_pid (k_procs k) < length (process_table (k_procs k))" using assms unfolding stacked_def by linarith
  then show ?thesis by (simp add: save_context_def on_procs_def set_stack_frame_def set_registers_def run_simps
        update_current_ok stacked_current [OF assms] current_def index_def)
qed

lemma save_context_run:
  assumes "kernel_ok k"
  obtains k' where "save_context frame regs k = (Ok (), k')" and "kernel_ok k'"
    and "cur_pid (k_procs k') = cur_pid (k_procs k)" and "has_context (cur_pid (k_procs k)) frame regs k'"
    and "\<forall>j. j \<noteq> cur_pid (k_procs k) \<longrightarrow> process_table (k_procs k') ! j = process_table (k_procs k) ! j"
proof -
  have st: "stacked (k_procs k)" using assms by (simp add: kernel_ok_def)
  then have lt: "cur_pid (k_procs k) < length (process_table (k_procs k))" unfolding stacked_def by linarith
  have "kernel_ok (snd (save_context frame regs k))" using assms lt
    by (auto simp: save_context_eq [OF st] kernel_ok_def fds_ok_def stacked_def nth_list_update)
  then show thesis using that [of "snd (save_context frame regs k)"] lt
    by (simp add: save_context_eq [OF st] has_context_def)
qed

text \<open>One call, seen from the processes below the running one.\<close>

lemma syscall_handler_cases:
  assumes ok: "kernel_ok k" and run: "syscall_handler par frame regs k = Some (Ok t, k')"
  obtains k1 res where "kernel_ok k1" and "cur_pid (k_procs k1) = cur_pid (k_procs k)"
    and "\<forall>j < cur_pid (k_procs k). process_table (k_procs k1) ! j = process_table (k_procs k) ! j"
    and "call_of (unat (rax regs)) = Some EXEC \<Longrightarrow> has_context (cur_pid (k_procs k)) frame regs k1"
    and "call_of (unat (rax regs)) \<noteq> Some EXEC \<Longrightarrow> k1 = k"
    and "dispatch par (unat (rax regs)) (unat (rdi regs)) (unat (rsi regs)) (unat (rdx regs)) (unat (r8 regs)) k1 =
      Some (Ok res, k')"
    and "after_dispatch frame regs res k' = (Ok t, k')"
proof -
  have rest: "after_dispatch frame regs res k2 = (Ok t, k') \<Longrightarrow> k2 = k'" for res k2
    by (auto simp: after_dispatch_def restore_context_def bind_eq_Ok reads_def ret_def split: sys_result.splits if_splits)
  show thesis
  proof (cases "call_of (unat (rax regs)) = Some EXEC")
    case True
    obtain k1 where k1: "save_context frame regs k = (Ok (), k1)" "kernel_ok k1" "cur_pid (k_procs k1) = cur_pid (k_procs k)"
      "has_context (cur_pid (k_procs k)) frame regs k1"
      "\<forall>j. j \<noteq> cur_pid (k_procs k) \<longrightarrow> process_table (k_procs k1) ! j = process_table (k_procs k) ! j"
      using save_context_run [OF ok] by metis
    then obtain res k2 where a: "after_dispatch frame regs res k2 = (Ok t, k')"
      and d: "dispatch par (unat (rax regs)) (unat (rdi regs)) (unat (rsi regs)) (unat (rdx regs)) (unat (r8 regs)) k1 = Some (Ok res, k2)"
      using run True by (auto simp: syscall_handler_def split: option.splits outcome.splits)
    show thesis using that [of k1 res] k1 True a d rest [OF a] by auto
  next
    case False
    then obtain res k2 where a: "after_dispatch frame regs res k2 = (Ok t, k')"
      and d: "dispatch par (unat (rax regs)) (unat (rdi regs)) (unat (rsi regs)) (unat (rdx regs)) (unat (r8 regs)) k = Some (Ok res, k2)"
      using run by (auto simp: syscall_handler_def ret_def split: option.splits outcome.splits)
    show thesis using that [of k res] ok False a d rest [OF a] by auto
  qed
qed

lemma handler_ok:
  assumes ok: "kernel_ok k" and run: "syscall_handler par frame regs k = Some (Ok t, k')"
    and pid: "call_of (unat (rax regs)) = Some EXIT \<Longrightarrow> cur_pid (k_procs k) \<noteq> 0"
  shows "kernel_ok k'" and "j < cur_pid (k_procs k) \<Longrightarrow> process_table (k_procs k') ! j = process_table (k_procs k) ! j"
proof -
  obtain k1 res where k1: "kernel_ok k1" "cur_pid (k_procs k1) = cur_pid (k_procs k)"
    "\<forall>j < cur_pid (k_procs k). process_table (k_procs k1) ! j = process_table (k_procs k) ! j"
    and disp: "dispatch par (unat (rax regs)) (unat (rdi regs)) (unat (rsi regs)) (unat (rdx regs)) (unat (r8 regs)) k1 = Some (Ok res, k')"
    using syscall_handler_cases [OF ok run] by metis
  have pid1: "call_of (unat (rax regs)) = Some EXIT \<Longrightarrow> cur_pid (k_procs k1) \<noteq> 0" using pid k1(2) by simp
  show "kernel_ok k'"
  proof (cases "call_of (unat (rax regs))")
    case None
    then show ?thesis using disp k1(1) by (simp add: dispatch_def ret_def)
  next
    case (Some c)
    then show ?thesis using dispatch_call_ok [OF k1(1) _, of c par _ _ _ _ "Ok res" k'] pid1 disp
      by (simp add: dispatch_def)
  qed
  show "process_table (k_procs k') ! j = process_table (k_procs k) ! j" if "j < cur_pid (k_procs k)"
    using dispatch_below [OF k1(1) pid1 disp, of j] that k1(2,3) by simp
qed

lemma handler_enters:
  assumes ok: "kernel_ok k" and call: "call_of (unat (rax regs)) = Some EXEC"
    and run: "syscall_handler par frame regs k = Some (Ok (Enter e), k')"
  shows "kernel_ok k'" and "cur_pid (k_procs k') = Suc (cur_pid (k_procs k))"
    and "has_context (cur_pid (k_procs k)) frame regs k'"
proof -
  obtain k1 res where k1: "kernel_ok k1" "cur_pid (k_procs k1) = cur_pid (k_procs k)" "has_context (cur_pid (k_procs k)) frame regs k1"
    and disp: "dispatch par (unat (rax regs)) (unat (rdi regs)) (unat (rsi regs)) (unat (rdx regs)) (unat (r8 regs)) k1 = Some (Ok res, k')"
    and after: "after_dispatch frame regs res k' = (Ok (Enter e), k')"
    using syscall_handler_cases [OF ok run] call by metis
  have res: "res = Enters e"
    using after by (auto simp: after_dispatch_def call ret_def split: sys_result.splits)
  obtain path where sp: "sys_spawn par path (word_of_nat (unat (rdx regs))) (unat (r8 regs)) k1 = Some (Ok (Enters e), k')"
    using disp call res by (auto simp: dispatch_def split: outcome.splits)
  show "kernel_ok k'" using sys_spawn_ok [OF k1(1) sp] by simp
  from sp show "cur_pid (k_procs k') = Suc (cur_pid (k_procs k))"
  proof (cases rule: sys_spawn_cases)
    case (2 bin k2)
    then obtain ps where "Process_spawn (e_mem par) (e_parse par) (e_empty_heap par) (e_heap_init par) bin
        (word_of_nat (unat (rdx regs))) (unat (r8 regs)) (k_procs k2) = (Ok e, ps)" and "k_procs k' = ps"
      by (auto simp: start_process_def on_procs_def split: prod.splits outcome.splits)
    moreover have "stacked (k_procs k2)" "cur_pid (k_procs k2) = cur_pid (k_procs k)"
      using kernel_ok_quiet [OF 2(1) k1(1)] quiet_procs [OF 2(1)] k1(2) by (simp_all add: kernel_ok_def same_procs_def)
    ultimately show ?thesis using spawn_entered by metis
  qed simp
  show "has_context (cur_pid (k_procs k)) frame regs k'"
    using dispatch_below [OF k1(1) _ disp, of "cur_pid (k_procs k)"] k1(2,3) call by (simp add: has_context_def)
qed

lemma handler_exits:
  assumes ok: "kernel_ok k" and call: "call_of (unat (rax regs)) = Some EXIT" and pid: "cur_pid (k_procs k) = Suc j"
    and ctx: "has_context j frame rs k" and run: "syscall_handler par frame' regs k = Some (r, k')"
  shows "r = Ok (Iret frame rs)" and "cur_pid (k_procs k') = j"
proof -
  let ?n = "unat (rax regs)"
  obtain x ps where ex: "(process_exit (e_mem par) (k_procs k) :: (unit, unit) outcome \<times> _) = (x, ps)"
    by (cases "process_exit (e_mem par) (k_procs k) :: (unit, unit) outcome \<times> _")
  have "x = Ok ()" "stacked ps" "cur_pid ps = j" "process_table ps = process_table (k_procs k)"
    using exit_stacked [OF _ _ ex] ok pid by (simp_all add: kernel_ok_def)
  moreover from this(2) have "current ps = (Ok (process_table ps ! cur_pid ps) :: (unit, _) outcome)" by (rule stacked_current)
  ultimately have "dispatch par ?n (unat (rdi regs)) (unat (rsi regs)) (unat (rdx regs)) (unat (r8 regs)) k =
      Some (Ok (Returns (int (unat (exit_code_value (ExitCode_from (word_of_nat (unat (rdi regs)))))))), k\<lparr>k_procs := ps\<rparr>)"
    and "restore_context (k\<lparr>k_procs := ps\<rparr>) = (Ok (Iret frame rs), k\<lparr>k_procs := ps\<rparr>)"
    using ex call ctx
    by (simp_all add: dispatch_def sys_exit_def on_procs_def run_simps restore_context_def get_stack_frame_def
        get_registers_def has_context_def)
  then show "r = Ok (Iret frame rs)" "cur_pid (k_procs k') = j"
    using run call \<open>cur_pid ps = j\<close> by (auto simp: syscall_handler_def after_dispatch_def ret_def)
qed

text \<open>
  What runs between the start of a child and its exit: system calls of processes above \<open>j\<close>,
  and interrupts that touch neither the processes nor the descriptors.
\<close>

inductive above :: "('r, 'h, 'm, 'd) Env \<Rightarrow> nat \<Rightarrow> ('r, 'f, 'h, 'm, 'd) Kernel \<Rightarrow> ('r, 'f, 'h, 'm, 'd) Kernel \<Rightarrow> bool"
  for par j where
  above_refl: "above par j k k"
| above_call: "above par j k k1 \<Longrightarrow> syscall_handler par frame regs k1 = Some (Ok t, k2) \<Longrightarrow>
    j < cur_pid (k_procs k2) \<Longrightarrow> above par j k k2"
| above_other: "above par j k k1 \<Longrightarrow> k_procs k2 = k_procs k1 \<Longrightarrow> k_files k2 = k_files k1 \<Longrightarrow> above par j k k2"

inductive_cases aboveE: "above par j k k'"

lemma above_keeps:
  "above par j k k' \<Longrightarrow> kernel_ok k \<Longrightarrow> j < cur_pid (k_procs k) \<Longrightarrow>
    kernel_ok k' \<and> j < cur_pid (k_procs k') \<and> process_table (k_procs k') ! j = process_table (k_procs k) ! j"
proof (induction rule: above.induct)
  case (above_call k k1 frame regs t k2)
  then have "kernel_ok k1" "0 < cur_pid (k_procs k1)" "j < cur_pid (k_procs k1)" by simp_all
  then show ?case using handler_ok [OF _ above_call(2)] above_call by simp
qed (simp_all add: kernel_ok_def fds_ok_def)

lemma IDT_irqs: "\<forall>n \<in> set [0..<16]. IDT (PIC_1_OFFSET + word_of_nat n) = Some (irq_handler n)"
  by code_simp

section \<open>A sample program\<close>

text \<open>A memory in which every read gives the path \<open>/a\<close>, and the calls \<open>EXEC\<close> of it and \<open>EXIT\<close>.\<close>

definition exec_memory :: "unit Mem_ops" where
  "exec_memory = idle_memory\<lparr>mo_read := (\<lambda>_ _ _. as_bytes ''/a'')\<rparr>"

definition exec_env :: "(unit, unit, unit, unit) Env" where
  "exec_env = sample_env\<lparr>e_mem := exec_memory\<rparr>"

definition call_regs :: "u64 \<Rightarrow> Registers" where
  "call_regs n = \<lparr>r11 = 0, r10 = 0, r9 = 0, r8 = 0, rdi = 0x2000, rsi = 2, rdx = 0, rcx = 0, rax = n\<rparr>"

definition sample_program :: "u8 list" where
  "sample_program = pad_data (BIN_MAGIC @ [0x90])"

lemma sample_program_start: "take 4 sample_program = BIN_MAGIC" "4 < length sample_program" "length sample_program = 512"
  by (simp_all add: sample_program_def pad_data_prefix BIN_MAGIC_def)

lemma sample_program_spawn:
  assumes "process_table ps = (process_table sample_procs)[0 := p]" and "code_addr p = 0" and "p_pid p = 0"
    and "cur_pid ps = 0" and "max_pid ps = 1" and "next_code_addr ps = 0x1000000"
  shows "\<exists>e ps'. Process_spawn exec_memory (\<lambda>_. None) () (\<lambda>_ _ h. h) sample_program 0 0 ps = (Ok e, ps')"
  using sample_program_start assms
  by (simp add: sample_procs_def boot_procs_def Process_spawn_def Process_create_def load_process_def exec_memory_def
      register_process_def run_simps on_memory_def idle_memory_def load_image_def load_binary_def
      slice_def BIN_MAGIC_def ELF_MAGIC_def u64_add_def u64_sub_def MAX_PROC_SIZE_def MAX_PROCS_def
      current_def index_def index_set_def Let_def Process_exec_def args_address_def heap_layout_def ptr_from_addr_def
      get_code_addr_def copy_args_def write_str_refs_def Process_new_def set_pid_def word_less_nat_alt
      word_le_nat_alt)

lemma call_of_regs: "call_of (unat (rax (call_regs 0xA))) = Some EXEC" "call_of (unat (rax (call_regs 6))) = Some EXIT"
  by (simp_all add: call_regs_def call_of_def all_calls_def)

lemma sample_exec:
  assumes fs: "direct_fs fs" "files fs (padded ''/a'') = Some (md, sample_program)"
  shows "\<exists>e k'. syscall_handler exec_env () (call_regs 0xA) (mounted fs) = Some (Ok (Enter e), k')"
proof -
  have st: "stacked (k_procs (mounted fs))" by (simp add: sample_procs_def stacked_boot)
  define k1 where "k1 = snd (save_context () (call_regs 0xA) (mounted fs))"
  have save: "save_context () (call_regs 0xA) (mounted fs) = (Ok (), k1)"
    by (simp add: k1_def save_context_eq [OF st])
  have k1: "process_table (k_procs k1) = (process_table sample_procs)[0 := (process_table sample_procs ! 0)
      \<lparr>stack_frame := Some (), registers := call_regs 0xA\<rparr>]" "cur_pid (k_procs k1) = 0" "max_pid (k_procs k1) = 1"
    "next_code_addr (k_procs k1) = 0x1000000" "k_fss k1 = k_fss (mounted fs)" "k_files k1 = k_files (mounted fs)"
    by (simp_all add: k1_def save_context_eq [OF st] sample_procs_def boot_procs_def)
  have name: "valid_name ''/a''" by (simp add: valid_name_def)
  have path: "starts_with ''/a'' ''/''" "\<not> starts_with ''/a'' ''/dev/''" "\<not> starts_with ''/a'' ''/proc/''" by simp_all
  obtain k2 where sp: "sys_spawn exec_env ''/a'' 0 0 k1 = Some (start_process exec_env sample_program 0 0 k2)"
    and k2: "k_procs k2 = k_procs k1"
    by (rule sys_spawn_file [OF path, of exec_env k1 "FileHandle_new ''/a'' 0 1 (flag_bits FlagRead)" md sample_program 0 0])
      (use mounted_opened [OF fs name, of "flag_bits FlagRead"] sample_program_start(3) in
        \<open>simp_all add: exec_env_def k1 FileHandle_new_def fh_key_def\<close>)
  have "\<exists>e ps'. Process_spawn exec_memory (\<lambda>_. None) () (\<lambda>_ _ h. h) sample_program 0 0 (k_procs k2) = (Ok e, ps')"
    by (rule sample_program_spawn [OF k1(1) [folded k2]])
      (simp_all add: k1 k2 sample_procs_def boot_procs_def Process_new_def MAX_PROCS_def)
  then obtain e ps' where "start_process exec_env sample_program 0 0 k2 = (Ok (Enters e), k2\<lparr>k_procs := ps'\<rparr>)"
    by (auto simp: start_process_def on_procs_def exec_env_def sample_env_def)
  moreover have "ptr_from_addr 0x2000 (k_procs k1) = (Ok 0x2000 :: (unit, _) outcome)"
    by (simp add: ptr_from_addr_def get_code_addr_def current_def index_def k1 sample_procs_def boot_procs_def Process_new_def MAX_PROCS_def)
  moreover have "utf8_from_raw_parts (as_bytes ''/a'') = ''/a''"
    unfolding utf8_from_raw_parts_def by (rule char_of_as_bytes)
  ultimately show ?thesis
    using sp save by (simp add: syscall_handler_def call_of_regs dispatch_def bytes_at_def)
      (simp add: call_regs_def exec_env_def exec_memory_def after_dispatch_def ret_def)
qed

section \<open>Properties\<close>

text \<open>
  A process that starts a child with \<open>EXEC\<close> and whose child exits, after any system calls of
  the child and its own children, continues with exactly the frame and the registers it had:
  also \<open>RAX\<close>, which still holds the number of the call, and never the exit code.
\<close>

lemma exec_exit_resumes:
  assumes "kernel_ok k" and "call_of (unat (rax regs)) = Some EXEC"
    and "syscall_handler par frame regs k = Some (Ok (Enter e), k1)"
    and "above par (cur_pid (k_procs k)) k1 k2" and "cur_pid (k_procs k2) = Suc (cur_pid (k_procs k))"
    and "call_of (unat (rax regs')) = Some EXIT" and "syscall_handler par frame' regs' k2 = Some (r, k3)"
  shows "r = Ok (Iret frame regs) \<and> cur_pid (k_procs k3) = cur_pid (k_procs k)"
proof -
  note enters = handler_enters [OF assms(1-3)]
  have "kernel_ok k2" "process_table (k_procs k2) ! cur_pid (k_procs k) = process_table (k_procs k1) ! cur_pid (k_procs k)"
    using above_keeps [OF assms(4) enters(1)] enters(2) by simp_all
  then have "has_context (cur_pid (k_procs k)) frame regs k2" using enters(3) by (simp add: has_context_def)
  then show ?thesis using handler_exits [OF \<open>kernel_ok k2\<close> assms(6,5) _ assms(7)] by blast
qed

lemma exec_exit_resumes_example:
  "\<exists>fs e k1 k2. syscall_handler exec_env () (call_regs 0xA) (mounted fs) = Some (Ok (Enter e), k1) \<and>
    syscall_handler exec_env () (call_regs 6) k1 = Some (Ok (Iret () (call_regs 0xA)), k2) \<and> cur_pid (k_procs k2) = 0"
proof -
  have "valid_name ''/a''" "length (BIN_MAGIC @ [0x90]) < 512" by (simp_all add: valid_name_def BIN_MAGIC_def)
  then obtain fs md where fs: "direct_fs fs" "files fs (padded ''/a'') = Some (md, sample_program)"
    unfolding sample_program_def using written_fs by blast
  then obtain e k1 where run: "syscall_handler exec_env () (call_regs 0xA) (mounted fs) = Some (Ok (Enter e), k1)"
    using sample_exec by blast
  have ok: "kernel_ok (mounted fs)" and zero: "cur_pid (k_procs (mounted fs)) = 0"
    by (simp_all add: kernel_ok_def fds_ok_def boot_devices_def sample_procs_def stacked_boot) (simp add: boot_procs_def)
  have pid: "cur_pid (k_procs k1) = Suc 0" using handler_enters(2) [OF ok call_of_regs(1) run] zero by simp
  have "\<exists>r k2. syscall_handler exec_env () (call_regs 6) k1 = Some (r, k2)"
    by (auto simp: syscall_handler_def call_of_regs dispatch_def ret_def split: outcome.splits prod.splits)
  then obtain r k2 where exit: "syscall_handler exec_env () (call_regs 6) k1 = Some (r, k2)" by blast
  have "r = Ok (Iret () (call_regs 0xA)) \<and> cur_pid (k_procs k2) = 0"
    using exec_exit_resumes [OF ok call_of_regs(1) run above_refl _ call_of_regs(2) exit] pid zero by simp
  then show ?thesis using run exit by blast
qed

text \<open>
  A write fault of a user process for which no page can be mapped ends the process, but
  the handler returns to the interrupted frame: the code of the ended process goes on under the
  identifier and the page table of its parent.
\<close>

lemma fault_without_memory:
  assumes "stacked ps" and "cur_pid ps = Suc j" and "caused_by_write code" and "user_mode code"
    and "mo_alloc_pages mo (page_table_frame (process_table ps ! Suc j)) addr 1 (memory ps) = (Err (), mem)"
  shows "\<exists>ps'. page_fault mo code addr ps = (Ok (), ps') \<and> cur_pid ps' = j \<and>
    memory ps' = free_process_pages mo (process_table ps ! Suc j)
      (mo_write_cr3 mo (page_table_frame (process_table ps ! j)) mem)"
proof -
  have lt: "Suc j < length (process_table ps)" "j < length (process_table ps)" and parent: "p_ppid (process_table ps ! Suc j) = j"
    using assms(1,2) by (auto simp: stacked_def)
  have "try_alloc mo addr 1 ps = (Ok False, ps\<lparr>memory := mem\<rparr>)"
    using assms(1,2,5) by (simp add: try_alloc_def stacked_current)
  then show ?thesis using assms(2-4) lt parent
    by (simp add: page_fault_def run_simps process_exit_def current_def index_def set_pid_def on_memory_def)
qed

lemma fault_without_memory_example:
  "\<exists>ps'. page_fault (idle_memory\<lparr>mo_alloc_pages := (\<lambda>_ _ _ m. (Err (), m))\<rparr>) 6 0x1000000 (snd sample_spawn) = (Ok (), ps') \<and>
    cur_pid ps' = 0"
proof -
  obtain e ps where sp: "Process_spawn idle_memory (\<lambda>_. None) () (\<lambda>_ _ h. h) (BIN_MAGIC @ [0x90]) 0 0 sample_procs = (Ok e, ps)"
    and ps: "ps = snd sample_spawn"
    using sample_spawn_Ok by (cases sample_spawn) (auto simp: sample_spawn_def)
  have st: "stacked sample_procs" by (simp add: sample_procs_def stacked_boot)
  have "stacked ps" "cur_pid ps = Suc 0"
    using spawn_stacked [OF st sp] spawn_entered [OF st sp] by (simp_all add: sample_procs_def boot_procs_def)
  moreover have "caused_by_write 6" "user_mode 6" unfolding caused_by_write_def user_mode_def by simp_all
  ultimately show ?thesis
    using fault_without_memory [of ps 0 6 "idle_memory\<lparr>mo_alloc_pages := (\<lambda>_ _ _ m. (Err (), m))\<rparr>" "0x1000000" "memory ps"]
    by (auto simp: ps)
qed

text \<open>
  Routing of hardware interrupts: the handler that was set last for a line runs on the
  vector 32 + line, followed by the end-of-interrupt signal; no other line is affected, and the
  timer handler of the descriptor table never runs.
\<close>

lemma irq_routed:
  assumes "length hs = 16" and "unat irq < 16" and "n < 16"
  shows "\<exists>hs'. (set_irq_handler irq h hs :: ('e, _) outcome) = Ok hs' \<and>
    (external_interrupt eoi hs' (PIC_1_OFFSET + word_of_nat n) :: ('s, 'e, unit) prog) =
      (\<lambda>s. (Ok (), eoi (PIC_1_OFFSET + word_of_nat n) ((if n = unat irq then h else hs ! n) s)))"
proof -
  have "IDT (PIC_1_OFFSET + word_of_nat n) = Some (irq_handler n)" using IDT_irqs assms(3) by simp
  then show ?thesis using assms
    by (auto simp: set_irq_handler_def index_set_def external_interrupt_def run_irq_def run_simps index_def fun_eq_iff)
qed

lemma irq_routed_example:
  "\<exists>hs. set_irq_handler 1 Suc no_handlers = (Ok hs :: (unit, _) outcome) \<and>
    (external_interrupt (\<lambda>_ s. s) hs 33 5 :: (unit, unit) outcome \<times> nat) = (Ok (), 6)"
proof -
  have "\<exists>hs. (set_irq_handler 1 Suc no_handlers :: (unit, _) outcome) = Ok hs \<and>
    (external_interrupt (\<lambda>_ s. s) hs (PIC_1_OFFSET + word_of_nat 1) :: (nat, unit, unit) prog) =
      (\<lambda>s. (Ok (), (if 1 = unat (1 :: u8) then Suc else no_handlers ! 1) s))"
    by (rule irq_routed) (simp_all add: no_handlers_def)
  then show ?thesis by (auto simp: PIC_1_OFFSET_def)
qed

text \<open>
  \<open>EXEC\<close> of a file on the first drive starts a process from exactly the bytes of the file,
  in the processes and with the error number of the caller, and leaves no descriptor behind.
\<close>

lemma exec_starts_file:
  assumes "starts_with path ''/''" "\<not> starts_with path ''/dev/''" "\<not> starts_with path ''/proc/''"
    and "new_with_likely_fs (e_iter par) (k_fss k) path (flag_bits FlagRead) = Ok h" "file_pos h = 0"
      "fh_flags h = flag_bits FlagRead" "fh_key h = (0, 1)" "fh_file_name h = path"
    and "opened (k_fss k) h md bytes" and "length bytes < 2 ^ 63" and "length (k_files k) < 2 ^ 63" and "dense k"
  shows "\<exists>k'. sys_spawn par path ap an k = Some (start_process par bytes ap an k') \<and> k_procs k' = k_procs k \<and>
    k_errno k' = k_errno k \<and> map_of (k_files k') = map_of (k_files k)"
proof -
  have "map_of (k_files k) (length (k_files k)) = None" using assms(12) by (simp add: dense_lookup)
  then have "(map_of (k_files k))(length (k_files k) := None) = map_of (k_files k)" by (simp add: fun_upd_idem)
  then show ?thesis using sys_spawn_file [OF assms(1-11), of ap an] by metis
qed

lemma exec_starts_file_example:
  "\<exists>fs k'. sys_spawn exec_env ''/a'' 0 0 (mounted fs) = Some (start_process exec_env sample_program 0 0 k') \<and>
    k_procs k' = sample_procs"
proof -
  have name: "valid_name ''/a''" by (simp add: valid_name_def)
  moreover have "length (BIN_MAGIC @ [0x90]) < 512" by (simp add: BIN_MAGIC_def)
  ultimately obtain fs md where fs: "direct_fs fs" "files fs (padded ''/a'') = Some (md, sample_program)"
    unfolding sample_program_def using written_fs by blast
  have path: "starts_with ''/a'' ''/''" "\<not> starts_with ''/a'' ''/dev/''" "\<not> starts_with ''/a'' ''/proc/''" by simp_all
  have dense: "dense (mounted fs)" using sample_kernel_dense by (simp add: dense_def)
  have "\<exists>k'. sys_spawn exec_env ''/a'' 0 0 (mounted fs) = Some (start_process exec_env sample_program 0 0 k') \<and>
      k_procs k' = k_procs (mounted fs) \<and> k_errno k' = k_errno (mounted fs) \<and>
      map_of (k_files k') = map_of (k_files (mounted fs))"
    by (rule exec_starts_file [OF path, where h = "FileHandle_new ''/a'' 0 1 (flag_bits FlagRead)"])
      (use mounted_opened [OF fs name, of "flag_bits FlagRead"] sample_program_start(3) dense in
        \<open>simp_all add: exec_env_def FileHandle_new_def fh_key_def\<close>)
  then show ?thesis by auto
qed

end
