(* ===== verification/Trap.thy ===== *)
theory Trap
  imports Interrupts
begin

text \<open>
  The way of a system call from a program to \<open>dispatch\<close> and back, at the level of registers: the
  stubs \<open>syscall0\<close> to \<open>syscall4\<close> of \<open>kernel/src/internal/syscall/mod.rs\<close>, and the naked wrapper that
  \<open>wrap!\<close> in \<open>interrupts.rs\<close> makes around \<open>syscall_handler\<close>. The wrapper pushes nine registers and
  passes their address on the stack as a pointer to the struct \<open>Registers\<close>, so that the order
  of the pushes and the order of the fields have to fit.

  A stack is the list of its words, the top (the lowest address) first. The other registers are
  kept by the calling convention of the handler for the program it returns to; \<open>System\<close> has them, since
  \<open>EXIT\<close> returns to another program than the one that made the call.
\<close>

section \<open>The wrapper\<close>

definition push_scratch :: "Registers \<Rightarrow> u64 list" where
  "push_scratch c = fold (#) [rax c, rcx c, rdx c, rsi c, rdi c, r8 c, r9 c, r10 c, r11 c] []"

text \<open>The struct \<open>Registers\<close> at the top of the stack, with its fields in the order of their declaration.\<close>

definition registers_at :: "u64 list \<Rightarrow> Registers" where
  "registers_at stack = \<lparr>r11 = stack ! 0, r10 = stack ! 1, r9 = stack ! 2, r8 = stack ! 3, rdi = stack ! 4,
     rsi = stack ! 5, rdx = stack ! 6, rcx = stack ! 7, rax = stack ! 8\<rparr>"

definition store_registers :: "Registers \<Rightarrow> u64 list \<Rightarrow> u64 list" where
  "store_registers regs stack =
     [r11 regs, r10 regs, r9 regs, r8 regs, rdi regs, rsi regs, rdx regs, rcx regs, rax regs] @ drop 9 stack"

definition pop :: "(u64 \<Rightarrow> Registers \<Rightarrow> Registers) \<Rightarrow> u64 list \<times> Registers \<Rightarrow> u64 list \<times> Registers" where
  "pop set_reg = (\<lambda>(stack, c). (tl stack, set_reg (hd stack) c))"

definition pop_scratch :: "u64 list \<Rightarrow> Registers \<Rightarrow> Registers" where
  "pop_scratch stack c = snd (fold pop
     [\<lambda>v c. c\<lparr>r11 := v\<rparr>, \<lambda>v c. c\<lparr>r10 := v\<rparr>, \<lambda>v c. c\<lparr>r9 := v\<rparr>, \<lambda>v c. c\<lparr>r8 := v\<rparr>, \<lambda>v c. c\<lparr>rdi := v\<rparr>,
      \<lambda>v c. c\<lparr>rsi := v\<rparr>, \<lambda>v c. c\<lparr>rdx := v\<rparr>, \<lambda>v c. c\<lparr>rcx := v\<rparr>, \<lambda>v c. c\<lparr>rax := v\<rparr>] (stack, c))"

text \<open>The handler works on the registers on the stack, from where they are popped before \<open>iretq\<close>.\<close>

definition wrapped_handler :: "('r, 'h, 'm, 'd) Env \<Rightarrow> 'f \<Rightarrow> Registers \<Rightarrow> ('r, 'f, 'h, 'm, 'd) Kernel
    \<Rightarrow> ((unit, 'f trap_result) outcome \<times> ('r, 'f, 'h, 'm, 'd) Kernel) option" where
  "wrapped_handler par frame c k =
     (let stack = push_scratch c in
      case syscall_handler par frame (registers_at stack) k of
        Some (Ok (Iret frame' regs), k') \<Rightarrow> Some (Ok (Iret frame' (pop_scratch (store_registers regs stack) c)), k')
      | r \<Rightarrow> r)"

text \<open>\<open>int 0x80\<close>, through the descriptor table.\<close>

definition int_0x80 :: "('r, 'h, 'm, 'd) Env \<Rightarrow> 'f \<Rightarrow> Registers \<Rightarrow> ('r, 'f, 'h, 'm, 'd) Kernel
    \<Rightarrow> ((unit, 'f trap_result) outcome \<times> ('r, 'f, 'h, 'm, 'd) Kernel) option" where
  "int_0x80 par frame c k =
     (if IDT 0x80 = Some wrapped_syscall_handler then wrapped_handler par frame c k else Some (Panic, k))"

section \<open>The stubs\<close>

text \<open>Operands that a stub does not set keep the values the caller's registers have.\<close>

definition syscall0 :: "u64 \<Rightarrow> Registers \<Rightarrow> Registers" where
  "syscall0 n c = c\<lparr>rax := n\<rparr>"

definition syscall1 :: "u64 \<Rightarrow> u64 \<Rightarrow> Registers \<Rightarrow> Registers" where
  "syscall1 n a1 c = c\<lparr>rax := n, rdi := a1\<rparr>"

definition syscall2 :: "u64 \<Rightarrow> u64 \<Rightarrow> u64 \<Rightarrow> Registers \<Rightarrow> Registers" where
  "syscall2 n a1 a2 c = c\<lparr>rax := n, rdi := a1, rsi := a2\<rparr>"

definition syscall3 :: "u64 \<Rightarrow> u64 \<Rightarrow> u64 \<Rightarrow> u64 \<Rightarrow> Registers \<Rightarrow> Registers" where
  "syscall3 n a1 a2 a3 c = c\<lparr>rax := n, rdi := a1, rsi := a2, rdx := a3\<rparr>"

definition syscall4 :: "u64 \<Rightarrow> u64 \<Rightarrow> u64 \<Rightarrow> u64 \<Rightarrow> u64 \<Rightarrow> Registers \<Rightarrow> Registers" where
  "syscall4 n a1 a2 a3 a4 c = c\<lparr>rax := n, rdi := a1, rsi := a2, rdx := a3, r8 := a4\<rparr>"

text \<open>\<open>syscall!\<close>, by the number of its arguments; more than four do not match the macro.\<close>

fun syscall_macro :: "u64 \<Rightarrow> u64 list \<Rightarrow> Registers \<Rightarrow> Registers option" where
  "syscall_macro n [] c = Some (syscall0 n c)"
| "syscall_macro n [a1] c = Some (syscall1 n a1 c)"
| "syscall_macro n [a1, a2] c = Some (syscall2 n a1 a2 c)"
| "syscall_macro n [a1, a2, a3] c = Some (syscall3 n a1 a2 a3 c)"
| "syscall_macro n [a1, a2, a3, a4] c = Some (syscall4 n a1 a2 a3 a4 c)"
| "syscall_macro n _ c = None"

section \<open>Lemmas\<close>

lemma push_scratch_registers: "registers_at (push_scratch c) = c"
  by (simp add: push_scratch_def registers_at_def)

lemma pop_scratch_stored: "pop_scratch (store_registers regs stack) c = regs"
  by (simp add: pop_scratch_def store_registers_def pop_def)

lemma wrapped_handler_eq: "wrapped_handler par frame c k = syscall_handler par frame c k"
  by (simp add: wrapped_handler_def push_scratch_registers pop_scratch_stored
      split: option.split prod.split outcome.split trap_result.split)

lemma IDT_syscall: "IDT 0x80 = Some wrapped_syscall_handler"
  by (simp add: IDT_def set_irqs_def upt_rec PIC_1_OFFSET_def)

lemma syscall_handler_other:
  assumes "call_of (unat (rax regs)) \<noteq> Some EXEC" and "call_of (unat (rax regs)) \<noteq> Some EXIT"
    and "dispatch par (unat (rax regs)) (unat (rdi regs)) (unat (rsi regs)) (unat (rdx regs)) (unat (r8 regs)) k =
      Some (Ok (Returns v), k')"
  shows "syscall_handler par frame regs k = Some (Ok (Iret frame (regs\<lparr>rax := word_of_int v\<rparr>)), k')"
  using assms by (simp add: syscall_handler_def after_dispatch_def ret_def)

section \<open>Properties\<close>

text \<open>
  C8. The register convention of the system calls: what \<open>syscall!\<close> is given reaches \<open>dispatch\<close> in
  order, the result comes back in \<open>RAX\<close>, and every other register, which the compiler takes to
  be unchanged by the instruction, is unchanged. (\<open>EXEC\<close> and \<open>EXIT\<close> change the process.)
\<close>

theorem syscall_abi:
  assumes "syscall_macro n args c = Some regs" and "call_of (unat n) \<noteq> Some EXEC" and "call_of (unat n) \<noteq> Some EXIT"
    and "dispatch par (unat n) (unat (rdi regs)) (unat (rsi regs)) (unat (rdx regs)) (unat (r8 regs)) k =
      Some (Ok (Returns v), k')"
  shows "take (length args) [rdi regs, rsi regs, rdx regs, r8 regs] = args \<and>
    drop (length args) [rdi regs, rsi regs, rdx regs, r8 regs] = drop (length args) [rdi c, rsi c, rdx c, r8 c] \<and>
    [rcx regs, r9 regs, r10 regs, r11 regs] = [rcx c, r9 c, r10 c, r11 c] \<and>
    int_0x80 par frame regs k = Some (Ok (Iret frame (regs\<lparr>rax := word_of_int v\<rparr>)), k')"
proof -
  have n: "rax regs = n"
    and args: "take (length args) [rdi regs, rsi regs, rdx regs, r8 regs] = args"
      "drop (length args) [rdi regs, rsi regs, rdx regs, r8 regs] = drop (length args) [rdi c, rsi c, rdx c, r8 c]"
      "[rcx regs, r9 regs, r10 regs, r11 regs] = [rcx c, r9 c, r10 c, r11 c]"
    using assms(1) by (induction n args c rule: syscall_macro.induct;
        auto simp: syscall0_def syscall1_def syscall2_def syscall3_def syscall4_def)+
  have "int_0x80 par frame regs k = syscall_handler par frame regs k"
    by (simp add: int_0x80_def IDT_syscall wrapped_handler_eq)
  then show ?thesis using args syscall_handler_other [of regs par k v k' frame] assms(2-4) by (simp add: n)
qed

theorem syscall_abi_witness:
  "int_0x80 sample_env () (syscall2 9 5 6 (call_regs 0)) sample_kernel =
    Some (Ok (Iret () ((syscall2 9 5 6 (call_regs 0))\<lparr>rax := 0\<rparr>)), sample_kernel)"
proof -
  have pid: "call_of 9 = Some GETPID" by (simp add: call_of_def all_calls_def)
  have "dispatch sample_env (unat (9 :: u64)) a1 a2 a3 a4 sample_kernel = Some (Ok (Returns 0), sample_kernel)" for a1 a2 a3 a4
    using pid by (simp add: dispatch_def ret_def as_isize_def) (simp add: sample_kernel_def sample_procs_def boot_procs_def)
  moreover have "syscall_macro 9 [5, 6] (call_regs 0) = Some (syscall2 9 5 6 (call_regs 0))" by simp
  ultimately show ?thesis using syscall_abi [of 9 "[5, 6]" "call_regs 0" _ sample_env sample_kernel 0 sample_kernel "()"] pid
    by simp
qed

end
