(* ===== verification/Segments.thy ===== *)
theory Segments
  imports Interrupts
begin

unbundle bit_operations_syntax

text \<open>
  Privilege: the segments of \<open>kernel/src/internal/gdt.rs\<close>, the stacks and gates of the descriptor table
  in \<open>interrupts.rs\<close>, and the frame with which \<open>exec\<close> in \<open>process.rs\<close> enters user mode.

  The tables belong to the crate \<open>x86_64\<close>. \<open>Gdt_ops\<close> and \<open>Gate_ops\<close> are its functions; the locales
  \<open>segment_table\<close> and \<open>gate\<close> state what its documentation says of them.
\<close>

section \<open>Segments\<close>

datatype Descriptor = tss_segment | kernel_code_segment | kernel_data_segment | user_code_segment | user_data_segment

type_synonym selector = "16 word"

text \<open>\<open>append\<close> panics when the table is full.\<close>

record 'g Gdt_ops =
  gdt_new :: 'g
  gdt_append :: "Descriptor \<Rightarrow> 'g \<Rightarrow> (unit, selector \<times> 'g) outcome"

record Selectors =
  sel_tss :: selector
  sel_code :: selector
  sel_data :: selector
  user_code :: selector
  user_data :: selector

definition GDT :: "'g Gdt_ops \<Rightarrow> (unit, 'g \<times> Selectors) outcome" where
  "GDT ops =
     obind (gdt_append ops tss_segment (gdt_new ops)) (\<lambda>(tss, g).
     obind (gdt_append ops kernel_code_segment g) (\<lambda>(code, g).
     obind (gdt_append ops kernel_data_segment g) (\<lambda>(data, g).
     obind (gdt_append ops user_code_segment g) (\<lambda>(ucode, g).
     obind (gdt_append ops user_data_segment g) (\<lambda>(udata, g).
     Ok (g, \<lparr>sel_tss = tss, sel_code = code, sel_data = data, user_code = ucode, user_data = udata\<rparr>))))))"

text \<open>The registers that \<open>init\<close> loads.\<close>

record segment_registers =
  reg_cs :: selector
  reg_ds :: selector
  reg_tr :: selector

definition gdt_init :: "'g \<times> Selectors \<Rightarrow> segment_registers" where
  "gdt_init gdt = \<lparr>reg_cs = sel_code (snd gdt), reg_ds = sel_data (snd gdt), reg_tr = sel_tss (snd gdt)\<rparr>"

text \<open>\<open>TSS\<close>: four stacks of their own, by the addresses of the arrays; \<open>va_add\<close> is the addition of \<open>VirtAddr\<close>.\<close>

definition STACK_SIZE :: nat where
  "STACK_SIZE = 1024 * 8 * 16"

definition DOUBLE_FAULT_IST :: nat where
  "DOUBLE_FAULT_IST = 0"

definition PAGE_FAULT_IST :: nat where
  "PAGE_FAULT_IST = 1"

definition GENERAL_PROTECTION_FAULT_IST :: nat where
  "GENERAL_PROTECTION_FAULT_IST = 2"

record TaskStateSegment =
  privilege_stack :: "u64 list"
  interrupt_stack :: "u64 list"

definition stack_top :: "(u64 \<Rightarrow> u64 \<Rightarrow> (unit, u64) outcome) \<Rightarrow> u64 \<Rightarrow> (unit, u64) outcome" where
  "stack_top va_add stack = va_add stack (word_of_nat STACK_SIZE)"

definition TSS :: "(u64 \<Rightarrow> u64 \<Rightarrow> (unit, u64) outcome) \<Rightarrow> u64 \<Rightarrow> u64 \<Rightarrow> u64 \<Rightarrow> u64 \<Rightarrow> (unit, TaskStateSegment) outcome" where
  "TSS va_add s0 s1 s2 s3 =
     obind (stack_top va_add s0) (\<lambda>p.
     obind (stack_top va_add s1) (\<lambda>df.
     obind (stack_top va_add s2) (\<lambda>pf.
     obind (stack_top va_add s3) (\<lambda>gp.
     Ok \<lparr>privilege_stack = (replicate 3 0)[0 := p],
         interrupt_stack = (replicate 7 0)[DOUBLE_FAULT_IST := df, PAGE_FAULT_IST := pf,
           GENERAL_PROTECTION_FAULT_IST := gp]\<rparr>))))"

section \<open>Gates\<close>

record 'e Gate_ops =
  gate_missing :: 'e
  set_handler_fn :: "handler_fn \<Rightarrow> 'e \<Rightarrow> 'e"
  set_stack_index :: "nat \<Rightarrow> 'e \<Rightarrow> 'e"
  set_privilege_level :: "nat \<Rightarrow> 'e \<Rightarrow> 'e"

definition set_gate :: "u8 \<Rightarrow> ('e \<Rightarrow> 'e) \<Rightarrow> (u8 \<Rightarrow> 'e) \<Rightarrow> u8 \<Rightarrow> 'e" where
  "set_gate v f idt = idt(v := f (idt v))"

definition irq_gates :: "'e Gate_ops \<Rightarrow> (u8 \<Rightarrow> 'e) \<Rightarrow> u8 \<Rightarrow> 'e" where
  "irq_gates ops idt = foldl (\<lambda>idt n. set_gate (PIC_1_OFFSET + word_of_nat n) (set_handler_fn ops (irq_handler n)) idt) idt [0..<16]"

text \<open>The table with the options of its entries, in the order of the source.\<close>

definition IDT_gates :: "'e Gate_ops \<Rightarrow> u8 \<Rightarrow> 'e" where
  "IDT_gates ops = irq_gates ops
     (set_gate 14 (set_handler_fn ops page_fault_handler)
     (set_gate (as_u8 Timer) (set_handler_fn ops timer_interrupt_handler)
     (set_gate 0x80 (\<lambda>e. set_privilege_level ops 3 (set_handler_fn ops wrapped_syscall_handler e))
     (set_gate 13 (\<lambda>e. set_stack_index ops GENERAL_PROTECTION_FAULT_IST (set_handler_fn ops general_protection_fault_handler e))
     (set_gate 14 (\<lambda>e. set_stack_index ops PAGE_FAULT_IST (set_handler_fn ops page_fault_handler e))
     (set_gate 8 (\<lambda>e. set_stack_index ops DOUBLE_FAULT_IST (set_handler_fn ops double_fault_handler e))
     (set_gate 3 (set_handler_fn ops breakpoint_handler) (\<lambda>_. gate_missing ops))))))))"

section \<open>Entering user mode\<close>

text \<open>The words that \<open>exec\<close> pushes for \<open>iretq\<close>, top first: RIP, CS, RFLAGS, RSP, SS.\<close>

definition enter_frame :: "Selectors \<Rightarrow> user_entry \<Rightarrow> u64 list" where
  "enter_frame sels e = fold (#) [ucast (user_data sels), ue_rsp e, 0x200, ucast (user_code sels), ue_rip e] []"

section \<open>The laws of the crate\<close>

definition rpl :: "selector \<Rightarrow> nat" where
  "rpl s = unat (s AND 3)"

fun privilege :: "Descriptor \<Rightarrow> nat" where
  "privilege user_code_segment = 3"
| "privilege user_data_segment = 3"
| "privilege _ = 0"

fun slots :: "Descriptor \<Rightarrow> nat" where
  "slots tss_segment = 2"
| "slots _ = 1"

locale segment_table =
  fixes ops :: "'g Gdt_ops"
    and segment :: "'g \<Rightarrow> selector \<Rightarrow> Descriptor option"
    and used :: "'g \<Rightarrow> nat"
  assumes used_new: "used (gdt_new ops) = 1"
    and append_law: "used g + slots d \<le> 8 \<Longrightarrow> \<exists>s g'. gdt_append ops d g = Ok (s, g') \<and> used g' = used g + slots d \<and>
      segment g' s = Some d \<and> rpl s = privilege d \<and> (\<forall>t e. segment g t = Some e \<longrightarrow> segment g' t = Some e)"
begin

lemma GDT_built: "\<exists>g sels. GDT ops = Ok (g, sels) \<and> segment g (sel_tss sels) = Some tss_segment \<and>
    segment g (sel_code sels) = Some kernel_code_segment \<and> segment g (sel_data sels) = Some kernel_data_segment \<and>
    segment g (user_code sels) = Some user_code_segment \<and> segment g (user_data sels) = Some user_data_segment \<and>
    rpl (sel_code sels) = 0 \<and> rpl (user_code sels) = 3 \<and> rpl (user_data sels) = 3"
proof -
  obtain s1 g1 where 1: "gdt_append ops tss_segment (gdt_new ops) = Ok (s1, g1)" "used g1 = 3" "segment g1 s1 = Some tss_segment"
    using append_law [of "gdt_new ops" tss_segment] by (auto simp: used_new)
  obtain s2 g2 where 2: "gdt_append ops kernel_code_segment g1 = Ok (s2, g2)" "used g2 = 4" "segment g2 s2 = Some kernel_code_segment"
    "rpl s2 = 0" "\<forall>t e. segment g1 t = Some e \<longrightarrow> segment g2 t = Some e"
    using append_law [of g1 kernel_code_segment] by (auto simp: 1(2))
  obtain s3 g3 where 3: "gdt_append ops kernel_data_segment g2 = Ok (s3, g3)" "used g3 = 5" "segment g3 s3 = Some kernel_data_segment"
    "\<forall>t e. segment g2 t = Some e \<longrightarrow> segment g3 t = Some e"
    using append_law [of g2 kernel_data_segment] by (auto simp: 2(2))
  obtain s4 g4 where 4: "gdt_append ops user_code_segment g3 = Ok (s4, g4)" "used g4 = 6" "segment g4 s4 = Some user_code_segment"
    "rpl s4 = 3" "\<forall>t e. segment g3 t = Some e \<longrightarrow> segment g4 t = Some e"
    using append_law [of g3 user_code_segment] by (auto simp: 3(2))
  obtain s5 g5 where 5: "gdt_append ops user_data_segment g4 = Ok (s5, g5)" "segment g5 s5 = Some user_data_segment"
    "rpl s5 = 3" "\<forall>t e. segment g4 t = Some e \<longrightarrow> segment g5 t = Some e"
    using append_law [of g4 user_data_segment] by (auto simp: 4(2))
  show ?thesis using 1 2 3 4 5 by (simp add: GDT_def)
qed

end

locale gate =
  fixes ops :: "'e Gate_ops"
    and handler :: "'e \<Rightarrow> handler_fn option"
    and stack_index :: "'e \<Rightarrow> nat option"
    and dpl :: "'e \<Rightarrow> nat"
    and masks :: "'e \<Rightarrow> bool"
  assumes missing_law: "handler (gate_missing ops) = None" "dpl (gate_missing ops) = 0"
    and handler_law: "handler (set_handler_fn ops h e) = Some h" "stack_index (set_handler_fn ops h e) = None"
      "dpl (set_handler_fn ops h e) = 0" "masks (set_handler_fn ops h e)"
    and stack_law: "handler (set_stack_index ops n e) = handler e" "stack_index (set_stack_index ops n e) = Some n"
      "dpl (set_stack_index ops n e) = dpl e" "masks (set_stack_index ops n e) = masks e"
    and level_law: "handler (set_privilege_level ops l e) = handler e" "stack_index (set_privilege_level ops l e) = stack_index e"
      "dpl (set_privilege_level ops l e) = l" "masks (set_privilege_level ops l e) = masks e"
begin

lemmas laws = missing_law handler_law stack_law level_law

lemma irq_gates_handler:
  "handler (foldl (\<lambda>idt n. set_gate (PIC_1_OFFSET + word_of_nat n) (set_handler_fn ops (irq_handler n)) idt) idt ns v) =
    foldl (\<lambda>m n. m(PIC_1_OFFSET + word_of_nat n \<mapsto> irq_handler n)) (\<lambda>v. handler (idt v)) ns v"
proof (induction ns arbitrary: idt)
  case (Cons n ns)
  have "(\<lambda>v. handler (set_gate (PIC_1_OFFSET + word_of_nat n) (set_handler_fn ops (irq_handler n)) idt v)) =
      (\<lambda>v. handler (idt v))(PIC_1_OFFSET + word_of_nat n \<mapsto> irq_handler n)"
    by (auto simp: set_gate_def laws)
  then show ?case using Cons.IH [of "set_gate (PIC_1_OFFSET + word_of_nat n) (set_handler_fn ops (irq_handler n)) idt"]
    by (simp del: fun_upd_apply)
qed simp

lemma irq_gates_dpl:
  "dpl (foldl (\<lambda>idt n. set_gate (PIC_1_OFFSET + word_of_nat n) (set_handler_fn ops (irq_handler n)) idt) idt ns v) =
    (if v \<in> (\<lambda>n. PIC_1_OFFSET + word_of_nat n) ` set ns then 0 else dpl (idt v))"
  by (induction ns arbitrary: idt) (auto simp: set_gate_def laws)

lemma irq_gates_masks:
  "masks (foldl (\<lambda>idt n. set_gate (PIC_1_OFFSET + word_of_nat n) (set_handler_fn ops (irq_handler n)) idt) idt ns v) \<longleftrightarrow>
    v \<in> (\<lambda>n. PIC_1_OFFSET + word_of_nat n) ` set ns \<or> masks (idt v)"
  by (induction ns arbitrary: idt) (auto simp: set_gate_def laws)

lemma irq_gates_other:
  "v \<notin> (\<lambda>n. PIC_1_OFFSET + word_of_nat n) ` set ns \<Longrightarrow>
    foldl (\<lambda>idt n. set_gate (PIC_1_OFFSET + word_of_nat n) (set_handler_fn ops (irq_handler n)) idt) idt ns v = idt v"
  by (induction ns arbitrary: idt) (auto simp: set_gate_def)

lemma vectors: "(\<lambda>n. PIC_1_OFFSET + word_of_nat n) ` set [0..<16] = {32, 33, 34, 35, 36, 37, 38, 39, 40, 41, 42, 43, 44, 45, 46, 47 :: u8}"
  by (simp add: upt_rec PIC_1_OFFSET_def)

lemma gates_handlers: "handler (IDT_gates ops v) = IDT v"
proof -
  have base: "(\<lambda>v. handler (set_gate 14 (set_handler_fn ops page_fault_handler)
     (set_gate (as_u8 Timer) (set_handler_fn ops timer_interrupt_handler)
     (set_gate 0x80 (\<lambda>e. set_privilege_level ops 3 (set_handler_fn ops wrapped_syscall_handler e))
     (set_gate 13 (\<lambda>e. set_stack_index ops GENERAL_PROTECTION_FAULT_IST (set_handler_fn ops general_protection_fault_handler e))
     (set_gate 14 (\<lambda>e. set_stack_index ops PAGE_FAULT_IST (set_handler_fn ops page_fault_handler e))
     (set_gate 8 (\<lambda>e. set_stack_index ops DOUBLE_FAULT_IST (set_handler_fn ops double_fault_handler e))
     (set_gate 3 (set_handler_fn ops breakpoint_handler) (\<lambda>_. gate_missing ops))))))) v)) =
    Map.empty(3 \<mapsto> breakpoint_handler, 8 \<mapsto> double_fault_handler, 14 \<mapsto> page_fault_handler,
     13 \<mapsto> general_protection_fault_handler, 0x80 \<mapsto> wrapped_syscall_handler,
     as_u8 Timer \<mapsto> timer_interrupt_handler, 14 \<mapsto> page_fault_handler)"
    by (auto simp: set_gate_def laws PIC_1_OFFSET_def)
  show ?thesis unfolding IDT_gates_def irq_gates_def irq_gates_handler base IDT_def set_irqs_def ..
qed

lemma gates_dpl: "dpl (IDT_gates ops v) = (if v = 0x80 then 3 else 0)"
  unfolding IDT_gates_def irq_gates_def irq_gates_dpl vectors
  by (auto simp: set_gate_def laws PIC_1_OFFSET_def)

lemma gates_masks:
  assumes "IDT v \<noteq> None"
  shows "masks (IDT_gates ops v)"
proof (cases "v \<in> (\<lambda>n. PIC_1_OFFSET + word_of_nat n) ` set [0..<16]")
  case True
  then show ?thesis unfolding IDT_gates_def irq_gates_def irq_gates_masks by blast
next
  case False
  have "handler (IDT_gates ops v) \<noteq> None" using assms by (simp add: gates_handlers)
  then show ?thesis unfolding IDT_gates_def irq_gates_def irq_gates_other [OF False]
    by (auto simp: set_gate_def laws split: if_splits)
qed

lemma gates_stacks: "stack_index (IDT_gates ops 8) = Some DOUBLE_FAULT_IST"
  "stack_index (IDT_gates ops 13) = Some GENERAL_PROTECTION_FAULT_IST" "stack_index (IDT_gates ops 14) = None"
proof -
  have "8 \<notin> (\<lambda>n. PIC_1_OFFSET + word_of_nat n) ` set [0..<16]" "13 \<notin> (\<lambda>n. PIC_1_OFFSET + word_of_nat n) ` set [0..<16]"
    "14 \<notin> (\<lambda>n. PIC_1_OFFSET + word_of_nat n) ` set [0..<16]"
    unfolding vectors by simp_all
  note other = this [THEN irq_gates_other]
  show "stack_index (IDT_gates ops 8) = Some DOUBLE_FAULT_IST"
    "stack_index (IDT_gates ops 13) = Some GENERAL_PROTECTION_FAULT_IST" "stack_index (IDT_gates ops 14) = None"
    unfolding IDT_gates_def irq_gates_def other by (simp_all add: set_gate_def laws PIC_1_OFFSET_def)
qed

end

section \<open>Tables as the crate lays them out\<close>

text \<open>A table of eight slots, the first of them null, of which a task segment takes two.\<close>

datatype slot = Null_slot | Segment_slot Descriptor | Upper_slot

definition slot_ops :: "slot list Gdt_ops" where
  "slot_ops = \<lparr>gdt_new = [Null_slot],
     gdt_append = (\<lambda>d g. if 8 < length g + slots d then Panic
       else Ok (word_of_nat (8 * length g + privilege d), g @ Segment_slot d # (if d = tss_segment then [Upper_slot] else [])))\<rparr>"

definition slot_segment :: "slot list \<Rightarrow> selector \<Rightarrow> Descriptor option" where
  "slot_segment g s = (let i = unat s div 8 in
     if i < length g then (case g ! i of Segment_slot d \<Rightarrow> Some d | _ \<Rightarrow> None) else None)"

lemma rpl_mod: "rpl s = unat s mod 4"
proof -
  have "s AND 3 = take_bit 2 s" by (simp add: take_bit_eq_mask mask_eq_exp_minus_1)
  moreover have "unat (take_bit 2 s) = take_bit 2 (unat s)" by (rule unsigned_take_bit_eq)
  ultimately show ?thesis unfolding rpl_def by (simp only: take_bit_eq_mod) simp
qed

lemma privilege_cases: "privilege d = 0 \<or> privilege d = 3"
  by (cases d) simp_all

interpretation slot_table: segment_table slot_ops slot_segment length
proof
  fix g :: "slot list" and d
  assume fits: "length g + slots d \<le> 8"
  let ?s = "word_of_nat (8 * length g + privilege d) :: selector"
  let ?g = "g @ Segment_slot d # (if d = tss_segment then [Upper_slot] else [])"
  have "length g \<le> 7" using fits by (cases d) simp_all
  then have "8 * length g + privilege d < 2 ^ 16" using privilege_cases [of d] by auto
  then have s: "unat ?s = 8 * length g + privilege d" by (simp only: unat_of_nat) simp
  have "gdt_append slot_ops d g = Ok (?s, ?g)" using fits by (simp add: slot_ops_def)
  moreover have "length ?g = length g + slots d" by (cases d) simp_all
  moreover have "unat ?s div 8 = length g" "unat ?s mod 4 = privilege d"
    unfolding s using privilege_cases [of d] by presburger+
  then have "slot_segment ?g ?s = Some d" "rpl ?s = privilege d" unfolding slot_segment_def rpl_mod by (simp_all only:) simp_all
  moreover have "slot_segment ?g t = Some e" if "slot_segment g t = Some e" for t e
    using that by (auto simp: slot_segment_def Let_def nth_append split: if_splits)
  ultimately show "\<exists>s g'. gdt_append slot_ops d g = Ok (s, g') \<and> length g' = length g + slots d \<and>
      slot_segment g' s = Some d \<and> rpl s = privilege d \<and> (\<forall>t e. slot_segment g t = Some e \<longrightarrow> slot_segment g' t = Some e)"
    by blast
qed (simp add: slot_ops_def)

text \<open>
  A gate: handler, stack index, privilege level and whether it masks interrupts; setting a handler resets
  the others.
\<close>

record gate_entry =
  ge_handler :: "handler_fn option"
  ge_stack :: "nat option"
  ge_dpl :: nat
  ge_masks :: bool

definition entry_ops :: "gate_entry Gate_ops" where
  "entry_ops = \<lparr>gate_missing = \<lparr>ge_handler = None, ge_stack = None, ge_dpl = 0, ge_masks = True\<rparr>,
     set_handler_fn = (\<lambda>h e. \<lparr>ge_handler = Some h, ge_stack = None, ge_dpl = 0, ge_masks = True\<rparr>),
     set_stack_index = (\<lambda>n e. e\<lparr>ge_stack := Some n\<rparr>), set_privilege_level = (\<lambda>l e. e\<lparr>ge_dpl := l\<rparr>)\<rparr>"

interpretation entries: gate entry_ops ge_handler ge_stack ge_dpl ge_masks
  by unfold_locales (simp_all add: entry_ops_def)

section \<open>Properties\<close>

text \<open>
  C9. User mode: the table of segments is built without a panic, and the frame with which \<open>exec\<close> enters a
  process loads the user code and data segments at privilege level 3, the entry point and the
  stack of the process, and flags with interrupts on and no right to use ports.
\<close>

theorem enters_user_mode:
  assumes "segment_table ops segment used"
  shows "\<exists>g sels cs ss flags. GDT ops = Ok (g, sels) \<and> reg_cs (gdt_init (g, sels)) = sel_code sels \<and> rpl (sel_code sels) = 0 \<and>
    segment g (sel_code sels) = Some kernel_code_segment \<and>
    enter_frame sels e = [ue_rip e, ucast cs, flags, ue_rsp e, ucast ss] \<and>
    segment g cs = Some user_code_segment \<and> segment g ss = Some user_data_segment \<and> rpl cs = 3 \<and> rpl ss = 3 \<and>
    bit flags 9 \<and> \<not> bit flags 12 \<and> \<not> bit flags 13"
proof -
  obtain g sels where "GDT ops = Ok (g, sels)" "segment g (sel_code sels) = Some kernel_code_segment" "rpl (sel_code sels) = 0"
    "segment g (user_code sels) = Some user_code_segment" "segment g (user_data sels) = Some user_data_segment"
    "rpl (user_code sels) = 3" "rpl (user_data sels) = 3"
    using segment_table.GDT_built [OF assms] by blast
  moreover have "bit (0x200 :: u64) 9" "\<not> bit (0x200 :: u64) 12" "\<not> bit (0x200 :: u64) 13" by code_simp+
  ultimately show ?thesis by (auto simp: enter_frame_def gdt_init_def intro!: exI)
qed

theorem enters_user_mode_witness:
  "\<exists>g sels cs. GDT slot_ops = Ok (g, sels) \<and> slot_segment g cs = Some user_code_segment \<and> rpl cs = 3 \<and>
    enter_frame sels \<lparr>ue_rsp = 0, ue_rip = 0, ue_rdi = 0, ue_rsi = 0\<rparr> ! 1 = ucast cs"
  using enters_user_mode [OF slot_table.segment_table_axioms, of "\<lparr>ue_rsp = 0, ue_rip = 0, ue_rdi = 0, ue_rsi = 0\<rparr>"]
  by (metis One_nat_def nth_Cons_0 nth_Cons_Suc)

text \<open>
  C10. The gates: every vector has the handler of the table \<open>IDT\<close>, a program can raise only the
  system call by an instruction, a double fault and a general protection fault have stacks of
  their own, but a page fault has not: its handler is set a second time, which drops the stack index. No
  handler is interrupted by the keyboard or the timer.
\<close>

theorem gates_of_table:
  assumes "gate ops handler stack_index dpl masks"
  shows "(\<forall>v. handler (IDT_gates ops v) = IDT v) \<and> (\<forall>v. dpl (IDT_gates ops v) = 3 \<longleftrightarrow> v = 0x80) \<and>
    stack_index (IDT_gates ops 8) = Some DOUBLE_FAULT_IST \<and> stack_index (IDT_gates ops 13) = Some GENERAL_PROTECTION_FAULT_IST \<and>
    stack_index (IDT_gates ops 14) = None \<and> (\<forall>v. IDT v \<noteq> None \<longrightarrow> masks (IDT_gates ops v))"
  using gate.gates_handlers [OF assms] gate.gates_dpl [OF assms] gate.gates_stacks [OF assms] gate.gates_masks [OF assms] by simp

theorem gates_of_table_witness: "ge_stack (IDT_gates entry_ops 14) = None \<and> ge_dpl (IDT_gates entry_ops 0x80) = 3"
  using gates_of_table [OF entries.gate_axioms] by blast

end
