(* ===== verification/System.thy ===== *)
theory System
  imports Trap Segments
begin

text \<open>
  The running system: the program on the processor with its frame and registers, the system calls it makes
  through the gate, the keys and the page faults that interrupt it. An abstract specification says what
  all this does to the contexts of the processes, of which the first runs and each of the others waits for
  the one before it; the system refines it.

  \<open>masked\<close> says that the processor takes no interrupts while the handler of the gate runs, so that no
  keys arrive during a system call.
\<close>

section \<open>Contexts\<close>

text \<open>The registers that neither the wrapper pushes nor \<open>Registers\<close> has a field for (vector registers, which are treated alike, are left out).\<close>

record Kept =
  rbx :: u64
  rbp :: u64
  r12 :: u64
  r13 :: u64
  r14 :: u64
  r15 :: u64

text \<open>The program that runs with all its registers, and the frames and registers with which those below it wait.\<close>

type_synonym 'f cpu_contexts = "('f \<times> Registers \<times> Kept) \<times> ('f \<times> Registers) list"

text \<open>
  The program runs, is interrupted and continued, receives the answer of a call, starts a child, finishes, or is
  ended by a page fault for which there is no memory.
\<close>

datatype 'f event = Program 'f Registers Kept | Interrupt | Answer u64 | Start 'f Registers Kept | Finish | Kill

text \<open>
  \<open>Finish\<close> continues the parent with the frame and the nine registers with which it waited, but with the child's values in
  the registers that are not saved. \<open>Kill\<close> drops the context of the parent: the code of the child goes on in its place.
\<close>

fun context_step :: "'f event \<Rightarrow> 'f cpu_contexts \<Rightarrow> 'f cpu_contexts option" where
  "context_step (Program f r v) (c, ws) = Some ((f, r, v), ws)"
| "context_step Interrupt (c, ws) = Some (c, ws)"
| "context_step (Answer x) ((f, r, v), ws) = Some ((f, r\<lparr>rax := x\<rparr>, v), ws)"
| "context_step (Start f r v) ((pf, pr, pv), ws) =
     (if Suc (length ws) < MAX_PROCS then Some ((f, r, v), (pf, pr) # ws) else None)"
| "context_step Finish ((f, r, v), (pf, pr) # ws) = Some ((pf, pr, v), ws)"
| "context_step Kill (c, w # ws) = Some (c, ws)"
| "context_step _ _ = None"

fun context_run :: "'f event list \<Rightarrow> 'f cpu_contexts \<Rightarrow> 'f cpu_contexts option" where
  "context_run [] cs = Some cs"
| "context_run (ev # evs) cs = (case context_step ev cs of None \<Rightarrow> None | Some cs' \<Rightarrow> context_run evs cs')"

section \<open>The system\<close>

record ('r, 'f, 'h, 'm, 'd) System =
  sy_kernel :: "('r, 'f, 'h, 'm, 'd) Kernel"
  sy_frame :: 'f
  sy_regs :: Registers
  sy_kept :: Kept

definition masked :: "bool \<Rightarrow> ('r, 'f, 'h, 'm, 'd) Kernel \<Rightarrow> ('r, 'f, 'h, 'm, 'd) Kernel" where
  "masked m k = (if m then k\<lparr>k_polls := map (\<lambda>_. []) (k_polls k)\<rparr> else k)"

text \<open>A system call of the running program, through the gate.\<close>

definition trap :: "bool \<Rightarrow> ('r, 'h, 'm, 'd) Env \<Rightarrow> ('r, 'f, 'h, 'm, 'd) System
    \<Rightarrow> ((unit, 'f trap_result) outcome \<times> ('r, 'f, 'h, 'm, 'd) Kernel) option" where
  "trap m par s = int_0x80 par (sy_frame s) (sy_regs s) (masked m (sy_kernel s))"

definition calls :: "Call \<Rightarrow> ('r, 'f, 'h, 'm, 'd) System \<Rightarrow> bool" where
  "calls c s \<longleftrightarrow> call_of (unat (rax (sy_regs s))) = Some c"

abbreviation pid_of :: "('r, 'f, 'h, 'm, 'd) System \<Rightarrow> nat" where
  "pid_of s \<equiv> cur_pid (k_procs (sy_kernel s))"

text \<open>
  \<open>entry\<close> is the frame with which a process is entered; all but its argument registers hold anything then. The handler keeps
  the registers in \<open>Kept\<close> by its calling convention, as handlers of interrupts do: a program that the wrapper returns to, be it
  the caller or after \<open>EXIT\<close> its parent, has them as they were when the call was made. Process 0 is the kernel, which neither calls \<open>EXIT\<close> nor
  faults in user mode.
\<close>

inductive system_step :: "bool \<Rightarrow> (user_entry \<Rightarrow> 'f) \<Rightarrow> ('r, 'h, 'm, 'd) Env \<Rightarrow> 'f event
    \<Rightarrow> ('r, 'f, 'h, 'm, 'd) System \<Rightarrow> ('r, 'f, 'h, 'm, 'd) System \<Rightarrow> bool" for m entry par where
  sys_program: "k' = (sy_kernel s)\<lparr>k_procs := (k_procs (sy_kernel s))\<lparr>memory := mem\<rparr>\<rparr> \<Longrightarrow>
    system_step m entry par (Program f r v) s \<lparr>sy_kernel = k', sy_frame = f, sy_regs = r, sy_kept = v\<rparr>"
| sys_key: "k' = (sy_kernel s)\<lparr>k_console := handle_key key (k_console (sy_kernel s))\<rparr> \<Longrightarrow>
    system_step m entry par Interrupt s (s\<lparr>sy_kernel := k'\<rparr>)"
| sys_keys_ahead: "system_step m entry par Interrupt s (s\<lparr>sy_kernel := (sy_kernel s)\<lparr>k_polls := polls\<rparr>\<rparr>)"
| sys_fault: "page_fault (e_mem par) code addr (k_procs (sy_kernel s)) = (Ok (), ps) \<Longrightarrow>
    (pid_of s = 0 \<Longrightarrow> \<not> user_mode code) \<Longrightarrow>
    system_step m entry par (if cur_pid ps < pid_of s then Kill else Interrupt) s
      (s\<lparr>sy_kernel := (sy_kernel s)\<lparr>k_procs := ps\<rparr>\<rparr>)"
| sys_return: "trap m (at_time ticks tscs now par) s = Some (Ok (Iret f r), k') \<Longrightarrow> (calls EXIT s \<Longrightarrow> pid_of s \<noteq> 0) \<Longrightarrow>
    system_step m entry par (if calls EXIT s then Finish else Answer (rax r)) s
      \<lparr>sy_kernel = k', sy_frame = f, sy_regs = r, sy_kept = sy_kept s\<rparr>"
| sys_enter: "trap m (at_time ticks tscs now par) s = Some (Ok (Enter e), k') \<Longrightarrow>
    rdi r = ue_rdi e \<Longrightarrow> rsi r = word_of_nat (ue_rsi e) \<Longrightarrow>
    system_step m entry par (Start (entry e) r v) s \<lparr>sy_kernel = k', sy_frame = entry e, sy_regs = r, sy_kept = v\<rparr>"

inductive system_run :: "bool \<Rightarrow> (user_entry \<Rightarrow> 'f) \<Rightarrow> ('r, 'h, 'm, 'd) Env \<Rightarrow> 'f event list
    \<Rightarrow> ('r, 'f, 'h, 'm, 'd) System \<Rightarrow> ('r, 'f, 'h, 'm, 'd) System \<Rightarrow> bool" for m entry par where
  run_done: "system_run m entry par [] s s"
| run_step: "system_step m entry par ev s s1 \<Longrightarrow> system_run m entry par evs s1 s2 \<Longrightarrow> system_run m entry par (ev # evs) s s2"

inductive_cases system_stepE: "system_step m entry par ev s s'"

text \<open>The contexts of a state: of the running program, and those that the table of processes has of the ones below it.\<close>

definition waiting :: "('r, 'f, 'h, 'm) Procs \<Rightarrow> nat \<Rightarrow> ('f \<times> Registers) list" where
  "waiting ps n = map (\<lambda>j. (the (stack_frame (process_table ps ! j)), registers (process_table ps ! j))) (rev [0..<n])"

definition contexts :: "('r, 'f, 'h, 'm, 'd) System \<Rightarrow> 'f cpu_contexts" where
  "contexts s = ((sy_frame s, sy_regs s, sy_kept s), waiting (k_procs (sy_kernel s)) (pid_of s))"

definition system_ok :: "('r, 'f, 'h, 'm, 'd) System \<Rightarrow> bool" where
  "system_ok s \<longleftrightarrow> kernel_ok (sy_kernel s) \<and>
     (\<forall>j < pid_of s. stack_frame (process_table (k_procs (sy_kernel s)) ! j) \<noteq> None)"

section \<open>Lemmas\<close>

lemma length_waiting [simp]: "length (waiting ps n) = n"
  by (simp add: waiting_def)

lemma waiting_Suc: "waiting ps (Suc n) =
    (the (stack_frame (process_table ps ! n)), registers (process_table ps ! n)) # waiting ps n"
  by (simp add: waiting_def)

lemma waiting_cong: "(\<And>j. j < n \<Longrightarrow> process_table ps' ! j = process_table ps ! j) \<Longrightarrow> waiting ps' n = waiting ps n"
  by (simp add: waiting_def)

lemma masked_same [simp]:
  "k_procs (masked m k) = k_procs k" "k_files (masked m k) = k_files k" "kernel_ok (masked m k) = kernel_ok k"
  by (simp_all add: masked_def kernel_ok_def fds_ok_def)

lemma trap_eq: "trap m par s = syscall_handler par (sy_frame s) (sy_regs s) (masked m (sy_kernel s))"
  by (simp add: trap_def int_0x80_def IDT_syscall wrapped_handler_eq)

text \<open>A step that leaves the waiting processes and the number of the running one.\<close>

lemma waiting_kept:
  assumes "system_ok s" and "kernel_ok k'" and "cur_pid (k_procs k') = pid_of s"
    and "\<And>j. j < pid_of s \<Longrightarrow> process_table (k_procs k') ! j = process_table (k_procs (sy_kernel s)) ! j"
  shows "system_ok \<lparr>sy_kernel = k', sy_frame = f, sy_regs = r, sy_kept = v\<rparr>"
    and "contexts \<lparr>sy_kernel = k', sy_frame = f, sy_regs = r, sy_kept = v\<rparr> = ((f, r, v), waiting (k_procs (sy_kernel s)) (pid_of s))"
  using assms waiting_cong [of "pid_of s" "k_procs k'" "k_procs (sy_kernel s)"]
  by (simp_all add: system_ok_def contexts_def)

lemma same_kept:
  assumes "system_ok s" and "same_procs (k_procs (sy_kernel s)) (k_procs k')" and "k_files k' = k_files (sy_kernel s)"
  shows "system_ok \<lparr>sy_kernel = k', sy_frame = f, sy_regs = r, sy_kept = v\<rparr>"
    and "contexts \<lparr>sy_kernel = k', sy_frame = f, sy_regs = r, sy_kept = v\<rparr> = ((f, r, v), waiting (k_procs (sy_kernel s)) (pid_of s))"
proof -
  have "kernel_ok k'" using assms by (auto simp: system_ok_def kernel_ok_def fds_ok_def stacked_same)
  with assms show "system_ok \<lparr>sy_kernel = k', sy_frame = f, sy_regs = r, sy_kept = v\<rparr>"
    "contexts \<lparr>sy_kernel = k', sy_frame = f, sy_regs = r, sy_kept = v\<rparr> = ((f, r, v), waiting (k_procs (sy_kernel s)) (pid_of s))"
    by (auto simp: same_procs_def intro!: waiting_kept)
qed

lemma spawn_refused_same:
  fixes ps :: "('r, 'f, 'h, 'm) Procs"
  assumes "Process_spawn mo parse eh hi bin ap an ps = (Err c, ps')"
  shows "same_procs ps ps'"
proof -
  have "expect_prog q s \<noteq> (Err c, ps')" for q :: "(('r, 'f, 'h, 'm) Procs, unit, user_entry) prog" and s
    by (auto simp: expect_prog_def split: prod.splits)
  then have "\<exists>e. Process_create mo parse eh bin ps = (Err e, ps')" using assms
    by (auto simp: Process_spawn_def bind_def map_err_prog_def reads_def index_def
        split: prod.splits outcome.splits if_splits elim: map_err.elims)
  then show ?thesis by (auto dest: Process_create_Err)
qed

lemma dispatch_returns:
  assumes "call_of n \<noteq> Some EXIT" and "dispatch par n a1 a2 a3 a4 k = Some (Ok (Returns v), k')"
  shows "same_procs (k_procs k) (k_procs k')"
proof (cases "call_of n = Some EXEC")
  case True
  then obtain path where "sys_spawn par path (word_of_nat a3) a4 k = Some (Ok (Returns v), k')"
    using assms(2) by (auto simp: dispatch_def split: outcome.splits)
  then show ?thesis
  proof (cases rule: sys_spawn_cases)
    case (2 bin k1)
    then have "same_procs (k_procs k1) (k_procs k')"
      by (auto simp: start_process_def on_procs_def split: prod.splits outcome.splits intro: spawn_refused_same)
    then show ?thesis using quiet_procs [OF 2(1)] by (simp add: same_procs_def)
  qed (rule quiet_procs)
next
  case False
  then have "quiet k k'"
    using assms dispatch_call_quiet [of "the (call_of n)" par a1 a2 a3 a4 k "Ok (Returns v)" k']
    by (cases "call_of n") (auto simp: dispatch_def ret_def)
  then show ?thesis by (rule quiet_procs)
qed

lemma dispatch_enters: "dispatch par n a1 a2 a3 a4 k = Some (Ok (Enters e), k') \<Longrightarrow> call_of n = Some EXEC"
proof -
  assume run: "dispatch par n a1 a2 a3 a4 k = Some (Ok (Enters e), k')"
  then obtain c where c: "call_of n = Some c" "dispatch_call par c a1 a2 a3 a4 k = Some (Ok (Enters e), k')"
    by (cases "call_of n") (auto simp: dispatch_def ret_def)
  from c(2) have "c = EXEC"
    by (cases c) (auto simp: dispatch_read_def timed_def returns_def bind_eq_Ok reads_def ret_def panic_def
        split: outcome.splits option.splits prod.splits)
  then show "call_of n = Some EXEC" using c(1) by simp
qed

lemma handler_answers:
  assumes "kernel_ok k" and "call_of (unat (rax regs)) \<noteq> Some EXIT"
    and "syscall_handler par frame regs k = Some (Ok (Iret f r), k')"
  shows "f = frame" and "r = regs\<lparr>rax := rax r\<rparr>" and "cur_pid (k_procs k') = cur_pid (k_procs k)"
proof -
  obtain k1 res where k1: "cur_pid (k_procs k1) = cur_pid (k_procs k)"
    and disp: "dispatch par (unat (rax regs)) (unat (rdi regs)) (unat (rsi regs)) (unat (rdx regs)) (unat (r8 regs)) k1 = Some (Ok res, k')"
    and after: "after_dispatch frame regs res k' = (Ok (Iret f r), k')"
    using syscall_handler_cases [OF assms(1,3)] by metis
  obtain v where v: "res = Returns v" using after by (cases res) (auto simp: after_dispatch_def ret_def)
  show "f = frame" "r = regs\<lparr>rax := rax r\<rparr>" using after assms(2) v by (auto simp: after_dispatch_def ret_def)
  show "cur_pid (k_procs k') = cur_pid (k_procs k)"
    using dispatch_returns [OF assms(2) disp [unfolded v]] k1 by (simp add: same_procs_def)
qed

lemma handler_enters_exec:
  assumes "kernel_ok k" and "syscall_handler par frame regs k = Some (Ok (Enter e), k')"
  shows "call_of (unat (rax regs)) = Some EXEC"
proof -
  obtain k1 res where disp: "dispatch par (unat (rax regs)) (unat (rdi regs)) (unat (rsi regs)) (unat (rdx regs)) (unat (r8 regs)) k1 = Some (Ok res, k')"
    and after: "after_dispatch frame regs res k' = (Ok (Enter e), k')"
    using syscall_handler_cases [OF assms] by metis
  have "res = Enters e"
    using after by (auto simp: after_dispatch_def restore_context_def bind_eq_Ok reads_def ret_def split: sys_result.splits if_splits)
  then show ?thesis using dispatch_enters disp by simp
qed

lemma try_alloc_same: "try_alloc mo addr n ps = (r, ps') \<Longrightarrow> same_procs ps ps'"
  by (auto simp: try_alloc_def same_procs_def split: outcome.splits prod.splits)

lemma page_fault_cases:
  assumes "page_fault mo code addr ps = (Ok (), ps')"
  obtains "same_procs ps ps'" | ps1 where "user_mode code" and "same_procs ps ps1" and "process_exit mo ps1 = (Ok () :: (unit, _) outcome, ps')"
proof (cases "caused_by_write code")
  case True
  then obtain ok ps1 where alloc: "try_alloc mo addr 1 ps = (Ok ok, ps1)"
    and rest: "(if ok then ret () else if user_mode code then process_exit mo else panic) ps1 =
      (Ok () :: (unit, _) outcome, ps')"
    using assms by (auto simp: page_fault_def bind_eq_Ok simp del: One_nat_def)
  show thesis using that try_alloc_same [OF alloc] rest by (auto simp: ret_def panic_def split: if_splits)
next
  case False
  then obtain ok ps1 where alloc: "try_alloc mo (addr div 4096 * 4096) 4096 ps = (Ok ok, ps1)"
    and rest: "(if ok \<and> is_userspace (addr div 4096 * 4096) then copy_code_page mo (addr div 4096 * 4096)
      else ret ()) ps1 = (Ok () :: (unit, _) outcome, ps')"
    using assms by (auto simp: page_fault_def bind_eq_Ok Let_def panic_def split: if_splits)
  have "same_procs ps1 ps'" using rest
    by (auto simp: ret_def bind_eq_Ok copy_code_page_def reads_def on_memory_Ok same_procs_def split: if_splits)
  then show thesis using that(1) try_alloc_same [OF alloc] by (auto simp: same_procs_def)
qed

section \<open>The simulation\<close>

lemma simulates_fault:
  assumes ok: "system_ok s" and fault: "page_fault (e_mem par) code addr (k_procs (sy_kernel s)) = (Ok (), ps)"
    and pid: "pid_of s = 0 \<Longrightarrow> \<not> user_mode code" and s': "s' = s\<lparr>sy_kernel := (sy_kernel s)\<lparr>k_procs := ps\<rparr>\<rparr>"
  shows "system_ok s' \<and> context_step (if cur_pid ps < pid_of s then Kill else Interrupt) (contexts s) = Some (contexts s')"
  using fault
proof (cases rule: page_fault_cases)
  case 1
  then show ?thesis using same_kept [OF ok, of "(sy_kernel s)\<lparr>k_procs := ps\<rparr>" "sy_frame s" "sy_regs s" "sy_kept s"]
    by (cases s) (auto simp: s' contexts_def same_procs_def)
next
  case (2 ps1)
  have st: "stacked ps1" using ok 2(2) by (simp add: system_ok_def kernel_ok_def stacked_same)
  obtain j where j: "pid_of s = Suc j" using pid 2(1) by (cases "pid_of s") auto
  have ps: "stacked ps" "cur_pid ps = j" "process_table ps = process_table (k_procs (sy_kernel s))"
    using exit_stacked [OF st _ 2(3)] 2(2) j by (simp_all add: same_procs_def)
  have "waiting ps j = waiting (k_procs (sy_kernel s)) j" by (rule waiting_cong) (simp add: ps)
  moreover have "system_ok s'" using ok j ps by (auto simp: s' system_ok_def kernel_ok_def fds_ok_def)
  ultimately show ?thesis by (simp add: s' contexts_def ps(2) j waiting_Suc)
qed

lemma simulates_return:
  assumes ok: "system_ok s" and run: "trap m par s = Some (Ok (Iret f r), k')" and pid: "calls EXIT s \<Longrightarrow> pid_of s \<noteq> 0"
    and s': "s' = \<lparr>sy_kernel = k', sy_frame = f, sy_regs = r, sy_kept = sy_kept s\<rparr>"
  shows "system_ok s' \<and> context_step (if calls EXIT s then Finish else Answer (rax r)) (contexts s) = Some (contexts s')"
proof -
  let ?k = "masked m (sy_kernel s)"
  note run = run [unfolded trap_eq]
  have k: "kernel_ok ?k" "cur_pid (k_procs ?k) = pid_of s" using ok by (simp_all add: system_ok_def)
  have pid': "call_of (unat (rax (sy_regs s))) = Some EXIT \<Longrightarrow> cur_pid (k_procs ?k) \<noteq> 0" using pid by (simp add: calls_def)
  note ok' = handler_ok [OF k(1) run pid']
  show ?thesis
  proof (cases "calls EXIT s")
    case False
    then have "f = sy_frame s" "r = (sy_regs s)\<lparr>rax := rax r\<rparr>" "cur_pid (k_procs k') = pid_of s"
      using handler_answers [OF k(1) _ run] by (simp_all add: calls_def)
    with waiting_kept [OF ok, of k' f r "sy_kept s"] ok' False show ?thesis by (simp add: s' contexts_def)
  next
    case True
    then obtain j where j: "pid_of s = Suc j" using pid by (cases "pid_of s") auto
    obtain frame rs where ctx: "stack_frame (process_table (k_procs ?k) ! j) = Some frame"
      "registers (process_table (k_procs ?k) ! j) = rs"
      using ok j by (auto simp: system_ok_def)
    have "f = frame" "r = rs" "cur_pid (k_procs k') = j"
      using handler_exits [OF k(1) _ _ _ run, of j frame rs] True j ctx by (simp_all add: calls_def has_context_def)
    moreover have "waiting (k_procs k') j = waiting (k_procs (sy_kernel s)) j"
      using ok'(2) j by (intro waiting_cong) simp
    moreover have "system_ok s'" using ok ok' j calculation(3) by (simp add: s' system_ok_def)
    ultimately show ?thesis using True ctx by (simp add: s' contexts_def j waiting_Suc)
  qed
qed

lemma simulates_enter:
  assumes ok: "system_ok s" and run: "trap m par s = Some (Ok (Enter e), k')"
    and s': "s' = \<lparr>sy_kernel = k', sy_frame = f, sy_regs = r, sy_kept = v\<rparr>"
  shows "system_ok s' \<and> context_step (Start f r v) (contexts s) = Some (contexts s')"
proof -
  let ?k = "masked m (sy_kernel s)" and ?n = "pid_of s"
  note run = run [unfolded trap_eq]
  have k: "kernel_ok ?k" using ok by (simp add: system_ok_def)
  note exec = handler_enters_exec [OF k run]
  have below: "\<And>j. j < ?n \<Longrightarrow> process_table (k_procs k') ! j = process_table (k_procs (sy_kernel s)) ! j"
    using handler_ok(2) [OF k run] exec by simp
  have k': "kernel_ok k'" "cur_pid (k_procs k') = Suc ?n" "stack_frame (process_table (k_procs k') ! ?n) = Some (sy_frame s)"
    "registers (process_table (k_procs k') ! ?n) = sy_regs s"
    using handler_enters [OF k exec run] by (simp_all add: has_context_def)
  have "Suc ?n < MAX_PROCS" using k'(1,2) by (simp add: kernel_ok_def stacked_def)
  moreover have "system_ok s'" using ok k' below by (auto simp: s' system_ok_def less_Suc_eq)
  ultimately show ?thesis using k' waiting_cong [OF below] by (simp add: s' contexts_def waiting_Suc)
qed

lemma simulates:
  assumes "system_step m entry par ev s s'" and ok: "system_ok s"
  shows "system_ok s' \<and> context_step ev (contexts s) = Some (contexts s')"
  using assms(1)
proof cases
  case (sys_program k' mem f r v)
  then show ?thesis using same_kept [OF ok, of k' f r v] by (simp add: contexts_def same_procs_def)
next
  case (sys_key k' key)
  then show ?thesis using same_kept [OF ok, of k' "sy_frame s" "sy_regs s" "sy_kept s"] by (cases s) (simp add: contexts_def)
next
  case (sys_keys_ahead polls)
  then show ?thesis using same_kept [OF ok, of "(sy_kernel s)\<lparr>k_polls := polls\<rparr>" "sy_frame s" "sy_regs s" "sy_kept s"]
    by (cases s) (simp add: contexts_def)
next
  case (sys_fault code addr ps)
  then show ?thesis using simulates_fault [OF ok sys_fault(3,4,2)] by simp
next
  case (sys_return ticks tscs now f r k')
  then show ?thesis using simulates_return [OF ok sys_return(3,4,2)] by simp
next
  case (sys_enter ticks tscs now e k' r v)
  then show ?thesis using simulates_enter [OF ok sys_enter(3,2)] by simp
qed

lemma simulates_run:
  "system_run m entry par evs s s' \<Longrightarrow> system_ok s \<Longrightarrow> system_ok s' \<and> context_run evs (contexts s) = Some (contexts s')"
  by (induction rule: system_run.induct) (auto dest!: simulates)

section \<open>Reading the console without interrupts\<close>

lemma read_single_char_empty: "stdin_buf c = [] \<Longrightarrow> read_single_char (map (\<lambda>_. []) polls) c = None"
  by (induction polls) (simp_all add: stdin_pop_def)

lemma console_fill_masked:
  "console_fill n (map (\<lambda>_. []) polls) c \<noteq> None \<longleftrightarrow> n \<le> length (stdin_buf c) \<and> n \<le> length polls"
proof (induction n arbitrary: polls c)
  case (Suc n)
  show ?case
  proof (cases "stdin_buf c" rule: rev_cases)
    case Nil
    then show ?thesis by (simp add: read_single_char_empty)
  next
    case (snoc ks k)
    show ?thesis
    proof (cases polls)
      case (Cons p ps)
      then show ?thesis using Suc.IH [of ps "c\<lparr>stdin_buf := ks\<rparr>"]
        by (auto simp: snoc read_buffered [OF snoc] simp del: read_single_char.simps split: option.splits)
    qed simp
  qed
qed simp

lemma sys_read_console:
  assumes "map_of (k_files k) fd = Some (FileDevice DevStdin)"
  shows "sys_read par fd buf k = None \<longleftrightarrow> console_fill (length buf) (k_polls k) (k_console k) = None"
  using assms by (auto simp: sys_read_def Console_read_def split: option.splits prod.splits)

lemma dispatch_read_console:
  assumes "map_of (k_files k) fd = Some (FileDevice DevStdin)" and "bytes_at par addr n k = (Ok (p, buf) :: (unit, _) outcome)"
    and "length buf = n"
  shows "dispatch_read par fd addr n k = None \<longleftrightarrow> console_fill n (k_polls k) (k_console k) = None"
  using sys_read_console [OF assms(1), of par buf] assms(2,3)
  by (auto simp: dispatch_read_def split: option.splits outcome.splits prod.splits)

lemma handler_read:
  assumes "call_of (unat (rax regs)) = Some READ"
  shows "syscall_handler par frame regs k = None \<longleftrightarrow> dispatch_read par (unat (rdi regs)) (unat (rsi regs)) (unat (rdx regs)) k = None"
proof (cases "dispatch_read par (unat (rdi regs)) (unat (rsi regs)) (unat (rdx regs)) k")
  case (Some x)
  then show ?thesis using assms by (cases x; cases "fst x") (simp_all add: syscall_handler_def dispatch_def ret_def)
qed (use assms in \<open>simp add: syscall_handler_def dispatch_def ret_def\<close>)

section \<open>Properties\<close>

text \<open>
  C7. The contexts of the processes: whatever programs do and whenever they are interrupted, from the kernel alone
  the contexts follow the specification. The running program sees an interrupt only as an interrupt
  and an answer only in \<open>RAX\<close>. A process that starts a child waits, at most four deep, and continues when the child finishes with its frame and the nine registers that
  \<open>EXEC\<close> saved, but with \<open>RBX\<close>, \<open>RBP\<close> and \<open>R12\<close> to \<open>R15\<close> as the child left them, although its compiler takes them to be
  unchanged. The invariant of the kernel holds throughout.
\<close>

theorem contexts_refined:
  assumes "system_run m entry par evs s s'" and "kernel_ok (sy_kernel s)" and "pid_of s = 0"
  shows "context_run evs ((sy_frame s, sy_regs s, sy_kept s), []) = Some (contexts s') \<and> kernel_ok (sy_kernel s')"
proof -
  have "system_ok s" "contexts s = ((sy_frame s, sy_regs s, sy_kept s), [])"
    using assms(2,3) by (simp_all add: system_ok_def contexts_def waiting_def)
  then show ?thesis using simulates_run [OF assms(1)] by (auto simp: system_ok_def)
qed

definition no_kept :: Kept where
  "no_kept = \<lparr>rbx = 0, rbp = 0, r12 = 0, r13 = 0, r14 = 0, r15 = 0\<rparr>"

theorem contexts_refined_witness:
  "\<exists>fs r s'. system_run True (\<lambda>_. ()) exec_env [Start () r no_kept, Program () (call_regs 6) (no_kept\<lparr>rbx := 5\<rparr>), Finish]
      \<lparr>sy_kernel = mounted fs, sy_frame = (), sy_regs = call_regs 0xA, sy_kept = no_kept\<lparr>rbx := 1\<rparr>\<rparr> s' \<and>
    contexts s' = (((), call_regs 0xA, no_kept\<lparr>rbx := 5\<rparr>), [])"
proof -
  have "valid_name ''/a''" "length (BIN_MAGIC @ [0x90]) < 512" by (simp_all add: valid_name_def BIN_MAGIC_def)
  then obtain fs md where fs: "direct_fs fs" "files fs (padded ''/a'') = Some (md, sample_program)"
    unfolding sample_program_def using written_fs by blast
  then obtain e k1 where enter: "syscall_handler exec_env () (call_regs 0xA) (mounted fs) = Some (Ok (Enter e), k1)"
    using sample_exec by blast
  have ok: "kernel_ok (mounted fs)" and zero: "cur_pid (k_procs (mounted fs)) = 0"
    by (simp_all add: kernel_ok_def fds_ok_def boot_devices_def sample_procs_def stacked_boot) (simp add: boot_procs_def)
  have time: "at_time [0, 500, 1000] [5] 7 exec_env = exec_env" by (simp add: at_time_def exec_env_def sample_env_def)
  note k1 = handler_enters [OF ok call_of_regs(1) enter]
  define v where "v = no_kept\<lparr>rbx := 5\<rparr>"
  let ?s = "\<lparr>sy_kernel = mounted fs, sy_frame = (), sy_regs = call_regs 0xA, sy_kept = no_kept\<lparr>rbx := 1\<rparr>\<rparr>"
  let ?r = "(call_regs 0)\<lparr>rdi := ue_rdi e, rsi := word_of_nat (ue_rsi e)\<rparr>"
  let ?s1 = "\<lparr>sy_kernel = k1, sy_frame = (), sy_regs = ?r, sy_kept = no_kept\<rparr>"
  let ?s2 = "\<lparr>sy_kernel = k1, sy_frame = (), sy_regs = call_regs 6, sy_kept = v\<rparr>"
  have "masked True (mounted fs) = mounted fs"
    by (simp add: masked_def mounted_def sample_kernel_def boot_kernel_def sys_init_devices)
  then have "trap True (at_time [0, 500, 1000] [5] 7 exec_env) ?s = Some (Ok (Enter e), k1)" using enter by (simp add: trap_eq time)
  from sys_enter [OF this, of ?r "\<lambda>_. ()"]
  have start: "system_step True (\<lambda>_. ()) exec_env (Start () ?r no_kept) ?s ?s1" by simp
  have program: "system_step True (\<lambda>_. ()) exec_env (Program () (call_regs 6) v) ?s1 ?s2" by (rule sys_program) simp
  have k1': "kernel_ok (masked True k1)" "cur_pid (k_procs (masked True k1)) = Suc 0" "has_context 0 () (call_regs 0xA) (masked True k1)"
    using k1 zero by (simp_all add: has_context_def)
  have "\<exists>x k2. syscall_handler exec_env () (call_regs 6) (masked True k1) = Some (x, k2)"
    by (auto simp: syscall_handler_def call_of_regs dispatch_def ret_def split: outcome.splits prod.splits)
  then obtain x k2 where exit: "syscall_handler exec_env () (call_regs 6) (masked True k1) = Some (x, k2)" by blast
  then have "trap True (at_time [0, 500, 1000] [5] 7 exec_env) ?s2 = Some (Ok (Iret () (call_regs 0xA)), k2)"
    using handler_exits(1) [OF k1'(1) call_of_regs(2) k1'(2,3) exit] by (simp add: trap_eq time)
  from sys_return [OF this, of "\<lambda>_. ()"]
  have "system_step True (\<lambda>_. ()) exec_env Finish ?s2 \<lparr>sy_kernel = k2, sy_frame = (), sy_regs = call_regs 0xA, sy_kept = v\<rparr>"
    (is "system_step _ _ _ _ _ ?s3") using k1'(2) by (simp add: calls_def call_of_regs)
  then have run: "system_run True (\<lambda>_. ()) exec_env [Start () ?r no_kept, Program () (call_regs 6) v, Finish] ?s ?s3"
    using start program by (blast intro: run_step run_done)
  have "contexts ?s3 = (((), call_regs 0xA, v), [])"
    using contexts_refined [OF run] ok zero by (simp add: MAX_PROCS_def)
  then show ?thesis using run unfolding v_def by blast
qed

text \<open>
  C11. Reading the keyboard: the gate of the system call masks interrupts, and \<open>read_single_char\<close> waits without
  enabling them. So \<open>READ\<close> on the console returns, after enough polls, exactly when the characters it asks for were typed before the call;
  when there are fewer, no key arrives any more, and the machine hangs.
\<close>

theorem console_read_hangs:
  assumes "gate ops handler stack_index dpl masks" and "calls READ s"
    and "map_of (k_files (sy_kernel s)) (unat (rdi (sy_regs s))) = Some (FileDevice DevStdin)"
    and "bytes_at par (unat (rsi (sy_regs s))) (unat (rdx (sy_regs s))) (sy_kernel s) = (Ok (p, buf) :: (unit, _) outcome)"
    and "length buf = unat (rdx (sy_regs s))"
  shows "(\<exists>polls. trap (masks (IDT_gates ops 0x80)) par (s\<lparr>sy_kernel := (sy_kernel s)\<lparr>k_polls := polls\<rparr>\<rparr>) \<noteq> None) \<longleftrightarrow>
    unat (rdx (sy_regs s)) \<le> length (stdin_buf (k_console (sy_kernel s)))"
proof -
  let ?regs = "sy_regs s" and ?n = "unat (rdx (sy_regs s))"
  have m: "masks (IDT_gates ops 0x80)" using gate.gates_masks [OF assms(1), of "0x80"] by (simp add: IDT_syscall)
  have "trap True par (s\<lparr>sy_kernel := (sy_kernel s)\<lparr>k_polls := polls\<rparr>\<rparr>) \<noteq> None \<longleftrightarrow>
      ?n \<le> length (stdin_buf (k_console (sy_kernel s))) \<and> ?n \<le> length polls" for polls
  proof -
    let ?k = "(sy_kernel s)\<lparr>k_polls := map (\<lambda>_. []) polls\<rparr>"
    have bytes: "bytes_at par (unat (rsi ?regs)) ?n ?k = (Ok (p, buf) :: (unit, _) outcome)"
      using assms(4) by (simp add: bytes_at_def)
    have "trap True par (s\<lparr>sy_kernel := (sy_kernel s)\<lparr>k_polls := polls\<rparr>\<rparr>) = None \<longleftrightarrow>
        dispatch_read par (unat (rdi ?regs)) (unat (rsi ?regs)) ?n ?k = None"
      using handler_read [of ?regs par "sy_frame s" ?k] assms(2) by (simp add: trap_eq masked_def calls_def)
    also have "\<dots> \<longleftrightarrow> console_fill ?n (map (\<lambda>_. []) polls) (k_console (sy_kernel s)) = None"
      using dispatch_read_console [OF _ bytes assms(5)] assms(3) by simp
    finally show ?thesis using console_fill_masked [of ?n polls] by (simp only:)
  qed
  then show ?thesis unfolding eqTrueI [OF m] by (metis length_replicate order_refl)
qed

theorem console_read_hangs_witness:
  "\<forall>polls. trap (ge_masks (IDT_gates entry_ops 0x80)) exec_env
    \<lparr>sy_kernel = sample_kernel\<lparr>k_polls := polls\<rparr>, sy_frame = (), sy_regs = (call_regs 1)\<lparr>rdi := 0, rdx := 2\<rparr>, sy_kept = no_kept\<rparr> = None"
proof -
  let ?s = "\<lparr>sy_kernel = sample_kernel, sy_frame = (), sy_regs = (call_regs 1)\<lparr>rdi := 0, rdx := 2\<rparr>, sy_kept = no_kept\<rparr>"
  have "calls READ ?s" by (simp add: calls_def call_regs_def call_of_def all_calls_def)
  moreover have "bytes_at exec_env (unat (rsi (sy_regs ?s))) (unat (rdx (sy_regs ?s))) (sy_kernel ?s) =
      (Ok (2, as_bytes ''/a'') :: (unit, _) outcome)"
    by (simp add: bytes_at_def call_regs_def sample_kernel_def boot_kernel_def sys_init_devices ptr_from_addr_def get_code_addr_def
        current_def index_def boot_procs_def Process_new_def MAX_PROCS_def exec_env_def exec_memory_def)
  moreover have "map_of (k_files (sy_kernel ?s)) (unat (rdi (sy_regs ?s))) = Some (FileDevice DevStdin)"
    by (simp add: boot_devices_def)
  moreover have "length (as_bytes ''/a'') = unat (rdx (sy_regs ?s))" by (simp add: as_bytes_def)
  moreover have "stdin_buf (k_console (sy_kernel ?s)) = []"
    by (simp add: sample_kernel_def boot_kernel_def sys_init_devices boot_console_def)
  ultimately show ?thesis using console_read_hangs [OF entries.gate_axioms, of ?s exec_env 2 "as_bytes ''/a''"] by (simp del: not_None_eq)
qed

end
