(* ===== verification/Calls.thy ===== *)
theory Calls
  imports Syscall_Facts
begin

text \<open>
  What a program can rely on when it makes a system call, whatever its arguments: which calls always answer, which stop the
  kernel, when \<open>SLEEP\<close> returns, and where \<open>READ\<close> stores what it reads.
\<close>

section \<open>Calls that answer\<close>

lemma finish_answers: "r \<noteq> Panic \<Longrightarrow> \<exists>v k'. finish ok r k = (Ok v, k')"
  by (cases r) (auto simp: finish_def run_simps)

lemma bad_fd_answers: "\<exists>v k'. bad_fd k = (Ok v, k')"
  by (simp add: bad_fd_def run_simps)

lemma ok_or_answers: "ok_or e x \<noteq> Panic"
  by (cases x) simp_all

lemma File_close_answers: "fst (File_close (f, k)) \<noteq> Panic"
  by (cases f) (auto simp: handle_close_def run_simps get_fs_def Device_close_def device_noop_def ok_or_answers
      split: prod.splits outcome.splits option.splits)

lemma File_seek_answers: "fst (File_seek pos (f, k)) \<noteq> Panic"
  by (cases f) (auto simp: handle_seek_def run_simps Device_seek_def device_seek_def ProcInfo_seek_def split: prod.splits)

lemma sys_close_answers: "\<exists>v k'. sys_close fd k = (Ok v, k')"
proof (cases "map_of (k_files k) fd")
  case None
  then show ?thesis using bad_fd_answers [of k] by (simp add: sys_close_def)
next
  case (Some f)
  let ?k = "k\<lparr>k_files := AList.delete fd (k_files k)\<rparr>"
  obtain r f' k1 where "File_close (f, ?k) = (r, (f', k1))" by (metis prod.collapse)
  then show ?thesis using File_close_answers [of f ?k] finish_answers [of r "\<lambda>_. 0" k1] Some by (simp add: sys_close_def)
qed

lemma sys_seek_answers: "\<exists>v k'. sys_seek fd pos k = (Ok v, k')"
proof (cases "map_of (k_files k) fd")
  case None
  then show ?thesis using bad_fd_answers [of k] by (simp add: sys_seek_def on_fd_def)
next
  case (Some f)
  obtain r f' k1 where "File_seek pos (f, k) = (r, (f', k1))" by (metis prod.collapse)
  then show ?thesis
    using File_seek_answers [of pos f k] finish_answers [of r as_isize "insert_file fd f' k1"] Some
    by (simp add: sys_seek_def on_fd_def)
qed

lemma sys_poll_answers: "\<exists>v k'. sys_poll fd event k = (Ok v, k')"
  using bad_fd_answers [of k] by (auto simp: sys_poll_def run_simps split: option.splits)

lemma returns_answers: "\<exists>v k'. m k = (Ok v, k') \<Longrightarrow> \<exists>v k'. returns m k = (Ok (Returns v), k')"
  by (auto simp: returns_def bind_def ret_def)

lemma layout_ok_iff: "layout_ok sz align \<longleftrightarrow> (\<exists>j. align = 2 ^ j) \<and> sz + align \<le> 2 ^ 63"
proof -
  have "j < 64" if "sz + 2 ^ j \<le> 2 ^ 63" for j
  proof -
    have "(2 :: nat) ^ j < 2 ^ 64" using that by simp
    then show ?thesis by (rule power_less_imp_less_exp [rotated]) simp
  qed
  then show ?thesis by (auto simp: layout_ok_def list_ex_iff)
qed

lemma sys_alloc_panics:
  "fst (sys_alloc par sz align k) = Panic \<longleftrightarrow> (layout_ok sz align \<longrightarrow> fst (e_alloc par sz align (memory (k_procs k))) = Panic)"
  by (auto simp: sys_alloc_def panic_def on_procs_def on_memory_def split: prod.splits)

lemma sys_free_panics:
  "fst (sys_free par p sz align k) = Panic \<longleftrightarrow> (layout_ok sz align \<longrightarrow> fst (e_free par p sz align (memory (k_procs k))) = Panic)"
  by (auto simp: sys_free_def panic_def on_procs_def on_memory_def split: prod.splits)

lemma bind_ret_Panic: "fst (bind m (\<lambda>x. ret (g x)) k) = Panic \<longleftrightarrow> fst (m k) = Panic"
  by (auto simp: bind_def ret_def split: prod.splits outcome.splits)

section \<open>Sleeping\<close>

text \<open>The ticks that \<open>SLEEP\<close> computes for a time in nanoseconds, within a part in a thousand of a thousand times its ticks.\<close>

definition true_ticks :: "nat \<Rightarrow> rat" where
  "true_ticks nanos = of_nat nanos / 1000000000 / (1193 / (3579545 / 3))"

lemma sleep_thousandfold:
  assumes "nanos < 2 ^ 64"
  shows "999 * true_ticks nanos - 1 \<le> of_nat (sleep_ticks (sleep_seconds nanos))"
    and "of_nat (sleep_ticks (sleep_seconds nanos)) \<le> 1001 * true_ticks nanos"
proof -
  define n :: rat where "n = of_nat nanos"
  have "n < of_nat (2 ^ 64)" unfolding n_def using assms by (simp only: of_nat_less_iff)
  then have n: "0 \<le> n" "n < 2 ^ 64" by (simp_all add: n_def)
  have a: "n * (9999 / 10000) \<le> f64 n" "f64 n \<le> n * (10001 / 10000)" using f64_rough(1) [of n n] f64_rough(2) [of n n] n by simp_all
  define sec where "sec = f64 (f64 n / 1000000)"
  have sec: "n * (9999 / 10000) / 1000000 * (9999 / 10000) \<le> sec" "sec \<le> n * (10001 / 10000) / 1000000 * (10001 / 10000)"
    unfolding sec_def using a n by (intro f64_rough; simp)+
  have "0 \<le> sec" by (simp add: sec_def)
  define q where "q = sec / PIT_INTERVAL"
  have "sec / (999848 / 10 ^ 9) \<le> q" "q \<le> sec / (999847 / 10 ^ 9)"
    unfolding q_def using \<open>0 \<le> sec\<close> by (intro divide_left_mono; simp add: PIT_INTERVAL_value)+
  then have q: "n * 9998 / 10000 / 999848 * 1000 \<le> q" "q \<le> n * 10003 / 10000 / 999847 * 1000" using sec n(1) by simp_all
  have t: "n * 9998 / 10000 / 999848 * 1000 * (9999 / 10000) \<le> f64 q" "f64 q \<le> n * 10003 / 10000 / 999847 * 1000 * (10001 / 10000)"
    using q n(1) by (intro f64_rough; simp)+
  have true: "true_ticks nanos = n * 3579545 / 3579000000000" by (simp add: true_ticks_def n_def)
  have "f64 q < 2 ^ 63" using t(2) n(2) by simp
  then have "nat \<lfloor>f64 q\<rfloor> < 2 ^ 63" by (simp add: nat_less_iff)
  then have "min usize_max (nat \<lfloor>f64 q\<rfloor>) = nat \<lfloor>f64 q\<rfloor>" by (intro min_absorb2) simp
  then have "sleep_ticks (sleep_seconds nanos) = nat \<lfloor>f64 q\<rfloor>"
    unfolding sleep_ticks_def sleep_seconds_def n_def [symmetric] sec_def [symmetric] q_def [symmetric] as_u64_def .
  moreover have "of_nat (nat \<lfloor>f64 q\<rfloor>) = (of_int \<lfloor>f64 q\<rfloor> :: rat)" by (simp add: of_nat_nat)
  moreover have "f64 q - 1 \<le> of_int \<lfloor>f64 q\<rfloor>" "of_int \<lfloor>f64 q\<rfloor> \<le> f64 q" by linarith+
  moreover have "999 * true_ticks nanos \<le> f64 q" "f64 q \<le> 1001 * true_ticks nanos" using t n(1) unfolding true by simp_all
  ultimately show "999 * true_ticks nanos - 1 \<le> of_nat (sleep_ticks (sleep_seconds nanos))"
    "of_nat (sleep_ticks (sleep_seconds nanos)) \<le> 1001 * true_ticks nanos" by linarith+
qed

text \<open>A time for which the rounding matters: the exact quotient is just below the number of ticks.\<close>

lemma sleep_rounds_up: "sleep_ticks (sleep_seconds 5667225011) = 5668088" "true_ticks 5667225011 * 1000 < 5668088"
proof -
  have ns: "f64 5667225011 = 5667225011"
    using f64_fraction [where m = 20 and n = "5667225011 * 2 ^ 20" and x = 5667225011] by simp
  have sec: "sleep_seconds 5667225011 = 6231179796817470 / 2 ^ 40"
    using f64_fraction [where m = 40 and n = 6231179796817470 and x = "5667225011 / 1000000"] by (simp add: sleep_seconds_def ns)
  have ticks: "f64 (6231179796817470 / 2 ^ 40 / PIT_INTERVAL) = 6086063147712512 / 2 ^ 30"
    using f64_fraction [where m = 30 and n = 6086063147712512 and x = "6231179796817470 / 2 ^ 40 / PIT_INTERVAL"]
    by (simp add: PIT_INTERVAL_value)
  show "sleep_ticks (sleep_seconds 5667225011) = 5668088" unfolding sec sleep_ticks_def ticks as_u64_def by simp
  show "true_ticks 5667225011 * 1000 < 5668088" by (simp add: true_ticks_def)
qed

section \<open>A machine with bytes in its memory\<close>

definition byte_memory :: "(u64 \<Rightarrow> u8) Mem_ops" where
  "byte_memory = \<lparr>mo_allocate_frame = (\<lambda>m. (Ok 0x5000, m)), mo_copy_kernel_table = (\<lambda>_ m. m),
     mo_alloc_pages = (\<lambda>_ _ _ m. (Ok (), m)), mo_free_pages = (\<lambda>_ _ _ m. m), mo_user_accessible = (\<lambda>_ _ _. False),
     mo_read = (\<lambda>a n m. map (\<lambda>i. m (a + of_nat i)) [0..<n]),
     mo_write = (\<lambda>a bs m x. if unat (x - a) < length bs then bs ! unat (x - a) else m x), mo_write_cr3 = (\<lambda>_ m. m)\<rparr>"

definition byte_env :: "(unit, unit, u64 \<Rightarrow> u8, unit) Env" where
  "byte_env = \<lparr>e_clk = (\<lambda>_. 9), e_iter = (\<lambda>_. [(0, 1)]), e_ata = (\<lambda>_ _ _ _. ret ()), e_fill = (\<lambda>_ n. (replicate n 4, ())),
     e_seed = (\<lambda>_. ()), e_heap_used = (\<lambda>_. 0), e_heap_size = (\<lambda>_. 0), e_mem = byte_memory, e_parse = (\<lambda>_. None),
     e_empty_heap = (), e_heap_init = (\<lambda>_ _ h. h), e_alloc = (\<lambda>_ _. ret 0), e_free = (\<lambda>_ _ _. ret ()),
     e_shutdown = Some, e_now = 7, e_ticks = [], e_tscs = [], e_tsc_freq = 1000000\<rparr>"

definition byte_kernel :: "filesystems \<Rightarrow> FileHandle \<Rightarrow> (unit, unit, unit, u64 \<Rightarrow> u8, unit) Kernel" where
  "byte_kernel fss h = insert_file 6 (FileFile h) (boot_kernel byte_env 0x1000 0x1000000 (\<lambda>_. 0) fss ())"

lemma byte_kernel_fields [simp]:
  "k_fss (byte_kernel fss h) = fss" "map_of (k_files (byte_kernel fss h)) 6 = Some (FileFile h)"
  "k_procs (byte_kernel fss h) = boot_procs 0x1000 () 0x1000000 (\<lambda>_. 0)"
  by (simp_all add: byte_kernel_def boot_kernel_def sys_init_devices byte_env_def)

section \<open>Properties\<close>

text \<open>
  C36. Robustness of the calls: \<open>CLOSE\<close>, \<open>GETPID\<close>, \<open>GETERRNO\<close>, \<open>POLL\<close>, \<open>TIME\<close> and \<open>SEEK\<close> answer whatever their arguments are. Seven
  calls that have a number but no implementation panic the kernel for any program that makes them, and \<open>ALLOC\<close> and \<open>FREE\<close> do so on every bad layout, when
  the alignment is no power of two or size and alignment exceed \<open>isize::MAX + 1\<close>, and on others only if the allocator panics. \<open>STOP\<close> does not
  return from a reboot, and answers an unknown type with \<open>EINVAL\<close>.
\<close>

theorem calls_answer:
  shows "(c \<in> {CLOSE, GETPID, GETERRNO, POLL, TIME, SEEK} \<longrightarrow>
      (\<exists>v k'. dispatch_call par c a1 a2 a3 a4 k = Some (Ok (Returns v), k'))) \<and>
    (c \<in> {FORK, GETTID, WAITPID, CONNECT, ACCEPT, LISTEN, KIND} \<longrightarrow> dispatch_call par c a1 a2 a3 a4 k = Some (Panic, k)) \<and>
    (fst (the (dispatch_call par ALLOC a1 a2 a3 a4 k)) = Panic \<longleftrightarrow>
      ((\<exists>j. a2 = 2 ^ j) \<and> a1 + a2 \<le> 2 ^ 63 \<longrightarrow> fst (e_alloc par a1 a2 (memory (k_procs k))) = Panic)) \<and>
    (fst (the (dispatch_call par FREE a1 a2 a3 a4 k)) = Panic \<longleftrightarrow>
      ((\<exists>j. a3 = 2 ^ j) \<and> a2 + a3 \<le> 2 ^ 63 \<longrightarrow> fst (e_free par (word_of_nat a1) a2 a3 (memory (k_procs k))) = Panic)) \<and>
    dispatch_call par STOP 1 a2 a3 a4 k = None \<and>
    dispatch_call par STOP (a1 + 2) a2 a3 a4 k = Some (Ok (Returns (-1)), set_errno EINVAL k)"
proof -
  have "dispatch_call par STOP 1 a2 a3 a4 k = None"
    "dispatch_call par STOP (a1 + 2) a2 a3 a4 k = Some (Ok (Returns (-1)), set_errno EINVAL k)"
    by (simp_all add: sys_stop_def run_simps)
  moreover have "c \<in> {CLOSE, GETPID, GETERRNO, POLL, TIME, SEEK} \<Longrightarrow> \<exists>v k'. dispatch_call par c a1 a2 a3 a4 k = Some (Ok (Returns v), k')"
    using returns_answers [where m = "sys_close a1", OF sys_close_answers, of k]
      returns_answers [where m = "sys_poll a1 a2", OF sys_poll_answers, of k]
      returns_answers [where m = "sys_seek a1 a2", OF sys_seek_answers, of k]
    by (auto simp: ret_def)
  ultimately show ?thesis
    by (auto simp: panic_def bind_ret_Panic sys_alloc_panics sys_free_panics layout_ok_iff simp del: One_nat_def)
qed

theorem calls_answer_witness:
  "(\<exists>v k'. dispatch_call sample_env SEEK 77 5 0 0 sample_kernel = Some (Ok (Returns v), k')) \<and>
    dispatch_call sample_env FORK 0 0 0 0 sample_kernel = Some (Panic, sample_kernel)"
  using calls_answer [of SEEK sample_env 77 5 0 0 sample_kernel] calls_answer [of FORK sample_env 0 0 0 0 sample_kernel] by blast

text \<open>
  C37. \<open>SLEEP\<close>: on readings of the tick counter that never fall below the first, the call returns 0 once the counter has advanced by the ticks of
  the time it computes, and still waits before. But it computes a thousand times the ticks of the nanoseconds it is given, up to the rounding of its
  floating-point operations, for every argument of 64 bits.
\<close>

theorem sleep_call_returns:
  assumes "e_ticks par = start # later" and "\<forall>t \<in> set later. start \<le> t" and "nanos < 2 ^ 64"
  shows "dispatch_call par SLEEP nanos a2 a3 a4 k =
      (if \<exists>t \<in> set later. start + sleep_ticks (sleep_seconds nanos) \<le> t then Some (Ok (Returns 0), k) else None) \<and>
    999 * true_ticks nanos - 1 \<le> of_nat (sleep_ticks (sleep_seconds nanos)) \<and>
    of_nat (sleep_ticks (sleep_seconds nanos)) \<le> 1001 * true_ticks nanos"
proof -
  have "sleep_loop start n later = (if \<exists>t \<in> set later. start + n \<le> t then Some (Ok ()) else None :: (unit, unit) outcome option)" for n
    using assms(2)
  proof (induction later)
    case (Cons now later)
    then show ?case by (cases "start + n \<le> now") (simp_all add: not_le less_diff_conv2)
  qed simp
  then show ?thesis using assms(1) sleep_thousandfold [OF assms(3)] by (simp add: timed_def sys_sleep_def clk_sleep_def)
qed

theorem sleep_call_returns_witness:
  "dispatch_call sample_env SLEEP 1000000 0 0 0 sample_kernel = Some (Ok (Returns 0), sample_kernel)"
proof -
  have "f64 1000000 = 1000000" "f64 1 = 1"
    using f64_fraction [where m = 33 and n = "1000000 * 2 ^ 33" and x = 1000000] f64_fraction [where m = 52 and n = "2 ^ 52" and x = 1]
    by simp_all
  then have ticks: "sleep_ticks (sleep_seconds 1000000) = 1000" by (simp add: sleep_seconds_def sleep_ticks_one)
  have "e_ticks sample_env = 0 # [500, 1000]" by (simp add: sample_env_def)
  from sleep_call_returns [OF this, of 1000000 0 0 0 sample_kernel] show ?thesis by (simp add: ticks)
qed

text \<open>
  C38. \<open>READ\<close> stores where it is told: an address that is not below the code of the process is used as it is, so that a program can have the bytes of
  a file written to any such address, also to one that belongs to the kernel or to another process.
\<close>

theorem read_stores_anywhere:
  assumes "stacked (k_procs k)" and "code_addr (process_table (k_procs k) ! cur_pid (k_procs k)) \<le> addr"
    and "map_of (k_files k) fd = Some (FileFile h)" and "opened (k_fss k) h md bytes" and "is_set FlagRead (fh_flags h)"
    and "file_pos h + n \<le> length bytes" and "n < 2 ^ 63" and "length (mo_read (e_mem par) addr n (memory (k_procs k))) = n"
  shows "\<exists>k'. dispatch_call par READ fd (unat addr) n a4 k = Some (Ok (Returns (int n)), k') \<and>
    memory (k_procs k') = mo_write (e_mem par) addr (take n (drop (file_pos h) bytes)) (memory (k_procs k))"
proof -
  let ?buf = "mo_read (e_mem par) addr n (memory (k_procs k))"
  have "\<not> addr < code_addr (process_table (k_procs k) ! cur_pid (k_procs k))" using assms(2) by simp
  then have ptr: "bytes_at par (unat addr) n k = (Ok (addr, ?buf) :: (unit, _) outcome)"
    by (simp add: bytes_at_def ptr_from_addr_def get_code_addr_def stacked_current [OF assms(1)])
  have min: "min n (length bytes - file_pos h) = n" using assms(6) by simp
  have "handle_read (k_fss k) ?buf h = (Ok (n, take n (drop (file_pos h) bytes)), h\<lparr>file_pos := file_pos h + n\<rparr>)"
    using handle_read_opened [OF assms(4,5), of ?buf] assms(6,8) by (simp add: Let_def min)
  then have "sys_read par fd ?buf k = Some (Ok (int n, take n (drop (file_pos h) bytes)),
      insert_file fd (FileFile (h\<lparr>file_pos := file_pos h + n\<rparr>)) k)"
    using sys_read_file [OF assms(3)] assms(7) by (simp add: as_isize_small)
  then show ?thesis using ptr by (simp add: dispatch_read_def store_bytes_def)
qed

theorem read_stores_anywhere_witness:
  "\<exists>fs k'. dispatch_call byte_env READ 6 0x5000000 3 0 (byte_kernel (k_fss (mounted fs)) (FileHandle_new ''/a'' 0 1 (flag_bits FlagRead)))
      = Some (Ok (Returns 3), k') \<and> map (memory (k_procs k')) [0x4FFFFFF, 0x5000000, 0x5000001, 0x5000002, 0x5000003] = [0, 1, 2, 3, 0]"
proof -
  have name: "valid_name ''/a''" by (simp add: valid_name_def)
  obtain fs md where fs: "direct_fs fs" "files fs (padded ''/a'') = Some (md, pad_data [1, 2, 3])"
    by (rule written_fs [OF name, of "[1, 2, 3]"]) simp_all
  define h where "h = FileHandle_new ''/a'' 0 1 (flag_bits FlagRead)"
  let ?k = "byte_kernel (k_fss (mounted fs)) h"
  have h: "file_pos h = 0" "is_set FlagRead (fh_flags h)" by (simp_all add: h_def FileHandle_new_def is_set_def)
  have opened: "opened (k_fss ?k) h md (pad_data [1, 2, 3])" using mounted_opened(2) [OF fs name] by (simp add: h_def)
  have mem: "e_mem byte_env = byte_memory" by (simp add: byte_env_def)
  have code: "stacked (k_procs ?k)" "code_addr (process_table (k_procs ?k) ! cur_pid (k_procs ?k)) \<le> 0x5000000" "memory (k_procs ?k) = (\<lambda>_. 0)"
    by (simp add: stacked_boot) (simp_all add: boot_procs_def Process_new_def MAX_PROCS_def)
  have len: "length (mo_read (e_mem byte_env) 0x5000000 3 (memory (k_procs ?k))) = 3" by (simp add: mem byte_memory_def)
  have "\<exists>k'. dispatch_call byte_env READ 6 (unat (0x5000000 :: u64)) 3 0 ?k = Some (Ok (Returns (int 3)), k') \<and>
      memory (k_procs k') = mo_write (e_mem byte_env) 0x5000000 (take 3 (drop (file_pos h) (pad_data [1, 2, 3]))) (memory (k_procs ?k))"
    by (rule read_stores_anywhere [OF code(1,2) _ opened h(2) _ _ len]) (simp_all add: h(1) pad_data_prefix)
  then obtain k' where run: "dispatch_call byte_env READ 6 0x5000000 3 0 ?k = Some (Ok (Returns 3), k')"
    and stored: "memory (k_procs k') = mo_write byte_memory 0x5000000 [1, 2, 3] (\<lambda>_. 0)"
    by (auto simp only: h(1) code(3) mem pad_data_prefix) simp
  have "map (memory (k_procs k')) [0x4FFFFFF, 0x5000000, 0x5000001, 0x5000002, 0x5000003] = [0, 1, 2, 3, 0]"
    by (simp add: stored byte_memory_def unsigned_minus_1_eq_mask mask_eq_exp_minus_1)
  with run show ?thesis unfolding h_def by (intro exI conjI)
qed

end
