(* ===== verification/Vga.thy ===== *)
theory Vga
  imports Devices
begin

text \<open>
  The text screen of \<open>kernel/src/internal/vga.rs\<close>: a buffer of 25 rows of 80 characters, of which
  the last row is written. Bytes are also sent to the serial port, which is a log here. An
  index outside the buffer panics. \<open>write_str\<close> of the writer takes the text that the formatting
  macros have made; the lock and the disabling of interrupts around each call are not visible
  in a sequence of calls.
\<close>

section \<open>Data\<close>

definition BUF_HEIGHT :: nat where
  "BUF_HEIGHT = 25"

definition BUF_WIDTH :: nat where
  "BUF_WIDTH = 80"

datatype Color = Black | Blue | Green | Cyan | Red | Magenta | Brown | LightGrey | DarkGrey | LightBlue
  | LightGreen | LightCyan | LightRed | Pink | Yellow | White

fun color_value :: "Color \<Rightarrow> u8" where
  "color_value Black = 0"
| "color_value Blue = 1"
| "color_value Green = 2"
| "color_value Cyan = 3"
| "color_value Red = 4"
| "color_value Magenta = 5"
| "color_value Brown = 6"
| "color_value LightGrey = 7"
| "color_value DarkGrey = 8"
| "color_value LightBlue = 9"
| "color_value LightGreen = 10"
| "color_value LightCyan = 11"
| "color_value LightRed = 12"
| "color_value Pink = 13"
| "color_value Yellow = 14"
| "color_value White = 15"

unbundle bit_operations_syntax

definition ColorCode_new :: "Color \<Rightarrow> Color \<Rightarrow> u8" where
  "ColorCode_new fg bg = push_bit 4 (color_value bg) OR color_value fg"

record VgaChar =
  ascii_char :: u8
  char_color :: u8

record VgaWriter =
  col_pos :: nat
  color_code :: u8
  rows :: "VgaChar list list"
  serial :: "u8 list"

text \<open>The writer on the buffer as it is found at boot.\<close>

definition VgaWriter_new :: "Color \<Rightarrow> Color \<Rightarrow> VgaChar list list \<Rightarrow> VgaWriter" where
  "VgaWriter_new fg bg buf = \<lparr>col_pos = 0, color_code = ColorCode_new fg bg, rows = buf, serial = []\<rparr>"

section \<open>Writing\<close>

definition put_char :: "nat \<Rightarrow> nat \<Rightarrow> VgaChar \<Rightarrow> (VgaWriter, unit, unit) prog" where
  "put_char row col c =
     bind (reads (\<lambda>w. obind (index (rows w) row) (\<lambda>cells. index_set cells col c))) (\<lambda>cells.
     modify (\<lambda>w. w\<lparr>rows := (rows w)[row := cells]\<rparr>))"

definition get_char :: "nat \<Rightarrow> nat \<Rightarrow> VgaWriter \<Rightarrow> (unit, VgaChar) outcome" where
  "get_char row col w = obind (index (rows w) row) (\<lambda>cells. index cells col)"

definition blank :: "VgaWriter \<Rightarrow> VgaChar" where
  "blank w = \<lparr>ascii_char = 0x20, char_color = color_code w\<rparr>"

definition clear_row :: "nat \<Rightarrow> (VgaWriter, unit, unit) prog" where
  "clear_row row =
     bind (reads (\<lambda>w. Ok (blank w))) (\<lambda>b. for_each (\<lambda>col. put_char row col b) [0..<BUF_WIDTH])"

definition copy_up :: "nat \<Rightarrow> nat \<Rightarrow> (VgaWriter, unit, unit) prog" where
  "copy_up row col = bind (reads (get_char row col)) (\<lambda>c. put_char (row - 1) col c)"

definition new_line :: "(VgaWriter, unit, unit) prog" where
  "new_line =
     bind (for_each (\<lambda>row. for_each (copy_up row) [0..<BUF_WIDTH]) [1..<BUF_HEIGHT]) (\<lambda>_.
     bind (clear_row (BUF_HEIGHT - 1)) (\<lambda>_.
     modify (\<lambda>w. w\<lparr>col_pos := 0\<rparr>)))"

text \<open>ASCII bytes go to the serial port as well.\<close>

definition logged :: "u8 \<Rightarrow> VgaWriter \<Rightarrow> VgaWriter" where
  "logged byte w = (if byte < 0x80 then w\<lparr>serial := serial w @ [byte]\<rparr> else w)"

definition erase_back :: "(VgaWriter, unit, unit) prog" where
  "erase_back w =
     (if 0 < col_pos w
      then bind (modify (\<lambda>w. w\<lparr>col_pos := col_pos w - 1\<rparr>)) (\<lambda>_.
           bind (reads Ok) (\<lambda>w. put_char (BUF_HEIGHT - 1) (col_pos w) (blank w))) w
      else ret () w)"

definition wrap_line :: "(VgaWriter, unit, unit) prog" where
  "wrap_line w = (if BUF_WIDTH \<le> col_pos w then new_line w else ret () w)"

definition type_char :: "u8 \<Rightarrow> (VgaWriter, unit, unit) prog" where
  "type_char byte =
     bind (reads Ok) (\<lambda>w.
     bind (put_char (BUF_HEIGHT - 1) (col_pos w) \<lparr>ascii_char = byte, char_color = color_code w\<rparr>) (\<lambda>_.
     modify (\<lambda>w. w\<lparr>col_pos := col_pos w + 1\<rparr>)))"

definition write_byte :: "u8 \<Rightarrow> (VgaWriter, unit, unit) prog" where
  "write_byte byte =
     bind (modify (logged byte)) (\<lambda>_.
     if byte = 0x0A then new_line
     else if byte = 0x08 then erase_back
     else bind wrap_line (\<lambda>_. type_char byte))"

text \<open>\<open>c as u8\<close> keeps the low eight bits of the code point.\<close>

definition as_u8_char :: "rchar \<Rightarrow> u8" where
  "as_u8_char c = ucast c"

definition screen_byte :: "u8 \<Rightarrow> u8" where
  "screen_byte b = (if b = 0x0A \<or> b = 0x08 \<or> 0x20 \<le> b \<and> b \<le> 0x7E then b else 0xFE)"

definition writer_write_str :: "rchar list \<Rightarrow> (VgaWriter, unit, unit) prog" where
  "writer_write_str s = for_each (\<lambda>c. write_byte (screen_byte (as_u8_char c))) s"

definition write_char :: "rchar \<Rightarrow> Color \<Rightarrow> Color \<Rightarrow> (VgaWriter, unit, unit) prog" where
  "write_char c fg bg =
     bind (reads (\<lambda>w. Ok (color_code w))) (\<lambda>old_color.
     bind (modify (\<lambda>w. w\<lparr>color_code := ColorCode_new fg bg\<rparr>)) (\<lambda>_.
     bind (write_byte (as_u8_char c)) (\<lambda>_.
     modify (\<lambda>w. w\<lparr>color_code := old_color\<rparr>))))"

definition write_str :: "rchar list \<Rightarrow> Color \<Rightarrow> Color \<Rightarrow> (VgaWriter, unit, unit) prog" where
  "write_str s fg bg = for_each (\<lambda>c. write_char c fg bg) s"

text \<open>\<open>col_pos -= 1\<close> panics at 0.\<close>

definition step_back :: "(VgaWriter, unit, unit) prog" where
  "step_back = bind (reads (\<lambda>w. usize_sub (col_pos w) 1)) (\<lambda>col. modify (\<lambda>w. w\<lparr>col_pos := col\<rparr>))"

definition clear_last_char :: "(VgaWriter, unit, unit) prog" where
  "clear_last_char w =
     (if 0 < col_pos w then bind step_back (\<lambda>_. bind (write_byte 0x20) (\<lambda>_. step_back)) w else ret () w)"

definition clear_screen :: "(VgaWriter, unit, unit) prog" where
  "clear_screen = bind (for_each clear_row [0..<BUF_HEIGHT]) (\<lambda>_. modify (\<lambda>w. w\<lparr>col_pos := 0\<rparr>))"

definition kprint_text :: "rchar list \<Rightarrow> (VgaWriter, unit, unit) prog" where
  "kprint_text s = expect_prog (writer_write_str s)"

definition kprintln_text :: "rchar list \<Rightarrow> (VgaWriter, unit, unit) prog" where
  "kprintln_text s = kprint_text (s @ [0x0A])"

text \<open>The characters of a literal.\<close>

definition ascii :: "string \<Rightarrow> rchar list" where
  "ascii = map of_char"

section \<open>The shape of the screen\<close>

definition screen_ok :: "VgaWriter \<Rightarrow> bool" where
  "screen_ok w \<longleftrightarrow> length (rows w) = BUF_HEIGHT \<and> (\<forall>r \<in> set (rows w). length r = BUF_WIDTH) \<and> col_pos w \<le> BUF_WIDTH"

lemma screen_row: "screen_ok w \<Longrightarrow> row < BUF_HEIGHT \<Longrightarrow> length (rows w ! row) = BUF_WIDTH"
  by (simp add: screen_ok_def)

lemma put_char_run:
  assumes "screen_ok w" and "row < BUF_HEIGHT" and "col < BUF_WIDTH"
  shows "put_char row col c w = (Ok (), w\<lparr>rows := (rows w)[row := (rows w ! row)[col := c]]\<rparr>)"
  using assms by (simp add: put_char_def run_simps index_def index_set_def screen_row) (simp add: screen_ok_def)

lemma screen_ok_put: "screen_ok w \<Longrightarrow> row < BUF_HEIGHT \<Longrightarrow> screen_ok (w\<lparr>rows := (rows w)[row := (rows w ! row)[col := c]]\<rparr>)"
  by (auto simp: screen_ok_def dest!: set_update_subset_insert [THEN subsetD])

text \<open>Writing a whole row, column by column.\<close>

lemma put_row:
  assumes ok: "screen_ok w" and row: "row < BUF_HEIGHT" and cells: "length cells = BUF_WIDTH"
    and step: "\<And>col w'. col < BUF_WIDTH \<Longrightarrow> screen_ok w' \<Longrightarrow>
      rows w' = (rows w)[row := take col cells @ drop col (rows w ! row)] \<Longrightarrow> color_code w' = color_code w \<Longrightarrow>
      body col w' = put_char row col (cells ! col) w'"
  shows "for_each body [0..<BUF_WIDTH] w = (Ok (), w\<lparr>rows := (rows w)[row := cells]\<rparr>)"
proof -
  let ?at = "\<lambda>n. w\<lparr>rows := (rows w)[row := take n cells @ drop n (rows w ! row)]\<rparr>"
  have len: "length (rows w ! row) = BUF_WIDTH" "row < length (rows w)" using ok row by (simp_all add: screen_ok_def)
  have "\<exists>w'. for_each body [0..<BUF_WIDTH] w = (Ok (), w') \<and> screen_ok w' \<and> w' = ?at BUF_WIDTH"
  proof (rule for_each_upt [where P = "\<lambda>n w'. screen_ok w' \<and> w' = ?at n"])
    show "screen_ok w \<and> w = ?at 0" using ok by simp
    fix col w'
    assume col: "col < BUF_WIDTH" and "screen_ok w' \<and> w' = ?at col"
    then have w': "screen_ok w'" "w' = ?at col" by blast+
    have "(take col cells @ drop col (rows w ! row))[col := cells ! col] = take (Suc col) cells @ drop (Suc col) (rows w ! row)"
      using col cells len by (simp add: list_update_append upd_conv_take_nth_drop take_Suc_conv_app_nth Cons_nth_drop_Suc [symmetric])
    then have "put_char row col (cells ! col) w' = (Ok (), ?at (Suc col))"
      using put_char_run [OF w'(1) row col, of "cells ! col"] len by (simp add: w'(2))
    moreover from this have "screen_ok (?at (Suc col))"
      using screen_ok_put [OF w'(1) row, of col "cells ! col"] put_char_run [OF w'(1) row col, of "cells ! col"] by simp
    ultimately show "\<exists>w''. body col w' = (Ok (), w'') \<and> screen_ok w'' \<and> w'' = ?at (Suc col)"
      using step [OF col] w' by simp
  qed simp
  then show ?thesis using cells len by simp
qed

lemma clear_row_run:
  assumes "screen_ok w" and "row < BUF_HEIGHT"
  shows "clear_row row w = (Ok (), w\<lparr>rows := (rows w)[row := replicate BUF_WIDTH (blank w)]\<rparr>)"
  using put_row [OF assms, of "replicate BUF_WIDTH (blank w)" "\<lambda>col. put_char row col (blank w)"]
  by (simp add: clear_row_def bind_reads)

lemma copy_row_run:
  assumes ok: "screen_ok w" and row: "Suc row < BUF_HEIGHT"
  shows "for_each (copy_up (Suc row)) [0..<BUF_WIDTH] w = (Ok (), w\<lparr>rows := (rows w)[row := rows w ! Suc row]\<rparr>)"
proof (rule put_row [OF ok])
  fix col w'
  assume "col < BUF_WIDTH" and "screen_ok w'" and "rows w' = (rows w)[row := take col (rows w ! Suc row) @ drop col (rows w ! row)]"
  moreover have "Suc row < length (rows w)" "length (rows w ! Suc row) = BUF_WIDTH" using ok row by (simp_all add: screen_ok_def)
  ultimately show "copy_up (Suc row) col w' = put_char row col (rows w ! Suc row ! col) w'"
    by (simp add: copy_up_def bind_reads get_char_def index_def)
qed (use ok row in \<open>simp_all add: screen_ok_def\<close>)

lemma new_line_run:
  assumes ok: "screen_ok w"
  shows "new_line w = (Ok (), w\<lparr>col_pos := 0, rows := tl (rows w) @ [replicate BUF_WIDTH (blank w)]\<rparr>)"
proof -
  have len: "length (rows w) = BUF_HEIGHT" using ok by (simp add: screen_ok_def)
  let ?at = "\<lambda>n. w\<lparr>rows := take (n - 1) (tl (rows w)) @ drop (n - 1) (rows w)\<rparr>"
  have "\<exists>w'. for_each (\<lambda>row. for_each (copy_up row) [0..<BUF_WIDTH]) [1..<BUF_HEIGHT] w = (Ok (), w') \<and>
      screen_ok w' \<and> w' = ?at BUF_HEIGHT"
  proof (rule for_each_upt [where P = "\<lambda>n w'. screen_ok w' \<and> w' = ?at n"])
    show "screen_ok w \<and> w = ?at 1" using ok by simp
    fix row w'
    assume "1 \<le> row" and lt: "row < BUF_HEIGHT" and "screen_ok w' \<and> w' = ?at row"
    then obtain r where r: "row = Suc r" and w': "screen_ok w'" "w' = ?at row" by (cases row) auto
    have "(rows w')[r := rows w' ! Suc r] = take (Suc r) (tl (rows w)) @ drop (Suc r) (rows w)"
      using w' lt len r by (simp add: list_update_append upd_conv_take_nth_drop take_Suc_conv_app_nth nth_append nth_tl
          Cons_nth_drop_Suc [symmetric])
    then have run: "for_each (copy_up row) [0..<BUF_WIDTH] w' = (Ok (), ?at (Suc row))"
      using copy_row_run [OF w'(1), of r] w'(2) lt r by simp
    moreover have "screen_ok (?at (Suc row))"
      using w' lt r len ok by (auto simp: screen_ok_def dest!: in_set_takeD in_set_dropD list.set_sel(2) [rotated])
    ultimately show "\<exists>w''. for_each (copy_up row) [0..<BUF_WIDTH] w' = (Ok (), w'') \<and> screen_ok w'' \<and> w'' = ?at (Suc row)"
      by blast
  qed (simp add: BUF_HEIGHT_def)
  then have up: "for_each (\<lambda>row. for_each (copy_up row) [0..<BUF_WIDTH]) [1..<BUF_HEIGHT] w = (Ok (), ?at BUF_HEIGHT)"
    and ok': "screen_ok (?at BUF_HEIGHT)" by blast+
  have "(take (BUF_HEIGHT - 1) (tl (rows w)) @ drop (BUF_HEIGHT - 1) (rows w))[BUF_HEIGHT - 1 := c] = tl (rows w) @ [c]" for c
  proof -
    have "drop (BUF_HEIGHT - 1) (rows w) = [rows w ! (BUF_HEIGHT - 1)]"
      using len Cons_nth_drop_Suc [of "BUF_HEIGHT - 1" "rows w", symmetric] by (simp add: BUF_HEIGHT_def)
    then show ?thesis using len by (simp add: list_update_append BUF_HEIGHT_def)
  qed
  then have "clear_row (BUF_HEIGHT - 1) (?at BUF_HEIGHT) = (Ok (), w\<lparr>rows := tl (rows w) @ [replicate BUF_WIDTH (blank w)]\<rparr>)"
    using clear_row_run [OF ok', of "BUF_HEIGHT - 1"] by (simp add: BUF_HEIGHT_def blank_def)
  then show ?thesis by (simp add: new_line_def bind_def up modify_def del: One_nat_def)
qed

lemma new_line_ok: "screen_ok w \<Longrightarrow> screen_ok (w\<lparr>col_pos := 0, rows := tl (rows w) @ [replicate BUF_WIDTH (blank w)]\<rparr>)"
  by (auto simp: screen_ok_def BUF_HEIGHT_def dest: list.set_sel(2) [rotated])

lemma logged_fields [simp]: "col_pos (logged b w) = col_pos w" "rows (logged b w) = rows w" "color_code (logged b w) = color_code w"
  "screen_ok (logged b w) = screen_ok w" "blank (logged b w) = blank w"
  by (simp_all add: logged_def screen_ok_def blank_def)

text \<open>A character in the last row.\<close>

definition typed :: "u8 \<Rightarrow> VgaWriter \<Rightarrow> VgaWriter" where
  "typed b w = w\<lparr>col_pos := col_pos w + 1, rows := (rows w)[BUF_HEIGHT - 1 :=
     (rows w ! (BUF_HEIGHT - 1))[col_pos w := \<lparr>ascii_char = b, char_color = color_code w\<rparr>]]\<rparr>"

lemma last_row_lt: "BUF_HEIGHT - 1 < BUF_HEIGHT"
  by (simp add: BUF_HEIGHT_def)

lemma typed_ok: "screen_ok w \<Longrightarrow> col_pos w < BUF_WIDTH \<Longrightarrow> screen_ok (typed b w)"
  using screen_ok_put [OF _ last_row_lt, of w "col_pos w"] by (simp add: typed_def screen_ok_def)

definition scrolled :: "VgaWriter \<Rightarrow> VgaWriter" where
  "scrolled w = w\<lparr>col_pos := 0, rows := tl (rows w) @ [replicate BUF_WIDTH (blank w)]\<rparr>"

definition erased :: "VgaWriter \<Rightarrow> VgaWriter" where
  "erased w = (if col_pos w = 0 then w else w\<lparr>col_pos := col_pos w - 1,
     rows := (rows w)[BUF_HEIGHT - 1 := (rows w ! (BUF_HEIGHT - 1))[col_pos w - 1 := blank w]]\<rparr>)"

definition wrapped :: "VgaWriter \<Rightarrow> VgaWriter" where
  "wrapped w = (if BUF_WIDTH \<le> col_pos w then scrolled w else w)"

lemma new_line_scrolls: "screen_ok w \<Longrightarrow> new_line w = (Ok (), scrolled w)"
  by (simp add: new_line_run scrolled_def)

lemma scrolled_ok: "screen_ok w \<Longrightarrow> screen_ok (scrolled w)"
  by (simp add: scrolled_def new_line_ok)

lemma wrapped_ok: "screen_ok w \<Longrightarrow> screen_ok (wrapped w)" "col_pos (wrapped w) < BUF_WIDTH"
  by (auto simp: wrapped_def scrolled_ok) (simp add: scrolled_def BUF_WIDTH_def)

lemma erased_ok:
  assumes "screen_ok w"
  shows "screen_ok (erased w)"
proof -
  have "col_pos w - 1 \<le> BUF_WIDTH" using assms unfolding screen_ok_def by linarith
  then show ?thesis using screen_ok_put [OF assms last_row_lt, of "col_pos w - 1" "blank w"] assms
    by (simp add: screen_ok_def erased_def)
qed

lemma erase_back_run:
  assumes "screen_ok w"
  shows "erase_back w = (Ok (), erased w)"
proof (cases "col_pos w = 0")
  case False
  let ?w = "w\<lparr>col_pos := col_pos w - 1\<rparr>"
  have "screen_ok ?w" "col_pos ?w < BUF_WIDTH" using assms False by (auto simp: screen_ok_def)
  then show ?thesis using False put_char_run [OF _ last_row_lt, of ?w "col_pos ?w" "blank ?w"]
    by (simp add: erase_back_def erased_def bind_reads blank_def)
qed (simp add: erase_back_def erased_def ret_def)

lemma type_char_run: "screen_ok w \<Longrightarrow> col_pos w < BUF_WIDTH \<Longrightarrow> type_char b w = (Ok (), typed b w)"
  using put_char_run [OF _ last_row_lt, of w "col_pos w"]
  by (simp add: type_char_def run_simps typed_def)

text \<open>What a byte does to the screen.\<close>

definition shown :: "u8 \<Rightarrow> VgaWriter \<Rightarrow> VgaWriter" where
  "shown b w = (if b = 0x0A then scrolled (logged b w)
     else if b = 0x08 then erased (logged b w)
     else typed b (wrapped (logged b w)))"

lemma write_byte_run:
  assumes "screen_ok w"
  shows "write_byte b w = (Ok (), shown b w)"
proof -
  have "wrap_line (logged b w) = (Ok (), wrapped (logged b w))"
    using assms by (simp add: wrap_line_def wrapped_def new_line_scrolls ret_def)
  then show ?thesis using assms
    by (simp add: write_byte_def shown_def new_line_scrolls erase_back_run bind_Ok [where m = wrap_line] type_char_run wrapped_ok)
qed

lemma shown_ok: "screen_ok w \<Longrightarrow> screen_ok (shown b w)"
  by (simp add: shown_def scrolled_ok erased_ok typed_ok wrapped_ok)

lemma shown_color: "color_code (shown b w) = color_code w"
  by (simp add: shown_def scrolled_def erased_def typed_def wrapped_def)

section \<open>Text\<close>

lemma write_str_run:
  "screen_ok w \<Longrightarrow> writer_write_str s w = (Ok (), fold (\<lambda>c. shown (screen_byte (as_u8_char c))) s w)"
proof (induction s arbitrary: w)
  case (Cons c s)
  then show ?case using shown_ok [of w "screen_byte (as_u8_char c)"]
    by (simp add: writer_write_str_def bind_Ok [where m = "write_byte _", OF write_byte_run])
qed (simp add: writer_write_str_def ret_def)

lemma fold_shown_ok: "screen_ok w \<Longrightarrow> screen_ok (fold (\<lambda>c. shown (screen_byte (as_u8_char c))) s w)"
  by (induction s arbitrary: w) (simp_all add: shown_ok)

lemma write_char_run:
  assumes "screen_ok w"
  shows "\<exists>w'. write_char c fg bg w = (Ok (), w') \<and> screen_ok w' \<and> color_code w' = color_code w"
proof -
  let ?w = "w\<lparr>color_code := ColorCode_new fg bg\<rparr>"
  have "screen_ok ?w" using assms by (simp add: screen_ok_def)
  then show ?thesis using shown_ok [of ?w "as_u8_char c"]
    by (simp add: write_char_def bind_reads bind_Ok [where m = "write_byte _", OF write_byte_run] modify_def screen_ok_def)
qed

lemma write_chars_run: "screen_ok w \<Longrightarrow> \<exists>w'. write_str s fg bg w = (Ok (), w') \<and> screen_ok w' \<and> color_code w' = color_code w"
proof (induction s arbitrary: w)
  case (Cons c s)
  obtain w1 where w1: "write_char c fg bg w = (Ok (), w1)" "screen_ok w1" "color_code w1 = color_code w"
    using write_char_run [OF Cons.prems] by blast
  then show ?case using Cons.IH [OF w1(2)] by (simp add: write_str_def bind_Ok [where m = "write_char c fg bg", OF w1(1)])
qed (simp add: write_str_def ret_def)

lemma clear_last_char_run:
  assumes "screen_ok w"
  shows "\<exists>w'. clear_last_char w = (Ok (), w') \<and> screen_ok w'"
proof (cases "col_pos w = 0")
  case False
  let ?w = "w\<lparr>col_pos := col_pos w - 1\<rparr>"
  have ok: "screen_ok ?w" and lt: "col_pos w - 1 < BUF_WIDTH" using assms False by (auto simp: screen_ok_def)
  have "step_back w = (Ok (), ?w)" using False by (simp add: step_back_def usize_sub_def run_simps)
  moreover have "col_pos (shown 0x20 ?w) = col_pos w" using False lt by (simp add: shown_def typed_def wrapped_def)
  then have "step_back (shown 0x20 ?w) = (Ok (), (shown 0x20 ?w)\<lparr>col_pos := col_pos w - 1\<rparr>)"
    using False by (simp add: step_back_def usize_sub_def run_simps)
  ultimately have "clear_last_char w = (Ok (), (shown 0x20 ?w)\<lparr>col_pos := col_pos w - 1\<rparr>)"
    using False write_byte_run [OF ok, of "0x20"] by (simp add: clear_last_char_def bind_def)
  then show ?thesis using shown_ok [OF ok, of "0x20"] lt by (simp add: screen_ok_def)
qed (simp add: clear_last_char_def ret_def assms)

lemma clear_rows_run:
  assumes "screen_ok w" and "n \<le> BUF_HEIGHT"
  shows "for_each clear_row [0..<n] w = (Ok (), w\<lparr>rows := replicate n (replicate BUF_WIDTH (blank w)) @ drop n (rows w)\<rparr>)"
proof -
  let ?at = "\<lambda>n. w\<lparr>rows := replicate n (replicate BUF_WIDTH (blank w)) @ drop n (rows w)\<rparr>"
  have ok: "screen_ok (?at k)" if "k \<le> BUF_HEIGHT" for k
    using assms(1) that by (auto simp: screen_ok_def dest: in_set_dropD)
  have "\<exists>w'. for_each clear_row [0..<n] w = (Ok (), w') \<and> w' = ?at n"
  proof (rule for_each_upt [where P = "\<lambda>n w'. w' = ?at n"])
    fix row w'
    assume "row < n" and w': "w' = ?at row"
    then have lt: "row < BUF_HEIGHT" using assms(2) by simp
    have "(replicate row b @ drop row (rows w))[row := b] = replicate (Suc row) b @ drop (Suc row) (rows w)" for b
      using lt assms(1) Cons_nth_drop_Suc [of row "rows w"]
      by (simp add: list_update_append screen_ok_def replicate_append_same [symmetric] flip: Cons_nth_drop_Suc)
    then show "\<exists>w''. clear_row row w' = (Ok (), w'') \<and> w'' = ?at (Suc row)"
      using clear_row_run [OF ok lt] lt by (simp add: w' blank_def)
  qed simp_all
  then show ?thesis by blast
qed

lemma clear_screen_run:
  assumes "screen_ok w"
  shows "clear_screen w = (Ok (), w\<lparr>rows := replicate BUF_HEIGHT (replicate BUF_WIDTH (blank w)), col_pos := 0\<rparr>)"
  using clear_rows_run [OF assms order_refl] assms
  by (simp add: clear_screen_def bind_Ok [where m = "for_each clear_row _"] modify_def screen_ok_def)

text \<open>Printable characters fill the last row from the position of the writer on.\<close>

definition printable :: "rchar \<Rightarrow> bool" where
  "printable c \<longleftrightarrow> 0x20 \<le> c \<and> c \<le> 0x7E"

definition cell :: "u8 \<Rightarrow> rchar \<Rightarrow> VgaChar" where
  "cell color c = \<lparr>ascii_char = as_u8_char c, char_color = color\<rparr>"

lemma printable_byte:
  assumes "printable c"
  shows "screen_byte (as_u8_char c) = as_u8_char c" and "as_u8_char c \<noteq> 0x0A" and "as_u8_char c \<noteq> 0x08"
proof -
  have "unat (as_u8_char c) = unat c"
    using assms by (simp add: printable_def as_u8_char_def word_le_nat_alt unsigned_ucast_eq take_bit_nat_eq_self)
  then have "0x20 \<le> unat (as_u8_char c)" "unat (as_u8_char c) \<le> 0x7E"
    using assms by (simp_all add: printable_def word_le_nat_alt)
  then show "screen_byte (as_u8_char c) = as_u8_char c" "as_u8_char c \<noteq> 0x0A" "as_u8_char c \<noteq> 0x08"
    by (auto simp: screen_byte_def word_le_nat_alt)
qed

lemma fold_printable:
  assumes "screen_ok w" and "col_pos w + length s \<le> BUF_WIDTH" and "\<And>c. c \<in> set s \<Longrightarrow> printable c"
  shows "let w' = fold (\<lambda>c. shown (screen_byte (as_u8_char c))) s w; row = rows w ! (BUF_HEIGHT - 1) in
    screen_ok w' \<and> col_pos w' = col_pos w + length s \<and> color_code w' = color_code w \<and>
    rows w' = (rows w)[BUF_HEIGHT - 1 := take (col_pos w) row @ map (cell (color_code w)) s @ drop (col_pos w + length s) row]"
  using assms
proof (induction s arbitrary: w)
  case Nil
  then show ?case by (simp add: Let_def)
next
  case (Cons c s)
  let ?b = "as_u8_char c" and ?last = "BUF_HEIGHT - 1"
  have shown: "shown (screen_byte ?b) w = typed ?b (logged ?b w)"
    using printable_byte [of c] Cons.prems by (simp add: shown_def wrapped_def)
  have ok: "screen_ok (typed ?b (logged ?b w))" using Cons.prems by (intro typed_ok) simp_all
  have "let w' = fold (\<lambda>c. shown (screen_byte (as_u8_char c))) s (typed ?b (logged ?b w));
      row = rows (typed ?b (logged ?b w)) ! ?last; p = col_pos (typed ?b (logged ?b w)) in
    screen_ok w' \<and> col_pos w' = p + length s \<and> color_code w' = color_code (typed ?b (logged ?b w)) \<and>
    rows w' = (rows (typed ?b (logged ?b w)))[?last := take p row @ map (cell (color_code (typed ?b (logged ?b w)))) s @ drop (p + length s) row]"
    using Cons.IH [OF ok] Cons.prems by (simp add: typed_def Let_def)
  moreover have "take (Suc p) (row[p := x]) @ ys @ drop (Suc p + n) (row[p := x]) = take p row @ x # ys @ drop (Suc p + n) row"
    if "p < length row" for p row ys n and x :: VgaChar
    using that by (simp add: take_Suc_conv_app_nth)
  moreover have "?last < length (rows w)" "col_pos w < length (rows w ! ?last)"
    using Cons.prems screen_row [OF Cons.prems(1) last_row_lt] by (simp_all add: screen_ok_def BUF_HEIGHT_def)
  ultimately show ?case
    by (simp add: shown Let_def) (simp add: typed_def cell_def)
qed

lemma kprintln_run:
  assumes "screen_ok w"
  shows "\<exists>w'. kprintln_text s w = (Ok (), w') \<and> screen_ok w'"
  using write_str_run [OF assms, of "s @ [0x0A]"] fold_shown_ok [OF assms, of "s @ [0x0A]"]
  by (auto simp: kprintln_text_def kprint_text_def expect_prog_def screen_ok_def)

lemma line_printed:
  assumes "screen_ok w" and "length s \<le> BUF_WIDTH" and "\<And>c. c \<in> set s \<Longrightarrow> printable c"
  shows "\<exists>w'. writer_write_str ([0x0A] @ s @ [0x0A]) w = (Ok (), w') \<and> col_pos w' = 0 \<and>
    rows w' = drop 2 (rows w) @ [map (cell (color_code w)) s @ replicate (BUF_WIDTH - length s) (blank w),
      replicate BUF_WIDTH (blank w)]"
proof -
  let ?b = "screen_byte (as_u8_char 0x0A)"
  have b: "?b = 0x0A" by (simp add: as_u8_char_def screen_byte_def)
  let ?w1 = "scrolled (logged 0x0A w)"
  have ok1: "screen_ok ?w1" using assms(1) by (simp add: scrolled_ok)
  have w1: "col_pos ?w1 = 0" "color_code ?w1 = color_code w" "rows ?w1 = tl (rows w) @ [replicate BUF_WIDTH (blank w)]"
    by (simp_all add: scrolled_def blank_def)
  have len: "length (tl (rows w)) = BUF_HEIGHT - 1" using assms(1) by (simp add: screen_ok_def)
  define w2 where "w2 = fold (\<lambda>c. shown (screen_byte (as_u8_char c))) s ?w1"
  have w2: "color_code w2 = color_code w"
    "rows w2 = tl (rows w) @ [map (cell (color_code w)) s @ replicate (BUF_WIDTH - length s) (blank w)]"
    using fold_printable [OF ok1, of s] assms(2,3) len w1 by (simp_all add: Let_def w2_def nth_append list_update_append)
  have "writer_write_str ([0x0A] @ s @ [0x0A]) w = (Ok (), scrolled (logged 0x0A w2))"
    using write_str_run [OF assms(1), of "[0x0A] @ s @ [0x0A]"] by (simp add: b w2_def shown_def)
  moreover have "tl (rows w) \<noteq> []" using len by (auto simp: BUF_HEIGHT_def dest: arg_cong [where f = length] simp del: length_tl)
  ultimately show ?thesis using w2 by (auto simp: scrolled_def blank_def drop_Suc numeral_2_eq_2)
qed

section \<open>Properties\<close>

text \<open>
  C21. The screen is safe: from a buffer of 25 rows of 80 characters and a position of at most
  80, printing any text, coloured text, erasing the last character and clearing the screen
  end without an index out of bounds and keep the shape.
\<close>

theorem screen_safe:
  assumes "screen_ok w"
  shows "(\<exists>w'. kprintln_text s w = (Ok (), w') \<and> screen_ok w') \<and> (\<exists>w'. write_str s fg bg w = (Ok (), w') \<and> screen_ok w') \<and>
    (\<exists>w'. clear_last_char w = (Ok (), w') \<and> screen_ok w') \<and> (\<exists>w'. clear_screen w = (Ok (), w') \<and> screen_ok w')"
  using kprintln_run [OF assms] write_chars_run [OF assms, of s fg bg] clear_last_char_run [OF assms] clear_screen_run [OF assms]
  by (auto simp: screen_ok_def)

text \<open>
  C23. A printed line: after a line feed, a text of at most 80 printable characters and another
  line feed, the screen has scrolled by two rows, the last row but one shows the text followed
  by blanks, and the last row is blank.
\<close>

theorem line_shown:
  assumes "screen_ok w" and "length s \<le> BUF_WIDTH" and "\<And>c. c \<in> set s \<Longrightarrow> printable c"
  shows "\<exists>w'. writer_write_str ([0x0A] @ s @ [0x0A]) w = (Ok (), w') \<and> col_pos w' = 0 \<and>
    rows w' = drop 2 (rows w) @ [map (cell (color_code w)) s @ replicate (BUF_WIDTH - length s) (blank w),
      replicate BUF_WIDTH (blank w)]"
  using assms by (rule line_printed)

definition sample_writer :: VgaWriter where
  "sample_writer = VgaWriter_new White Black (replicate BUF_HEIGHT (replicate BUF_WIDTH \<lparr>ascii_char = 0, char_color = 0\<rparr>))"

lemma sample_writer_ok: "screen_ok sample_writer"
  by (simp add: screen_ok_def sample_writer_def VgaWriter_new_def)

theorem screen_safe_witness: "\<exists>w'. kprintln_text [0x48, 0x69] sample_writer = (Ok (), w') \<and> screen_ok w'"
  using screen_safe [OF sample_writer_ok, of "[0x48, 0x69]"] by blast

theorem line_shown_witness:
  "\<exists>w'. writer_write_str ([0x0A] @ [0x48, 0x69] @ [0x0A]) sample_writer = (Ok (), w') \<and>
    take 2 (rows w' ! 23) = [\<lparr>ascii_char = 0x48, char_color = 15\<rparr>, \<lparr>ascii_char = 0x69, char_color = 15\<rparr>]"
proof -
  have "\<exists>w'. writer_write_str ([0x0A] @ [0x48, 0x69] @ [0x0A]) sample_writer = (Ok (), w') \<and> col_pos w' = 0 \<and>
    rows w' = drop 2 (rows sample_writer) @ [map (cell (color_code sample_writer)) [0x48, 0x69] @
      replicate (BUF_WIDTH - length [0x48 :: rchar, 0x69]) (blank sample_writer), replicate BUF_WIDTH (blank sample_writer)]"
    using sample_writer_ok by (rule line_shown) (auto simp: BUF_WIDTH_def printable_def)
  moreover have "length (drop 2 (rows sample_writer)) = 23" "color_code sample_writer = 15"
    by (simp_all add: sample_writer_def VgaWriter_new_def BUF_HEIGHT_def ColorCode_new_def)
  ultimately show ?thesis by (auto simp: nth_append cell_def as_u8_char_def)
qed

end
