(* ===== verification/Tests.thy ===== *)
theory Tests
  imports Syscall_Facts Vga
begin

text \<open>
  The test cases of the kernel (\<open>#[test_case]\<close> in \<open>fs.rs\<close>, \<open>devices\<close>, \<open>vga.rs\<close> and \<open>syscall/service.rs\<close>) as programs over
  the model, and that they pass. An assertion that fails and an \<open>unwrap\<close> of an error panic.

  The cases that only allocate (\<open>kernel/tests/alloc.rs\<close>) test the collections of the language, and
  \<open>test_breakpoint_exception\<close> that the processor returns from a breakpoint; they are not modelled.
\<close>

section \<open>Filesystem\<close>

definition assert :: "bool \<Rightarrow> ('s, 'e, unit) prog" where
  "assert b = (if b then ret () else panic)"

text \<open>The filesystem that every test starts with: 1024 blank inodes and blocks on bus 0, drive 0.\<close>

definition test_fs :: VirtFs where
  "test_fs = \<lparr>phys_fs = \<lparr>
       superblock = \<lparr>magic_number = MAGIC_NUMBER, disk_size = 1024, inode_table_size = 1024,
         data_block_size = 512, num_inodes = 1024, num_data_blocks = 1024\<rparr>,
       inode_table = replicate 1024 \<lparr>in_num_data_blocks = 0, data_block_pointers = replicate 12 0,
         single_indirect_block_pointer = 0, double_indirect_block_pointer = 0,
         triple_indirect_block_pointer = 0, file_name = replicate 384 0\<rparr>,
       data_blocks = replicate 1024 \<lparr>block_data = replicate 512 0\<rparr>\<rparr>,
     vf_bus = 0, vf_dsk = 0, open_files = []\<rparr>"

definition insert_fs :: "VirtFs \<Rightarrow> (filesystems, unit, unit) prog" where
  "insert_fs fs = modify (\<lambda>fss. fss((0, 0) \<mapsto> fs))"

definition remove_fs :: "(filesystems, unit, unit) prog" where
  "remove_fs = modify (\<lambda>fss. fss((0, 0) := None))"

definition test_create_file :: "(nat \<Rightarrow> u64) \<Rightarrow> (filesystems, unit, unit) prog" where
  "test_create_file clk =
     bind (insert_fs test_fs) (\<lambda>_.
     bind (expect_prog (vfs_open clk (0, 0) ''test.txt'' ALL_FLAGS)) (\<lambda>_.
     bind (expect_prog (reads (\<lambda>fss. vfs_exists fss (0, 0) ''test.txt''))) (\<lambda>found. assert found)))"

definition write_handle :: "(nat \<Rightarrow> u64) \<Rightarrow> u8 list \<Rightarrow> FileHandle \<Rightarrow> (filesystems, FileError, nat) prog" where
  "write_handle clk buf h fss = (case handle_write clk buf (h, fss) of (r, (_, fss')) \<Rightarrow> (r, fss'))"

definition test_write_file :: "(nat \<Rightarrow> u64) \<Rightarrow> (filesystems, unit, unit) prog" where
  "test_write_file clk = (case create_file clk ''test.txt'' (0, 0, 0) 0 (phys_fs test_fs) of (created, phys) \<Rightarrow>
     bind (reads (\<lambda>_. expect created)) (\<lambda>_.
     bind (insert_fs (test_fs\<lparr>phys_fs := phys\<rparr>)) (\<lambda>_.
     let data = as_bytes ''Hello, world!'' in
     bind (expect_prog (vfs_open clk (0, 0) ''test.txt'' (flag_bits FlagWrite))) (\<lambda>h.
     bind (expect_prog (write_handle clk data h)) (\<lambda>_.
     bind (expect_prog (vfs_open clk (0, 0) ''test.txt'' (flag_bits FlagRead))) (\<lambda>h.
     bind (reads (\<lambda>fss. expect (fst (handle_read fss (replicate 512 0) h)))) (\<lambda>(_, buf).
     bind (reads (\<lambda>_. slice buf 0 (length data))) (\<lambda>start.
     bind (assert (start = data)) (\<lambda>_. remove_fs)))))))))"

definition test_chmod_file :: "(nat \<Rightarrow> u64) \<Rightarrow> (filesystems, unit, unit) prog" where
  "test_chmod_file clk =
     bind (insert_fs test_fs) (\<lambda>_.
     bind (expect_prog (vfs_open clk (0, 0) ''test.txt'' ALL_FLAGS)) (\<lambda>_.
     bind (expect_prog (vfs_chmod (0, 0) ''test.txt'' (1, 1, 1))) (\<lambda>_.
     bind (expect_prog (reads (\<lambda>fss. vfs_get_perms fss (0, 0) ''test.txt''))) (\<lambda>perms.
     assert (perms = [1, 1, 1])))))"

definition test_chown_file :: "(nat \<Rightarrow> u64) \<Rightarrow> (filesystems, unit, unit) prog" where
  "test_chown_file clk =
     bind (insert_fs test_fs) (\<lambda>_.
     bind (expect_prog (vfs_open clk (0, 0) ''test.txt'' ALL_FLAGS)) (\<lambda>_.
     bind (expect_prog (vfs_chown (0, 0) ''test.txt'' 1)) (\<lambda>_.
     bind (expect_prog (reads (\<lambda>fss. vfs_get_owner fss (0, 0) ''test.txt''))) (\<lambda>own.
     bind (assert (own = 1)) (\<lambda>_. remove_fs)))))"

definition test_delete_file :: "(nat \<Rightarrow> u64) \<Rightarrow> (filesystems, unit, unit) prog" where
  "test_delete_file clk =
     bind (insert_fs test_fs) (\<lambda>_.
     bind (expect_prog (vfs_open clk (0, 0) ''test.txt'' ALL_FLAGS)) (\<lambda>_.
     bind (expect_prog (vfs_delete (0, 0) ''test.txt'')) (\<lambda>_.
     bind (expect_prog (reads (\<lambda>fss. vfs_exists fss (0, 0) ''test.txt''))) (\<lambda>found.
     bind (assert (found = False)) (\<lambda>_. remove_fs)))))"

section \<open>Devices\<close>

definition test_null :: "(unit, unit) outcome" where
  "test_null = (let null = Null_new (flags_bitor FlagRead FlagWrite); buf = replicate 10 0 in
     obind (expect (Null_read null buf)) (\<lambda>(n, buf). if n \<noteq> 0 then Panic else
     obind (expect (Null_write null buf)) (\<lambda>n. if n \<noteq> 10 then Panic else
     obind (expect device_noop) (\<lambda>_. expect device_noop))))"

definition test_zero :: "(unit, unit) outcome" where
  "test_zero = (let zero = Zero_new (flags_bitor FlagRead FlagWrite); buf = replicate 10 0 in
     obind (expect (Zero_read zero buf)) (\<lambda>(n, buf). if n \<noteq> 10 then Panic else
     if list_all (\<lambda>x. x = 0) buf \<noteq> True then Panic else
     obind (expect (Zero_write zero buf)) (\<lambda>n. if n \<noteq> 10 then Panic else
     obind (expect device_noop) (\<lambda>_. expect device_noop))))"

text \<open>\<open>unwrap_err\<close> panics on a success.\<close>

definition unwrap_err :: "('e, 'a) outcome \<Rightarrow> ('f, 'e) outcome" where
  "unwrap_err r = (case r of Err e \<Rightarrow> Ok e | _ \<Rightarrow> Panic)"

definition test_rand :: "(u64 \<Rightarrow> 'r) \<Rightarrow> ('r \<Rightarrow> nat \<Rightarrow> u8 list \<times> 'r) \<Rightarrow> u64 \<Rightarrow> (unit, unit) outcome" where
  "test_rand seed_from_u64 fill_bytes now =
     (case Rand_read fill_bytes (replicate 10 0) (Rand_new seed_from_u64 now (flags_bitor FlagRead FlagWrite)) of (r, rand) \<Rightarrow>
     obind (expect r) (\<lambda>(n, buf). if n \<noteq> 10 then Panic else
     if list_all (\<lambda>x. x = 0) buf \<noteq> False then Panic else
     obind (unwrap_err (Rand_write rand buf)) (\<lambda>e. if e \<noteq> WriteError (inner_from FsUnwritableFile) then Panic else
     obind (expect device_noop) (\<lambda>_. expect device_noop))))"

section \<open>Screen and allocator\<close>

definition test_single_kprintln :: "(VgaWriter, unit, unit) prog" where
  "test_single_kprintln = kprintln_text (ascii ''test_kprintln_simple output'')"

definition test_many_kprintln :: "(VgaWriter, unit, unit) prog" where
  "test_many_kprintln = for_each (\<lambda>_. kprintln_text (ascii ''test_kprintln_many output'')) [0..<200]"

definition test_kprintln_output :: "(VgaWriter, unit, unit) prog" where
  "test_kprintln_output = (let s = ascii ''Hello world! Enjoy some numbers: 42 '' in
     bind (expect_prog (writer_write_str ([0x0A] @ s @ [0x0A]))) (\<lambda>_.
     for_each (\<lambda>(i, c). bind (reads (get_char (BUF_HEIGHT - 2) i)) (\<lambda>screen_char.
       assert (ucast (ascii_char screen_char) = c))) (enumerate 0 s)))"

definition test_alloc_free :: "('r, 'h, 'm, 'd) Env \<Rightarrow> (('r, 'f, 'h, 'm, 'd) Kernel, unit, unit) prog" where
  "test_alloc_free par =
     bind (sys_alloc par 1024 1) (\<lambda>heap_value.
     bind (assert (heap_value \<noteq> 0)) (\<lambda>_. sys_free par heap_value 1024 1))"

section \<open>Lemmas\<close>

lemma test_fs_blank: "direct_fs (phys_fs test_fs)" "files (phys_fs test_fs) = Map.empty" "card (free_blocks (phys_fs test_fs)) = 1023"
  using blank_fs [of "phys_fs test_fs" 1024 1024] by (simp_all add: test_fs_def default_Inode_def zero_block_def)

lemma test_fs_room: "room (phys_fs test_fs)"
proof -
  have "default_Inode \<in> set (inode_table (phys_fs test_fs))" by (simp add: test_fs_def default_Inode_def)
  moreover have "free_blocks (phys_fs test_fs) \<noteq> {}" using test_fs_blank(3) by auto
  moreover have "length (inode_table (phys_fs test_fs)) = unat (num_inodes (superblock (phys_fs test_fs)))"
    by (simp add: test_fs_def)
  ultimately show ?thesis using not_live_default unfolding room_def by blast
qed

lemma test_name: "valid_name ''test.txt''"
  by (simp add: valid_name_def)

lemma vfs_exists_files:
  assumes "fss key = Some fs" and "valid_name name"
  shows "vfs_exists fss key name = Ok (padded name \<in> dom (files (phys_fs fs)))"
  using assms padded_neq_no_name [OF assms(2)]
  by (auto simp: vfs_exists_def find_inode_by_name_slot valid_name_def files_def dom_def split: option.splits)

lemma vfs_open_creates:
  assumes "fss key = Some fs" and "direct_fs (phys_fs fs)" and "valid_name name" and "files (phys_fs fs) (padded name) = None"
    and "room (phys_fs fs)" and "is_set FlagCreate flags"
  obtains p where "vfs_open clk key name flags fss =
      (Ok (FileHandle_new name (fst key) (snd key) flags), fss(key \<mapsto> fs\<lparr>phys_fs := p\<rparr>))"
    and "direct_fs p" and "files p = (files (phys_fs fs))(padded name \<mapsto> (new_metadata clk (6, 6, 6) 0, []))"
proof -
  obtain p where p: "create_file clk name (6, 6, 6) 0 (phys_fs fs) = (Ok (), p)" "direct_fs p"
    "files p = (files (phys_fs fs))(padded name \<mapsto> (new_metadata clk (6, 6, 6) 0, []))"
    using phys.cr_law [OF assms(2-5)] by blast
  have "read_file (phys_fs fs) name = Err FsFileNotFound" "read_file p name = Ok ([], new_metadata clk (6, 6, 6) 0)"
    using assms(2-4) p(2,3) by (simp_all add: read_file_files)
  then have "vfs_open clk key name flags fss =
      (Ok (FileHandle_new name (fst key) (snd key) flags), fss(key \<mapsto> fs\<lparr>phys_fs := p\<rparr>))"
    using assms(1,6) p(1) by (simp add: vfs_open_def run_simps get_fs_def on_phys_def FileHandle_new_def Let_def fun_upd_idem)
  then show thesis using that p by blast
qed

lemma vfs_open_found:
  assumes "fss key = Some fs" and "direct_fs (phys_fs fs)" and "valid_name name" and "files (phys_fs fs) (padded name) \<noteq> None"
    and "\<not> is_set FlagAppend flags"
  shows "vfs_open clk key name flags fss = (Ok (FileHandle_new name (fst key) (snd key) flags), fss)"
  using assms by (auto simp: vfs_open_def run_simps get_fs_def read_file_files)

lemma test_opens:
  obtains p where "vfs_open clk (0, 0) ''test.txt'' ALL_FLAGS (fss((0, 0) \<mapsto> test_fs)) =
      (Ok (FileHandle_new ''test.txt'' 0 0 ALL_FLAGS), fss((0, 0) \<mapsto> test_fs\<lparr>phys_fs := p\<rparr>))"
    and "direct_fs p" and "files p = [padded ''test.txt'' \<mapsto> (new_metadata clk (6, 6, 6) 0, [])]"
proof -
  have "is_set FlagCreate ALL_FLAGS" by (simp add: is_set_def ALL_FLAGS_def)
  moreover have "files (phys_fs test_fs) (padded ''test.txt'') = None" by (simp add: test_fs_blank)
  ultimately show thesis
    using vfs_open_creates [OF _ test_fs_blank(1) test_name _ test_fs_room, of "fss((0, 0) \<mapsto> test_fs)" "(0, 0)" ALL_FLAGS clk] that
    by (auto simp: test_fs_blank)
qed

lemma assert_True [simp]: "assert True s = (Ok (), s)"
  by (simp add: assert_def ret_def)

lemma expect_step: "bind (expect_prog m) f s = (case m s of
    (Ok x, s') \<Rightarrow> f x s' | (Err e, s') \<Rightarrow> (Panic, s') | (Panic, s') \<Rightarrow> (Panic, s'))"
  by (simp add: bind_def expect_prog_def split: prod.split outcome.split)

lemma assert_step: "bind (assert b) f s = (if b then f () s else (Panic, s))"
  by (simp add: assert_def bind_def ret_def panic_def)

lemmas test_steps = insert_fs_def remove_fs_def modify_def expect_step assert_step

section \<open>The tests pass\<close>

lemma test_create_file_passes: "\<exists>fss'. test_create_file clk fss = (Ok (), fss')"
proof -
  obtain p where p: "vfs_open clk (0, 0) ''test.txt'' ALL_FLAGS (fss((0, 0) \<mapsto> test_fs)) =
      (Ok (FileHandle_new ''test.txt'' 0 0 ALL_FLAGS), fss((0, 0) \<mapsto> test_fs\<lparr>phys_fs := p\<rparr>))"
    "files p = [padded ''test.txt'' \<mapsto> (new_metadata clk (6, 6, 6) 0, [])]"
    by (rule test_opens)
  have "vfs_exists (fss((0, 0) \<mapsto> test_fs\<lparr>phys_fs := p\<rparr>)) (0, 0) ''test.txt'' = Ok True"
    by (subst vfs_exists_files [OF _ test_name, of _ _ "test_fs\<lparr>phys_fs := p\<rparr>"]) (simp_all add: p(2))
  then show ?thesis by (simp add: test_create_file_def test_steps reads_def p(1))
qed

lemma test_chmod_file_passes: "\<exists>fss'. test_chmod_file clk fss = (Ok (), fss')"
proof -
  let ?f = "\<lambda>md. md\<lparr>permissions := perms_bits (1, 1, 1)\<rparr>"
  obtain p where p: "vfs_open clk (0, 0) ''test.txt'' ALL_FLAGS (fss((0, 0) \<mapsto> test_fs)) =
      (Ok (FileHandle_new ''test.txt'' 0 0 ALL_FLAGS), fss((0, 0) \<mapsto> test_fs\<lparr>phys_fs := p\<rparr>))"
    "direct_fs p" "files p = [padded ''test.txt'' \<mapsto> (new_metadata clk (6, 6, 6) 0, [])]"
    by (rule test_opens)
  obtain q where q: "change_metadata ?f ''test.txt'' p = (Ok (), q)" "direct_fs q"
    "files q = (files p)(padded ''test.txt'' \<mapsto> (?f (new_metadata clk (6, 6, 6) 0), []))"
    by (rule change_metadata_refines [OF p(2) test_name]) (simp add: p(3))
  have "vfs_chmod (0, 0) ''test.txt'' (1, 1, 1) (fss((0, 0) \<mapsto> test_fs\<lparr>phys_fs := p\<rparr>)) = (Ok (), fss((0, 0) \<mapsto> test_fs\<lparr>phys_fs := q\<rparr>))"
    using q(1) by (simp add: vfs_chmod_def on_phys_def)
  moreover have "get_metadata q ''test.txt'' = Ok (?f (new_metadata clk (6, 6, 6) 0))"
    by (rule get_metadata_files [OF q(2) test_name, of _ "[]"]) (simp add: q(3))
  then have "vfs_get_perms (fss((0, 0) \<mapsto> test_fs\<lparr>phys_fs := q\<rparr>)) (0, 0) ''test.txt'' = Ok [1, 1, 1]"
    by (simp add: vfs_get_perms_def get_fs_def perms_bits_bytes del: perms_bits.simps)
  ultimately show ?thesis
    by (simp add: test_chmod_file_def test_steps reads_def p(1))
qed

lemma test_chown_file_passes: "\<exists>fss'. test_chown_file clk fss = (Ok (), fss')"
proof -
  let ?f = "\<lambda>md. md\<lparr>md_owner := 1\<rparr>"
  obtain p where p: "vfs_open clk (0, 0) ''test.txt'' ALL_FLAGS (fss((0, 0) \<mapsto> test_fs)) =
      (Ok (FileHandle_new ''test.txt'' 0 0 ALL_FLAGS), fss((0, 0) \<mapsto> test_fs\<lparr>phys_fs := p\<rparr>))"
    "direct_fs p" "files p = [padded ''test.txt'' \<mapsto> (new_metadata clk (6, 6, 6) 0, [])]"
    by (rule test_opens)
  obtain q where q: "change_metadata ?f ''test.txt'' p = (Ok (), q)" "direct_fs q"
    "files q = (files p)(padded ''test.txt'' \<mapsto> (?f (new_metadata clk (6, 6, 6) 0), []))"
    by (rule change_metadata_refines [OF p(2) test_name]) (simp add: p(3))
  have "vfs_chown (0, 0) ''test.txt'' 1 (fss((0, 0) \<mapsto> test_fs\<lparr>phys_fs := p\<rparr>)) = (Ok (), fss((0, 0) \<mapsto> test_fs\<lparr>phys_fs := q\<rparr>))"
    using q(1) by (simp add: vfs_chown_def on_phys_def)
  moreover have "get_metadata q ''test.txt'' = Ok (?f (new_metadata clk (6, 6, 6) 0))"
    by (rule get_metadata_files [OF q(2) test_name, of _ "[]"]) (simp add: q(3))
  then have "vfs_get_owner (fss((0, 0) \<mapsto> test_fs\<lparr>phys_fs := q\<rparr>)) (0, 0) ''test.txt'' = Ok 1"
    by (simp add: vfs_get_owner_def get_fs_def)
  ultimately show ?thesis
    by (simp add: test_chown_file_def test_steps reads_def p(1))
qed

lemma test_delete_file_passes: "\<exists>fss'. test_delete_file clk fss = (Ok (), fss')"
proof -
  obtain p where p: "vfs_open clk (0, 0) ''test.txt'' ALL_FLAGS (fss((0, 0) \<mapsto> test_fs)) =
      (Ok (FileHandle_new ''test.txt'' 0 0 ALL_FLAGS), fss((0, 0) \<mapsto> test_fs\<lparr>phys_fs := p\<rparr>))"
    "direct_fs p" "files p = [padded ''test.txt'' \<mapsto> (new_metadata clk (6, 6, 6) 0, [])]"
    by (rule test_opens)
  obtain q where q: "phys_delete ''test.txt'' p = (Ok (), q)" "files q = (files p)(padded ''test.txt'' := None)"
    by (rule phys_delete_refines [OF p(2) test_name]) (simp_all add: p(3))
  have "vfs_delete (0, 0) ''test.txt'' (fss((0, 0) \<mapsto> test_fs\<lparr>phys_fs := p\<rparr>)) = (Ok (), fss((0, 0) \<mapsto> test_fs\<lparr>phys_fs := q\<rparr>))"
    using q(1) by (simp add: vfs_delete_def on_phys_def)
  moreover have "vfs_exists (fss((0, 0) \<mapsto> test_fs\<lparr>phys_fs := q\<rparr>)) (0, 0) ''test.txt'' = Ok False"
    by (subst vfs_exists_files [OF _ test_name, of _ _ "test_fs\<lparr>phys_fs := q\<rparr>"]) (simp_all add: p(3) q(2))
  ultimately show ?thesis
    by (simp add: test_delete_file_def test_steps reads_def p(1))
qed

lemma test_write_file_passes: "\<exists>fss'. test_write_file clk fss = (Ok (), fss')"
proof -
  let ?data = "as_bytes ''Hello, world!''" and ?w = "FileHandle_new ''test.txt'' 0 0 (flag_bits FlagWrite)"
  let ?r = "FileHandle_new ''test.txt'' 0 0 (flag_bits FlagRead)" and ?md = "new_metadata clk (0, 0, 0) 0"
  have room: "files (phys_fs test_fs) (padded ''test.txt'') = None" by (simp add: test_fs_blank)
  obtain i where i: "i \<in> set (inode_table (phys_fs test_fs))" "\<not> live i" and table: "free_blocks (phys_fs test_fs) \<noteq> {}"
      "length (inode_table (phys_fs test_fs)) = unat (num_inodes (superblock (phys_fs test_fs)))"
    using test_fs_room by (auto simp: room_def)
  obtain p where p: "create_file clk ''test.txt'' (0, 0, 0) 0 (phys_fs test_fs) = (Ok (), p)" "direct_fs p"
    "files p = (files (phys_fs test_fs))(padded ''test.txt'' \<mapsto> (?md, []))"
    "card (free_blocks (phys_fs test_fs)) \<le> card (free_blocks p) + 1"
    using create_file_refines [OF test_fs_blank(1) test_name room table i] by metis
  let ?fss = "fss((0, 0) \<mapsto> test_fs\<lparr>phys_fs := p\<rparr>)"
  have open1: "vfs_open clk (0, 0) ''test.txt'' (flag_bits FlagWrite) ?fss = (Ok ?w, ?fss)"
    using vfs_open_found [OF _ _ test_name, of ?fss "(0, 0)" "test_fs\<lparr>phys_fs := p\<rparr>" "flag_bits FlagWrite"] p(2,3)
    by (simp add: is_set_def)
  have opened: "opened ?fss ?w ?md []" using p(2,3) test_name by (simp add: opened_def FileHandle_new_def fh_key_def)
  have fits: "fits (phys_fs fs) (fh_file_name ?w) (length (written [] (file_pos ?w) ?data))"
    if "?fss (fh_key ?w) = Some fs" for fs
    using that p(4) by (auto simp: fits_def FileHandle_new_def fh_key_def length_written blocks_needed_def test_fs_blank as_bytes_def)
  obtain fss' md' where wr: "handle_write clk ?data (?w, ?fss) =
      (Ok (length ?data), (?w\<lparr>file_pos := file_pos ?w + length ?data\<rparr>, fss'))"
    and opened': "opened fss' ?w md' (pad_data (written [] (file_pos ?w) ?data))"
    by (rule handle_write_opened [OF opened _ _ fits, of clk])
      (simp_all add: FileHandle_new_def is_set_def as_bytes_def)
  have bytes: "pad_data (written [] (file_pos ?w) ?data) = ?data @ replicate 499 0"
    by (simp add: pad_data_prefix FileHandle_new_def written_def splice_def as_bytes_def)
  obtain fs where fs: "fss' (0, 0) = Some fs" "direct_fs (phys_fs fs)" "files (phys_fs fs) (padded ''test.txt'') = Some (md', ?data @ replicate 499 0)"
    using opened' unfolding bytes by (auto simp: opened_def FileHandle_new_def fh_key_def)
  have open2: "vfs_open clk (0, 0) ''test.txt'' (flag_bits FlagRead) fss' = (Ok ?r, fss')"
    using vfs_open_found [where fss = fss' and key = "(0, 0)", OF fs(1,2) test_name, of "flag_bits FlagRead"] fs(3) by (simp add: is_set_def)
  have "opened fss' ?r md' (?data @ replicate 499 0)" using fs test_name by (simp add: opened_def FileHandle_new_def fh_key_def)
  then have "handle_read fss' (replicate 512 0) ?r = (Ok (512, ?data @ replicate 499 0), ?r\<lparr>file_pos := 512\<rparr>)"
    using handle_read_opened [of fss' ?r md' "?data @ replicate 499 0" "replicate 512 0"]
    by (simp add: FileHandle_new_def is_set_def Let_def as_bytes_def)
  moreover have "slice (?data @ replicate 499 0) 0 (length ?data) = (Ok ?data :: (unit, _) outcome)"
    by (simp add: slice_def)
  ultimately show ?thesis using p(1) open1 open2 wr
    by (simp add: test_write_file_def test_steps write_handle_def Let_def bind_reads)
qed

lemma test_devices_pass: "test_null = Ok ()" "test_zero = Ok ()"
  by (simp_all add: test_null_def test_zero_def Let_def Null_read_def Null_write_def Null_new_def Zero_read_def Zero_write_def
      Zero_new_def device_noop_def list_all_iff)

lemma test_rand_passes:
  assumes "list_ex (\<lambda>x. x \<noteq> 0) (fst (fill (seed now) 10))"
  shows "test_rand seed fill now = Ok ()"
proof -
  have "\<not> list_all (\<lambda>x. x = 0) (fst (fill (seed now) 10))" using assms by (auto simp: list_all_iff list_ex_iff)
  then show ?thesis
    by (cases "fill (seed now) 10")
      (simp add: test_rand_def Rand_read_def Rand_new_def Rand_write_def unwrap_err_def device_noop_def)
qed

lemma for_each_assert: "(\<And>x. x \<in> set xs \<Longrightarrow> body x s = (Ok (), s)) \<Longrightarrow> for_each body xs s = (Ok (), s)"
  by (induction xs) (simp_all add: bind_Ok)

lemma kprintln_times: "screen_ok w \<Longrightarrow> \<exists>w'. for_each (\<lambda>_. kprintln_text s) xs w = (Ok (), w') \<and> screen_ok w'"
proof (induction xs arbitrary: w)
  case (Cons x xs)
  then obtain w1 where "kprintln_text s w = (Ok (), w1)" "screen_ok w1" using kprintln_run by blast
  then show ?case using Cons.IH by (simp add: bind_Ok)
qed simp

lemma test_kprintln_output_passes:
  assumes "screen_ok w"
  shows "\<exists>w'. test_kprintln_output w = (Ok (), w')"
proof -
  define s where "s = ascii ''Hello world! Enjoy some numbers: 42 ''"
  have len: "length s = 36" by (simp add: s_def ascii_def)
  have pr: "\<And>c. c \<in> set s \<Longrightarrow> printable c" by (auto simp: s_def ascii_def printable_def)
  obtain w' where w': "writer_write_str ([0x0A] @ s @ [0x0A]) w = (Ok (), w')"
    "rows w' = drop 2 (rows w) @ [map (cell (color_code w)) s @ replicate (BUF_WIDTH - length s) (blank w), replicate BUF_WIDTH (blank w)]"
    using line_printed [OF assms, of s] pr len by (auto simp: BUF_WIDTH_def)
  have "length (drop 2 (rows w)) = BUF_HEIGHT - 2" using assms by (simp add: screen_ok_def)
  then have row: "get_char (BUF_HEIGHT - 2) i w' = Ok (cell (color_code w) (s ! i))" if "i < length s" for i
    using that by (simp add: get_char_def w'(2) index_def nth_append BUF_HEIGHT_def)
  have "bind (reads (get_char (BUF_HEIGHT - 2) i)) (\<lambda>ch. assert (ucast (ascii_char ch) = c)) w' = (Ok (), w')"
    if "(i, c) \<in> set (enumerate 0 s)" for i c
  proof -
    have i: "i < length s" "c = s ! i" using that by (auto simp: in_set_enumerate_eq)
    then have "unat c \<le> 0x7E" using pr [of c] by (simp add: printable_def word_le_nat_alt)
    then have "ucast (as_u8_char c) = c"
      by (simp add: as_u8_char_def word_unat_eq_iff unsigned_ucast_eq unsigned_take_bit_eq take_bit_nat_eq_self)
    then show ?thesis using row [OF i(1)] i(2) by (simp add: bind_reads cell_def)
  qed
  then have "for_each (\<lambda>(i, c). bind (reads (get_char (BUF_HEIGHT - 2) i)) (\<lambda>ch. assert (ucast (ascii_char ch) = c)))
      (enumerate 0 s) w' = (Ok (), w')"
    by (intro for_each_assert) auto
  then show ?thesis using w'(1) by (auto simp: test_kprintln_output_def expect_step s_def [symmetric])
qed

lemma test_alloc_free_passes:
  assumes "e_alloc par 1024 1 (memory (k_procs k)) = (Ok p, mem)" and "p \<noteq> 0" and "e_free par p 1024 1 mem = (Ok (), mem')"
  shows "\<exists>k'. test_alloc_free par k = (Ok (), k')"
proof -
  have "layout_ok 1024 1" by (simp add: layout_ok_def upt_rec)
  then show ?thesis using assms
    by (simp add: test_alloc_free_def sys_alloc_def sys_free_def on_procs_def on_memory_def bind_def assert_def ret_def)
qed

section \<open>The test cases pass\<close>

text \<open>
  The test cases of the filesystem pass from any mounted filesystems and at any time, those of the screen on any screen. That of the allocator passes when
  the kernel heap has room, and that of the random device, as its comment says, unless the generator gives ten zeros.
\<close>

lemma filesystem_tests_pass:
  "list_all (\<lambda>t. fst (t fss) = Ok ())
    [test_create_file clk, test_write_file clk, test_chmod_file clk, test_chown_file clk, test_delete_file clk]"
proof -
  have "fst (test_create_file clk fss) = Ok ()" "fst (test_write_file clk fss) = Ok ()" "fst (test_chmod_file clk fss) = Ok ()"
      "fst (test_chown_file clk fss) = Ok ()" "fst (test_delete_file clk fss) = Ok ()"
    using test_create_file_passes test_write_file_passes test_chmod_file_passes test_chown_file_passes test_delete_file_passes
    by (metis fst_conv)+
  then show ?thesis by simp
qed

lemma screen_tests_pass:
  assumes "screen_ok w"
  shows "list_all (\<lambda>t. fst (t w) = Ok ()) [test_single_kprintln, test_many_kprintln, test_kprintln_output]"
proof -
  obtain w1 w2 w3 where "test_single_kprintln w = (Ok (), w1)" "test_many_kprintln w = (Ok (), w2)" "test_kprintln_output w = (Ok (), w3)"
    using kprintln_run [OF assms] kprintln_times [OF assms] test_kprintln_output_passes [OF assms]
    unfolding test_single_kprintln_def test_many_kprintln_def by metis
  then show ?thesis by simp
qed

end
