(* ===== verification/Memory.thy ===== *)
theory Memory
  imports Process
begin

text \<open>
  Physical frames and page mappings of \<open>kernel/src/internal/memory.rs\<close> and the kernel heap of
  \<open>allocator.rs\<close>: the frame allocator over the memory map of the boot loader, mapping and
  unmapping a range of pages, and the heap of the kernel.

  The crate \<open>x86_64\<close> (addresses, pages and the mapper over the page tables) is the record
  \<open>Paging\<close>, over page tables \<open>'p\<close>; the mapper takes frames for its own tables from the same
  allocator. The locale \<open>page_mapper\<close> states what its documentation promises.
\<close>

section \<open>Frames\<close>

text \<open>A region of the memory map: \<open>range.start_addr()\<close>, \<open>range.end_addr()\<close>, \<open>region_type == Usable\<close>.\<close>

record MemoryRegion =
  region_start :: u64
  region_end :: u64
  usable :: bool

text \<open>\<open>ALLOCATED_FRAMES\<close> and the page tables.\<close>

record 'p Mem =
  allocated_frames :: nat
  tables :: 'p

record 'p Paging =
  pg_frame :: "u64 \<Rightarrow> (unit, u64) outcome"
  pg_page :: "u64 \<Rightarrow> (unit, u64) outcome"
  pg_range_inclusive :: "u64 \<Rightarrow> u64 \<Rightarrow> u64 list"
  pg_map_to :: "u64 \<Rightarrow> u64 \<Rightarrow> u64 \<Rightarrow> ('p Mem, unit, unit) prog"
  pg_unmap :: "u64 \<Rightarrow> ('p Mem, unit, unit) prog"

text \<open>\<open>(start..end).step_by(4096)\<close>.\<close>

definition step_by_page :: "u64 \<Rightarrow> u64 \<Rightarrow> u64 list" where
  "step_by_page s e = map (\<lambda>i. s + word_of_nat (4096 * i)) [0..<(unat e - unat s + 4095) div 4096]"

definition frame_addresses :: "MemoryRegion list \<Rightarrow> u64 list" where
  "frame_addresses regions = concat (map (\<lambda>r. step_by_page (region_start r) (region_end r)) (filter usable regions))"

text \<open>\<open>usable_frames().nth(n)\<close>: the iterator makes a frame of every address it passes.\<close>

fun nth_frame :: "(u64 \<Rightarrow> (unit, u64) outcome) \<Rightarrow> u64 list \<Rightarrow> nat \<Rightarrow> (unit, u64 option) outcome" where
  "nth_frame frame_of [] n = Ok None"
| "nth_frame frame_of (a # as) n = obind (frame_of a) (\<lambda>f. if n = 0 then Ok (Some f) else nth_frame frame_of as (n - 1))"

text \<open>\<open>ALLOCATED_FRAMES.fetch_add(1)\<close> wraps around.\<close>

definition allocate_frame :: "'p Paging \<Rightarrow> MemoryRegion list \<Rightarrow> ('p Mem, unit, u64 option) prog" where
  "allocate_frame pg regions =
     bind (reads (\<lambda>m. Ok (allocated_frames m))) (\<lambda>next.
     bind (modify (\<lambda>m. m\<lparr>allocated_frames := (if next = usize_max then 0 else next + 1)\<rparr>)) (\<lambda>_.
     reads (\<lambda>_. nth_frame (pg_frame pg) (frame_addresses regions) next)))"

section \<open>Pages\<close>

definition page_range :: "'p Paging \<Rightarrow> u64 \<Rightarrow> nat \<Rightarrow> (unit, u64 list) outcome" where
  "page_range pg addr sz =
     (let last = word_of_nat (sz - 1) in
      obind (pg_page pg addr) (\<lambda>start_page.
      obind (u64_add addr last) (\<lambda>fin.
      obind (pg_page pg fin) (\<lambda>end_page. Ok (pg_range_inclusive pg start_page end_page)))))"

text \<open>\<open>PRESENT\<close>, \<open>WRITABLE\<close> and \<open>USER_ACCESSIBLE\<close> are the bits 0, 1 and 2 of an entry.\<close>

definition alloc_page :: "'p Paging \<Rightarrow> MemoryRegion list \<Rightarrow> u64 \<Rightarrow> ('p Mem, unit, unit) prog" where
  "alloc_page pg regions page =
     bind (allocate_frame pg regions) (\<lambda>f. case f of
       None \<Rightarrow> throw ()
     | Some frame \<Rightarrow> pg_map_to pg page frame 7)"

definition alloc_pages :: "'p Paging \<Rightarrow> MemoryRegion list \<Rightarrow> u64 \<Rightarrow> nat \<Rightarrow> ('p Mem, unit, unit) prog" where
  "alloc_pages pg regions addr sz =
     bind (reads (\<lambda>_. page_range pg addr sz)) (\<lambda>pages. for_each (alloc_page pg regions) pages)"

text \<open>A page that is not mapped is passed over.\<close>

definition free_page :: "'p Paging \<Rightarrow> u64 \<Rightarrow> ('p Mem, unit, unit) prog" where
  "free_page pg page m = (case pg_unmap pg page m of
      (Panic, m') \<Rightarrow> (Panic, m')
    | (_, m') \<Rightarrow> (Ok (), m'))"

definition free_pages :: "'p Paging \<Rightarrow> u64 \<Rightarrow> nat \<Rightarrow> ('p Mem, unit, unit) prog" where
  "free_pages pg addr sz =
     bind (reads (\<lambda>_. page_range pg addr sz)) (\<lambda>pages. for_each (free_page pg) pages)"

section \<open>The kernel heap\<close>

definition HEAP_START :: u64 where
  "HEAP_START = 0x444444440000"

definition HEAP_SIZE :: nat where
  "HEAP_SIZE = 10 * 2 ^ 20"

datatype MapToError = FrameAllocationFailed | MapFailed

definition heap_page :: "'p Paging \<Rightarrow> MemoryRegion list \<Rightarrow> u64 \<Rightarrow> ('p Mem, MapToError, unit) prog" where
  "heap_page pg regions page =
     bind (expect_prog (allocate_frame pg regions)) (\<lambda>f. case f of
       None \<Rightarrow> throw FrameAllocationFailed
     | Some frame \<Rightarrow> map_err_prog (\<lambda>_. MapFailed) (pg_map_to pg page frame 3))"

text \<open>
  The allocator gets the range of the heap once all its pages are mapped: \<open>heap_init\<close> is
  \<open>LockedHeap::init\<close>. Before that, \<open>init_process_addr\<close> of \<open>Process\<close> sets the address of the first process.
\<close>

definition first_process_addr :: u64 where
  "first_process_addr = HEAP_START + word_of_nat HEAP_SIZE"

definition init_heap :: "'p Paging \<Rightarrow> MemoryRegion list \<Rightarrow> (u64 \<Rightarrow> nat \<Rightarrow> 'h \<Rightarrow> 'h) \<Rightarrow> 'h
    \<Rightarrow> ('p Mem, MapToError, 'h) prog" where
  "init_heap pg regions heap_init heap =
     bind (reads (\<lambda>_. expect (page_range pg HEAP_START HEAP_SIZE))) (\<lambda>pages.
     bind (for_each (heap_page pg regions) pages) (\<lambda>_.
     ret (heap_init HEAP_START HEAP_SIZE heap)))"

section \<open>The allocator\<close>

definition region_ok :: "MemoryRegion \<Rightarrow> bool" where
  "region_ok r \<longleftrightarrow> unat (region_start r) mod 4096 = 0 \<and> unat (region_end r) mod 4096 = 0 \<and>
     region_start r \<le> region_end r \<and> unat (region_end r) \<le> 2 ^ 52"

definition apart_regions :: "MemoryRegion \<Rightarrow> MemoryRegion \<Rightarrow> bool" where
  "apart_regions r s \<longleftrightarrow> region_end r \<le> region_start s \<or> region_end s \<le> region_start r"

text \<open>Usable regions consist of whole frames below \<open>2 ^ 52\<close> and do not overlap.\<close>

definition memory_map_ok :: "MemoryRegion list \<Rightarrow> bool" where
  "memory_map_ok regions \<longleftrightarrow> list_all region_ok (filter usable regions) \<and>
     sorted_wrt apart_regions (filter usable regions)"

definition in_usable :: "MemoryRegion list \<Rightarrow> u64 \<Rightarrow> bool" where
  "in_usable regions a \<longleftrightarrow> (\<exists>r \<in> set regions. usable r \<and> region_start r \<le> a \<and> a < region_end r)"

lemma region_frames:
  assumes "region_ok r"
  shows "(unat (region_end r) - unat (region_start r) + 4095) div 4096 = (unat (region_end r) - unat (region_start r)) div 4096"
proof -
  have "4096 dvd unat (region_end r) - unat (region_start r)"
    using assms by (simp add: region_ok_def mod_eq_0_iff_dvd dvd_diff_nat)
  then obtain q where "unat (region_end r) - unat (region_start r) = 4096 * q" by blast
  then show ?thesis by simp
qed

lemma step_by_page_nth:
  assumes "region_ok r" and "i < (unat (region_end r) - unat (region_start r)) div 4096"
  shows "unat (region_start r + word_of_nat (4096 * i)) = unat (region_start r) + 4096 * i"
    and "unat (region_start r) + 4096 * i < unat (region_end r)"
proof -
  have "4096 * i + 4096 \<le> unat (region_end r) - unat (region_start r)"
    using assms(2) by (metis Suc_leI div_mult_self1_is_m less_eq_div_iff_mult_less_eq mult.commute mult_Suc_right add.commute zero_less_numeral)
  then show *: "unat (region_start r) + 4096 * i < unat (region_end r)" by linarith
  have "unat (region_end r) < 2 ^ 64" using unsigned_less [of "region_end r"] by simp
  then have "4096 * i < 2 ^ 64" "unat (region_start r) + 4096 * i < 2 ^ 64" using * by linarith+
  moreover from this(1) have "unat (word_of_nat (4096 * i) :: u64) = 4096 * i"
    unfolding unsigned_of_nat by (simp add: take_bit_nat_eq_self)
  ultimately show "unat (region_start r + word_of_nat (4096 * i)) = unat (region_start r) + 4096 * i"
    using unat_add_ok [of "region_start r" "word_of_nat (4096 * i)"] by metis
qed

lemma set_step_by_page:
  assumes "region_ok r" and "a \<in> set (step_by_page (region_start r) (region_end r))"
  shows "region_start r \<le> a" and "a < region_end r" and "unat a mod 4096 = 0" and "unat a < 2 ^ 52"
proof -
  note dv = region_frames [OF assms(1)]
  then obtain i where i: "i < (unat (region_end r) - unat (region_start r)) div 4096"
    and a: "a = region_start r + word_of_nat (4096 * i)"
    using assms(2) unfolding step_by_page_def dv by auto
  note at = step_by_page_nth [OF assms(1) i]
  show "region_start r \<le> a" "a < region_end r" using at by (simp_all add: a word_le_nat_alt word_less_nat_alt)
  show "unat a mod 4096 = 0" "unat a < 2 ^ 52" using at assms(1) by (simp_all add: a region_ok_def)
qed

lemma distinct_step_by_page:
  assumes "region_ok r"
  shows "distinct (step_by_page (region_start r) (region_end r))"
proof -
  note dv = region_frames [OF assms]
  have "inj_on (\<lambda>i. region_start r + word_of_nat (4096 * i)) (set [0..<(unat (region_end r) - unat (region_start r)) div 4096])"
  proof (rule inj_onI)
    fix i j
    assume "i \<in> set [0..<(unat (region_end r) - unat (region_start r)) div 4096]"
      and "j \<in> set [0..<(unat (region_end r) - unat (region_start r)) div 4096]"
      and eq: "region_start r + word_of_nat (4096 * i) = region_start r + word_of_nat (4096 * j)"
    then have "unat (region_start r) + 4096 * i = unat (region_start r) + 4096 * j"
      using step_by_page_nth(1) [OF assms, of i] step_by_page_nth(1) [OF assms, of j] by simp
    then show "i = j" by simp
  qed
  then show ?thesis unfolding step_by_page_def dv by (simp add: distinct_map)
qed

lemma frame_addresses_ok:
  assumes "memory_map_ok regions"
  shows "distinct (frame_addresses regions)"
    and "a \<in> set (frame_addresses regions) \<Longrightarrow> in_usable regions a \<and> unat a mod 4096 = 0 \<and> unat a < 2 ^ 52"
proof -
  have "list_all region_ok rs \<Longrightarrow> sorted_wrt apart_regions rs \<Longrightarrow>
      distinct (concat (map (\<lambda>r. step_by_page (region_start r) (region_end r)) rs))" for rs
  proof (induction rs)
    case (Cons r rs)
    have "set (step_by_page (region_start r) (region_end r)) \<inter> set (step_by_page (region_start s) (region_end s)) = {}"
      if "s \<in> set rs" for s
      using Cons.prems that set_step_by_page [of r] set_step_by_page [of s]
      by (fastforce simp: list_all_iff apart_regions_def)
    then show ?case using Cons distinct_step_by_page by auto
  qed simp
  then show "distinct (frame_addresses regions)"
    using assms by (simp add: frame_addresses_def memory_map_ok_def)
  show "in_usable regions a \<and> unat a mod 4096 = 0 \<and> unat a < 2 ^ 52" if "a \<in> set (frame_addresses regions)"
    using that assms set_step_by_page
    by (fastforce simp: frame_addresses_def memory_map_ok_def list_all_iff in_usable_def)
qed

text \<open>\<open>PhysFrame::containing_address(PhysAddr::new(a))\<close> of the first byte of a frame below \<open>2 ^ 52\<close> is that frame.\<close>

definition frame_law :: "(u64 \<Rightarrow> (unit, u64) outcome) \<Rightarrow> bool" where
  "frame_law frame_of \<longleftrightarrow> (\<forall>a. unat a mod 4096 = 0 \<longrightarrow> unat a < 2 ^ 52 \<longrightarrow> frame_of a = Ok a)"

lemma nth_frame_eq:
  assumes "frame_law frame_of" and "\<And>a. a \<in> set as \<Longrightarrow> unat a mod 4096 = 0 \<and> unat a < 2 ^ 52"
  shows "nth_frame frame_of as n = Ok (if n < length as then Some (as ! n) else None)"
  using assms
proof (induction frame_of as n rule: nth_frame.induct)
  case (2 frame_of a as n)
  then have "frame_of a = Ok a" by (meson frame_law_def list.set_intros(1))
  then show ?case using 2 by (cases n) auto
qed simp

lemma length_frame_addresses:
  assumes "memory_map_ok regions"
  shows "length (frame_addresses regions) \<le> 2 ^ 52"
proof -
  have "length (frame_addresses regions) = card (unat ` set (frame_addresses regions))"
    using frame_addresses_ok(1) [OF assms] by (subst card_image) (auto simp: inj_on_def distinct_card intro: unsigned_word_eqI)
  also have "\<dots> \<le> card {..<(2 :: nat) ^ 52}"
    using frame_addresses_ok(2) [OF assms] by (intro card_mono) auto
  finally show ?thesis by simp
qed

lemma allocate_frame_eq:
  assumes "memory_map_ok regions" and "frame_law (pg_frame pg)"
  shows "allocate_frame pg regions m =
    (Ok (if allocated_frames m < length (frame_addresses regions) then Some (frame_addresses regions ! allocated_frames m) else None),
     m\<lparr>allocated_frames := (if allocated_frames m = usize_max then 0 else Suc (allocated_frames m))\<rparr>)"
  using nth_frame_eq [OF assms(2), of "frame_addresses regions"] frame_addresses_ok(2) [OF assms(1)]
  by (simp add: allocate_frame_def run_simps)

text \<open>A frame that is handed out is the next one, and is counted.\<close>

lemma allocate_frame_Some:
  assumes "memory_map_ok regions" and "frame_law (pg_frame pg)" and "allocate_frame pg regions m = (Ok (Some f), m')"
  shows "allocated_frames m < length (frame_addresses regions)" and "f = frame_addresses regions ! allocated_frames m"
    and "allocated_frames m' = Suc (allocated_frames m)" and "tables m' = tables m"
  using assms(3) length_frame_addresses [OF assms(1)]
  by (auto simp: allocate_frame_eq [OF assms(1,2)] split: if_splits)

section \<open>The mapper\<close>

text \<open>A step that maps one page, when it succeeds, to the next frame.\<close>

definition maps_next :: "('p \<Rightarrow> u64 \<rightharpoonup> u64) \<Rightarrow> MemoryRegion list \<Rightarrow> (u64 \<Rightarrow> ('p Mem, 'e, unit) prog) \<Rightarrow> bool" where
  "maps_next transl regions body \<longleftrightarrow> (\<forall>page m m'. body page m = (Ok (), m') \<longrightarrow>
     allocated_frames m < length (frame_addresses regions) \<and> allocated_frames m < allocated_frames m' \<and>
     transl (tables m') = (transl (tables m))(page \<mapsto> frame_addresses regions ! allocated_frames m))"

lemma map_err_prog_Ok: "map_err_prog g m s = (Ok x, s') \<longleftrightarrow> m s = (Ok x, s')"
  by (auto simp: map_err_prog_def split: prod.split)

text \<open>
  What the mapper promises: a page is mapped where the call says, and nowhere else; a call
  that fails or unmaps changes no other page; frames for tables come from the allocator.
\<close>

locale page_mapper =
  fixes pg :: "'p Paging" and transl :: "'p \<Rightarrow> u64 \<rightharpoonup> u64"
  assumes frames: "frame_law (pg_frame pg)"
    and map_ok: "pg_map_to pg page frame flags m = (Ok (), m') \<Longrightarrow>
      transl (tables m') = (transl (tables m))(page \<mapsto> frame) \<and> allocated_frames m \<le> allocated_frames m'"
    and map_fails: "pg_map_to pg page frame flags m = (Err (), m') \<Longrightarrow>
      transl (tables m') = transl (tables m) \<and> allocated_frames m \<le> allocated_frames m'"
    and unmap_law: "pg_unmap pg page m = (r, m') \<Longrightarrow>
      r \<noteq> Panic \<and> transl (tables m') = (transl (tables m))(page := None) \<and> allocated_frames m' = allocated_frames m"
begin

lemma alloc_page_Ok:
  assumes "memory_map_ok regions" and "alloc_page pg regions page m = (Ok (), m')"
  shows "allocated_frames m < length (frame_addresses regions)" and "allocated_frames m < allocated_frames m'"
    and "transl (tables m') = (transl (tables m))(page \<mapsto> frame_addresses regions ! allocated_frames m)"
proof -
  obtain f m1 where f: "allocate_frame pg regions m = (Ok (Some f), m1)" and map: "pg_map_to pg page f 7 m1 = (Ok (), m')"
    using assms(2) by (auto simp: alloc_page_def bind_eq_Ok throw_def split: option.splits)
  then show "allocated_frames m < length (frame_addresses regions)" "allocated_frames m < allocated_frames m'"
    "transl (tables m') = (transl (tables m))(page \<mapsto> frame_addresses regions ! allocated_frames m)"
    using allocate_frame_Some [OF assms(1) frames f] map_ok [OF map] by simp_all
qed

text \<open>
  The frames of a range of pages are those handed out while it is mapped, each used for one page.
\<close>

lemma range_fresh:
  assumes "maps_next transl regions body"
  shows "for_each body pages m = (Ok (), m') \<Longrightarrow> distinct pages \<Longrightarrow>
    \<exists>ix. inj_on ix (set pages) \<and> ix ` set pages \<subseteq> {allocated_frames m..<allocated_frames m'} \<and>
      ix ` set pages \<subseteq> {..<length (frame_addresses regions)} \<and> allocated_frames m \<le> allocated_frames m' \<and>
      transl (tables m') = (\<lambda>p. if p \<in> set pages then Some (frame_addresses regions ! ix p) else transl (tables m) p)"
proof (induction pages arbitrary: m)
  case (Cons p pages)
  then obtain m1 where one: "body p m = (Ok (), m1)" and rest: "for_each body pages m1 = (Ok (), m')"
    by (auto simp: bind_eq_Ok)
  obtain ix where ix: "inj_on ix (set pages)" "ix ` set pages \<subseteq> {allocated_frames m1..<allocated_frames m'}"
    "ix ` set pages \<subseteq> {..<length (frame_addresses regions)}" "allocated_frames m1 \<le> allocated_frames m'"
    "transl (tables m') = (\<lambda>q. if q \<in> set pages then Some (frame_addresses regions ! ix q) else transl (tables m1) q)"
    using Cons.IH [OF rest] Cons.prems by auto
  have here: "allocated_frames m < length (frame_addresses regions)" "allocated_frames m < allocated_frames m1"
    "transl (tables m1) = (transl (tables m))(p \<mapsto> frame_addresses regions ! allocated_frames m)"
    using assms one by (simp_all add: maps_next_def)
  let ?ix = "ix(p := allocated_frames m)"
  have "inj_on ?ix (set (p # pages))" using ix(1,2) here Cons.prems(2) by (fastforce simp: inj_on_def)
  moreover have "?ix ` set (p # pages) \<subseteq> {allocated_frames m..<allocated_frames m'}" using ix(2,4) here by fastforce
  moreover have "?ix ` set (p # pages) \<subseteq> {..<length (frame_addresses regions)}" using ix(3) here by auto
  moreover have "transl (tables m') = (\<lambda>q. if q \<in> set (p # pages) then Some (frame_addresses regions ! ?ix q) else transl (tables m) q)"
    using ix(5) here Cons.prems(2) by auto
  moreover have "allocated_frames m \<le> allocated_frames m'" using ix(4) here by simp
  ultimately show ?case by blast
qed simp

lemma alloc_page_next: "memory_map_ok regions \<Longrightarrow> maps_next transl regions (alloc_page pg regions)"
  using alloc_page_Ok by (simp add: maps_next_def)

lemma heap_page_next: "memory_map_ok regions \<Longrightarrow> maps_next transl regions (heap_page pg regions)"
  unfolding maps_next_def
proof (intro allI impI)
  fix page m m' assume ok: "memory_map_ok regions" and run: "heap_page pg regions page m = (Ok (), m')"
  obtain f m1 where f: "allocate_frame pg regions m = (Ok (Some f), m1)" and map: "pg_map_to pg page f 3 m1 = (Ok (), m')"
    using run by (auto simp: heap_page_def bind_eq_Ok throw_def expect_prog_Ok map_err_prog_Ok split: option.splits)
  show "allocated_frames m < length (frame_addresses regions) \<and> allocated_frames m < allocated_frames m' \<and>
      transl (tables m') = (transl (tables m))(page \<mapsto> frame_addresses regions ! allocated_frames m)"
    using allocate_frame_Some [OF ok frames f] map_ok [OF map] by simp
qed

lemmas alloc_range_fresh = range_fresh [OF alloc_page_next]

lemma free_range:
  "\<exists>m'. for_each (free_page pg) pages m = (Ok (), m') \<and> allocated_frames m' = allocated_frames m \<and>
    transl (tables m') = (\<lambda>p. if p \<in> set pages then None else transl (tables m) p)"
proof (induction pages arbitrary: m)
  case (Cons p pages)
  obtain r m1 where un: "pg_unmap pg p m = (r, m1)" by (cases "pg_unmap pg p m")
  then have "free_page pg p m = (Ok (), m1)" "transl (tables m1) = (transl (tables m))(p := None)"
    "allocated_frames m1 = allocated_frames m"
    using unmap_law [OF un] by (cases r; simp add: free_page_def)+
  then show ?case using Cons.IH [of m1] by (auto simp: bind_Ok [where m = "free_page pg p"] fun_eq_iff)
qed (simp add: ret_def)

end

text \<open>A mapper over a table of pages, which refuses a page that is mapped already.\<close>

definition table_paging :: "(u64 \<rightharpoonup> u64) Paging" where
  "table_paging = \<lparr>pg_frame = (\<lambda>a. if unat a < 2 ^ 52 then Ok (a div 4096 * 4096) else Panic),
     pg_page = (\<lambda>a. if unat a < 2 ^ 47 then Ok (a div 4096 * 4096) else Panic),
     pg_range_inclusive = (\<lambda>s e. map (\<lambda>i. s + word_of_nat (4096 * i)) [0..<(unat e - unat s) div 4096 + 1]),
     pg_map_to = (\<lambda>page frame _ m. if tables m page = None then (Ok (), m\<lparr>tables := (tables m)(page \<mapsto> frame)\<rparr>) else (Err (), m)),
     pg_unmap = (\<lambda>page m. (if tables m page = None then Err () else Ok (), m\<lparr>tables := (tables m)(page := None)\<rparr>))\<rparr>"

lemma div_mult_word: "unat a mod 4096 = 0 \<Longrightarrow> a div 4096 * 4096 = (a :: u64)"
proof -
  assume "unat a mod 4096 = 0"
  then have "unat (a mod 4096) = 0" by (simp add: unat_mod)
  then have "a mod 4096 = 0" by (simp only: unsigned_eq_0_iff)
  then show ?thesis using div_mult_mod_eq [of a 4096] by simp
qed

interpretation table: page_mapper table_paging "\<lambda>t. t"
  by unfold_locales (auto simp: table_paging_def frame_law_def div_mult_word split: if_splits)

section \<open>Properties\<close>

text \<open>
  The frame allocator: on a memory map whose usable regions do not overlap, every frame it
  hands out lies in a usable region and differs from every frame handed out later.
\<close>

lemma frames_never_reused:
  assumes "memory_map_ok regions" and "frame_law (pg_frame pg)"
    and "allocate_frame pg regions m = (Ok (Some f), m1)" and "allocated_frames m1 \<le> allocated_frames m2"
    and "allocate_frame pg regions m2 = (Ok (Some g), m3)"
  shows "f \<noteq> g \<and> in_usable regions f \<and> in_usable regions g"
proof -
  note f = allocate_frame_Some [OF assms(1,2,3)] and g = allocate_frame_Some [OF assms(1,2,5)]
  have "f \<noteq> g" using f g assms(4) frame_addresses_ok(1) [OF assms(1)] by (simp add: nth_eq_iff_index_eq)
  then show ?thesis using f(1,2) g(1,2) frame_addresses_ok(2) [OF assms(1)] nth_mem by blast
qed

definition sample_regions :: "MemoryRegion list" where
  "sample_regions = [\<lparr>region_start = 0x1000, region_end = 0x3000, usable = True\<rparr>,
     \<lparr>region_start = 0x3000, region_end = 0x5000, usable = False\<rparr>,
     \<lparr>region_start = 0x8000, region_end = 0x9000, usable = True\<rparr>]"

lemma sample_regions_ok: "memory_map_ok sample_regions"
  by (simp add: memory_map_ok_def sample_regions_def region_ok_def apart_regions_def)

lemma sample_frames: "frame_addresses sample_regions = [0x1000, 0x2000, 0x8000]"
  by (simp add: frame_addresses_def sample_regions_def step_by_page_def upt_rec)

lemma frames_never_reused_example: "(0x2000 :: u64) \<noteq> 0x8000 \<and> in_usable sample_regions 0x8000"
proof -
  let ?m = "\<lparr>allocated_frames = 1, tables = Map.empty\<rparr>"
  have one: "allocate_frame table_paging sample_regions ?m = (Ok (Some 0x2000), ?m\<lparr>allocated_frames := 2\<rparr>)"
    by (simp add: allocate_frame_eq [OF sample_regions_ok table.frames] sample_frames)
  have two: "allocate_frame table_paging sample_regions (?m\<lparr>allocated_frames := 2\<rparr>) = (Ok (Some 0x8000), ?m\<lparr>allocated_frames := 3\<rparr>)"
    by (simp add: allocate_frame_eq [OF sample_regions_ok table.frames] sample_frames)
  show ?thesis using frames_never_reused [OF sample_regions_ok table.frames one _ two] by simp
qed

text \<open>
  C18. Mapping a range of pages: when \<open>alloc_pages\<close> succeeds, every page of the range is mapped to a
  frame that no other page of the range has and that was handed out during the call, and every
  page outside the range is as before.
\<close>

theorem alloc_pages_fresh:
  assumes "page_mapper pg transl" and "memory_map_ok regions" and "page_range pg addr sz = Ok pages" and "distinct pages"
    and "alloc_pages pg regions addr sz m = (Ok (), m')"
  shows "\<exists>ix. inj_on ix (set pages) \<and> transl (tables m') = (\<lambda>p. if p \<in> set pages then Some (frame_addresses regions ! ix p)
      else transl (tables m) p) \<and>
    (\<forall>p \<in> set pages. allocated_frames m \<le> ix p \<and> ix p < allocated_frames m' \<and> ix p < length (frame_addresses regions))"
proof -
  have "for_each (alloc_page pg regions) pages m = (Ok (), m')"
    using assms(3,5) by (simp add: alloc_pages_def bind_reads)
  from page_mapper.alloc_range_fresh [OF assms(1,2) this assms(4)] obtain ix where "inj_on ix (set pages)"
    "ix ` set pages \<subseteq> {allocated_frames m..<allocated_frames m'}" "ix ` set pages \<subseteq> {..<length (frame_addresses regions)}"
    "transl (tables m') = (\<lambda>p. if p \<in> set pages then Some (frame_addresses regions ! ix p) else transl (tables m) p)"
    by blast
  then show ?thesis by (intro exI [of _ ix]) auto
qed

theorem alloc_pages_fresh_witness:
  "\<exists>m' f g. alloc_pages table_paging sample_regions 0x400000 0x1001 \<lparr>allocated_frames = 0, tables = Map.empty\<rparr> = (Ok (), m') \<and>
    tables m' 0x400000 = Some f \<and> tables m' 0x401000 = Some g \<and> tables m' 0x402000 = None"
proof -
  let ?m = "\<lparr>allocated_frames = 0, tables = Map.empty\<rparr> :: (u64 \<rightharpoonup> u64) Mem"
  have pages: "page_range table_paging 0x400000 0x1001 = Ok [0x400000, 0x401000]"
    by (simp add: page_range_def table_paging_def u64_add_def)
  have step: "alloc_page table_paging sample_regions page m = (Ok (), m\<lparr>allocated_frames := Suc (allocated_frames m),
      tables := (tables m)(page \<mapsto> frame_addresses sample_regions ! allocated_frames m)\<rparr>)"
    if "allocated_frames m < 3" "tables m page = None" for page m
    using that by (simp add: alloc_page_def bind_def allocate_frame_eq [OF sample_regions_ok table.frames] sample_frames)
      (simp add: table_paging_def)
  have "\<exists>m'. alloc_pages table_paging sample_regions 0x400000 0x1001 ?m = (Ok (), m')"
    by (simp add: alloc_pages_def pages run_simps step)
  then obtain m' where run: "alloc_pages table_paging sample_regions 0x400000 0x1001 ?m = (Ok (), m')" by blast
  from alloc_pages_fresh [OF table.page_mapper_axioms sample_regions_ok pages _ run] run show ?thesis by auto
qed

text \<open>
  Frames are never taken back: once all frames were handed out, mapping fails, also after
  any range of pages has been unmapped.
\<close>

lemma unmapped_frames_lost:
  assumes "page_mapper pg transl" and "memory_map_ok regions" and "length (frame_addresses regions) \<le> allocated_frames m"
    and "free_pages pg addr sz m = (Ok (), m1)" and "page_range pg addr' sz' = Ok (p # pages)"
  shows "\<exists>m2. alloc_pages pg regions addr' sz' m1 = (Err (), m2) \<and> transl (tables m2) = transl (tables m1)"
proof -
  obtain old where "for_each (free_page pg) old m = (Ok (), m1)"
    using assms(4) by (auto simp: free_pages_def bind_eq_Ok reads_def)
  then have "allocated_frames m1 = allocated_frames m"
    using page_mapper.free_range [OF assms(1), of old m] by auto
  moreover have "frame_law (pg_frame pg)" using assms(1) by (simp add: page_mapper_def)
  ultimately obtain m2 where "alloc_page pg regions p m1 = (Err (), m2)" "tables m2 = tables m1"
    using assms(3) by (simp add: alloc_page_def allocate_frame_eq [OF assms(2)] bind_def throw_def)
  then show ?thesis using assms(5) by (simp add: alloc_pages_def bind_reads bind_Err [where m = "alloc_page pg regions p"])
qed

lemma unmapped_frames_lost_example:
  "\<exists>m1 m2. free_pages table_paging 0x400000 1 \<lparr>allocated_frames = 3, tables = Map.empty(0x400000 \<mapsto> 0x1000)\<rparr> = (Ok (), m1) \<and>
    alloc_pages table_paging sample_regions 0x400000 1 m1 = (Err (), m2)"
proof -
  have pages: "page_range table_paging 0x400000 1 = Ok [0x400000]"
    by (simp add: page_range_def table_paging_def u64_add_def)
  let ?m = "\<lparr>allocated_frames = 3, tables = Map.empty(0x400000 \<mapsto> 0x1000)\<rparr> :: (u64 \<rightharpoonup> u64) Mem"
  obtain m1 where free: "free_pages table_paging 0x400000 1 ?m = (Ok (), m1)"
    using table.free_range [of "[0x400000]" ?m] by (auto simp: free_pages_def pages bind_reads simp del: One_nat_def for_each.simps)
  from unmapped_frames_lost [OF table.page_mapper_axioms sample_regions_ok _ free pages] show ?thesis
    using free by (auto simp: sample_frames)
qed

end
