(* ===== verification/Paging.thy ===== *)
theory Paging
  imports Memory
begin

text \<open>
  The rest of \<open>kernel/src/internal/memory.rs\<close>: the offset at which the boot loader maps the physical
  memory, the walk through the four levels of page tables (\<open>translate_addr\<close>) and the start of
  the memory system. The addresses and table entries of the crate \<open>x86_64\<close> are the record \<open>Walk\<close>
  over the physical memory \<open>'m\<close>; the locale \<open>virt_addr\<close> states what its documentation says of them.
\<close>

section \<open>Addresses and tables\<close>

text \<open>\<open>PageTableEntry::frame\<close>: the frame an entry points to, or \<open>FrameError\<close>.\<close>

datatype entry_frame = Frame u64 | FrameNotPresent | HugeFrame

record 'm Walk =
  va_new :: "u64 \<Rightarrow> (unit, u64) outcome"
  va_add :: "u64 \<Rightarrow> u64 \<Rightarrow> (unit, u64) outcome"
  pa_add :: "u64 \<Rightarrow> u64 \<Rightarrow> (unit, u64) outcome"
  p_index :: "nat \<Rightarrow> u64 \<Rightarrow> nat"
  page_offset :: "u64 \<Rightarrow> u64"
  cr3 :: "'m \<Rightarrow> u64"
  table_entry :: "'m \<Rightarrow> u64 \<Rightarrow> nat \<Rightarrow> entry_frame"

text \<open>The statics \<open>PHYSICAL_MEMORY_OFFSET\<close> and \<open>MEMORY_MAP\<close>, which are set once.\<close>

record Mem_statics =
  phys_offset :: "u64 option"
  memory_map :: "MemoryRegion list option"

definition call_once :: "'a \<Rightarrow> 'a option \<Rightarrow> 'a \<times> 'a option" where
  "call_once v once = (case once of None \<Rightarrow> (v, Some v) | Some w \<Rightarrow> (w, once))"

section \<open>Translation\<close>

definition physical_memory_offset :: "'m Walk \<Rightarrow> Mem_statics \<Rightarrow> (unit, u64) outcome" where
  "physical_memory_offset x g = (case phys_offset g of None \<Rightarrow> Panic | Some off \<Rightarrow> va_new x off)"

definition active_level_4_table :: "'m Walk \<Rightarrow> 'm \<Rightarrow> Mem_statics \<Rightarrow> (unit, u64) outcome" where
  "active_level_4_table x mem g = obind (physical_memory_offset x g) (\<lambda>off. va_add x off (cr3 x mem))"

text \<open>\<open>active_page_table\<close> takes the physical address of the table for its virtual address.\<close>

definition active_page_table :: "'m Walk \<Rightarrow> 'm \<Rightarrow> (unit, u64) outcome" where
  "active_page_table x mem = va_new x (cr3 x mem)"

fun walk :: "'m Walk \<Rightarrow> 'm \<Rightarrow> u64 \<Rightarrow> nat list \<Rightarrow> u64 \<Rightarrow> (unit, u64 option) outcome" where
  "walk x mem off [] frame = Ok (Some frame)"
| "walk x mem off (i # is) frame =
     obind (va_add x off frame) (\<lambda>virt.
     case table_entry x mem virt i of
       Frame frame' \<Rightarrow> walk x mem off is frame'
     | FrameNotPresent \<Rightarrow> Ok None
     | HugeFrame \<Rightarrow> Panic)"

definition translate_addr_inner :: "'m Walk \<Rightarrow> 'm \<Rightarrow> u64 \<Rightarrow> u64 \<Rightarrow> (unit, u64 option) outcome" where
  "translate_addr_inner x mem addr off =
     obind (walk x mem off [p_index x 4 addr, p_index x 3 addr, p_index x 2 addr, p_index x 1 addr] (cr3 x mem)) (\<lambda>r.
     case r of
       None \<Rightarrow> Ok None
     | Some frame \<Rightarrow> obind (pa_add x frame (page_offset x addr)) (\<lambda>p. Ok (Some p)))"

text \<open>Both functions set the offset to their own argument when it has not been set.\<close>

definition translate_addr :: "'m Walk \<Rightarrow> 'm \<Rightarrow> u64 \<Rightarrow> (Mem_statics, unit, u64 option) prog" where
  "translate_addr x mem addr g = (case call_once addr (phys_offset g) of (off, once) \<Rightarrow>
     (obind (va_new x off) (translate_addr_inner x mem addr), g\<lparr>phys_offset := once\<rparr>))"

definition reverse_translate :: "'m Walk \<Rightarrow> u64 \<Rightarrow> (Mem_statics, unit, u64) prog" where
  "reverse_translate x addr g = (case call_once addr (phys_offset g) of (off, once) \<Rightarrow>
     (obind (u64_add addr off) (va_new x), g\<lparr>phys_offset := once\<rparr>))"

definition create_page_table :: "'m Walk \<Rightarrow> u64 \<Rightarrow> (Mem_statics, unit, u64) prog" where
  "create_page_table x frame = reverse_translate x frame"

section \<open>Start of the memory system\<close>

text \<open>The mapper of \<open>init_page_table\<close> is the pair of its table and the offset.\<close>

definition init_page_table :: "'m Walk \<Rightarrow> 'm \<Rightarrow> u64 \<Rightarrow> (Mem_statics, unit, u64 \<times> u64) prog" where
  "init_page_table x mem off =
     bind (modify (\<lambda>g. g\<lparr>phys_offset := snd (call_once off (phys_offset g))\<rparr>)) (\<lambda>_.
     bind (reads (active_level_4_table x mem)) (\<lambda>table. ret (table, off)))"

definition create_example_mapping :: "'p Paging \<Rightarrow> u64 \<Rightarrow> ('p Mem, unit, unit) prog" where
  "create_example_mapping pg page =
     bind (reads (\<lambda>_. pg_frame pg 0xB8000)) (\<lambda>frame. expect_prog (pg_map_to pg page frame 3))"

definition set_memory_map :: "MemoryRegion list \<Rightarrow> Mem_statics \<Rightarrow> Mem_statics" where
  "set_memory_map regions g = g\<lparr>memory_map := snd (call_once regions (memory_map g))\<rparr>"

definition memory_init :: "'m Walk \<Rightarrow> 'm \<Rightarrow> 'p Paging \<Rightarrow> u64 \<Rightarrow> MemoryRegion list \<Rightarrow> (u64 \<Rightarrow> nat \<Rightarrow> 'h \<Rightarrow> 'h) \<Rightarrow> 'h
    \<Rightarrow> ('p Mem \<times> Mem_statics, unit, 'h) prog" where
  "memory_init x mem pg off regions heap_init heap = (\<lambda>(m, g).
     case bind (reads (\<lambda>_. va_new x off)) (init_page_table x mem) g of
       (Ok _, g1) \<Rightarrow> (case init_heap pg regions heap_init heap m of
           (r, m') \<Rightarrow> (expect r, (m', set_memory_map regions g1)))
     | (Err e, g1) \<Rightarrow> (Err e, (m, g1))
     | (Panic, g1) \<Rightarrow> (Panic, (m, g1)))"

text \<open>\<open>frame_allocator\<close> may be called after \<open>init\<close> only: before it, \<open>get_unchecked\<close> has no defined result.\<close>

definition frame_allocator :: "Mem_statics \<Rightarrow> (unit, MemoryRegion list) outcome" where
  "frame_allocator g = (case memory_map g of None \<Rightarrow> Panic | Some regions \<Rightarrow> Ok regions)"

section \<open>The translation of the processor\<close>

text \<open>Page tables as the processor reads them, by the frame of a table and an index.\<close>

fun mmu :: "(u64 \<Rightarrow> nat \<Rightarrow> entry_frame) \<Rightarrow> nat list \<Rightarrow> u64 \<Rightarrow> entry_frame" where
  "mmu pt [] frame = Frame frame"
| "mmu pt (i # is) frame = (case pt frame i of Frame frame' \<Rightarrow> mmu pt is frame' | e \<Rightarrow> e)"

text \<open>The four fields of nine bits above the offset in a page.\<close>

definition table_indexes :: "u64 \<Rightarrow> nat list" where
  "table_indexes a = map (\<lambda>l. unat a div 2 ^ (12 + 9 * l) mod 512) [3, 2, 1, 0]"

text \<open>The tables as they lie in the memory, all below \<open>2 ^ 47\<close> in the window at the offset.\<close>

definition tables_at :: "'m Walk \<Rightarrow> 'm \<Rightarrow> u64 \<Rightarrow> (u64 \<Rightarrow> nat \<Rightarrow> entry_frame) \<Rightarrow> bool" where
  "tables_at x mem off pt \<longleftrightarrow> unat off + unat (cr3 x mem) < 2 ^ 47 \<and>
     (\<forall>f i. unat off + unat f < 2 ^ 47 \<longrightarrow> table_entry x mem (off + f) i = pt f i) \<and>
     (\<forall>f i f'. pt f i = Frame f' \<longrightarrow> unat off + unat f' < 2 ^ 47)"

locale virt_addr =
  fixes x :: "'m Walk"
  assumes index_law: "p_index x l a = unat a div 2 ^ (12 + 9 * (l - 1)) mod 512"
    and offset_law: "page_offset x a = a mod 4096"
    and new_law: "unat a < 2 ^ 47 \<Longrightarrow> va_new x a = Ok a"
    and add_law: "unat a + unat b < 2 ^ 47 \<Longrightarrow> va_add x a b = Ok (a + b)"
    and phys_law: "unat a + unat b < 2 ^ 52 \<Longrightarrow> pa_add x a b = Ok (a + b)"
begin

lemma walk_mmu:
  assumes "tables_at x mem off pt" and "unat off + unat f < 2 ^ 47"
  shows "walk x mem off is f = (case mmu pt is f of Frame g \<Rightarrow> Ok (Some g) | FrameNotPresent \<Rightarrow> Ok None | HugeFrame \<Rightarrow> Panic)
    \<and> (\<forall>g. mmu pt is f = Frame g \<longrightarrow> unat off + unat g < 2 ^ 47)"
  using assms(2)
proof (induction "is" arbitrary: f)
  case (Cons i "is")
  have entry: "walk x mem off (i # is) f = (case pt f i of Frame f' \<Rightarrow> walk x mem off is f' | FrameNotPresent \<Rightarrow> Ok None
      | HugeFrame \<Rightarrow> Panic)"
    using assms(1) Cons.prems by (simp add: add_law tables_at_def)
  show ?case
  proof (cases "pt f i")
    case (Frame f')
    then have "unat off + unat f' < 2 ^ 47" using assms(1) by (simp add: tables_at_def)
    then show ?thesis using Cons.IH [of f'] entry Frame by simp
  qed (simp_all add: entry del: walk.simps)
qed simp

lemma indexes: "[p_index x 4 a, p_index x 3 a, p_index x 2 a, p_index x 1 a] = table_indexes a"
  by (simp add: table_indexes_def index_law)

end

lemma offset_small: "unat (a mod 4096 :: u64) < 4096"
  by (simp add: unat_mod)

text \<open>Addresses as they are, on a memory that holds its tables in a window at \<open>2 ^ 32\<close>.\<close>

definition window_walk :: "((u64 \<Rightarrow> nat \<Rightarrow> entry_frame) \<times> u64) Walk" where
  "window_walk = \<lparr>va_new = (\<lambda>a. if unat a < 2 ^ 47 then Ok a else Panic),
     va_add = (\<lambda>a b. if unat a + unat b < 2 ^ 47 then Ok (a + b) else Panic),
     pa_add = (\<lambda>a b. if unat a + unat b < 2 ^ 52 then Ok (a + b) else Panic),
     p_index = (\<lambda>l a. unat a div 2 ^ (12 + 9 * (l - 1)) mod 512), page_offset = (\<lambda>a. a mod 4096),
     cr3 = snd, table_entry = (\<lambda>mem virt i. fst mem (virt - 0x100000000) i)\<rparr>"

interpretation window: virt_addr window_walk
  by unfold_locales (simp_all add: window_walk_def)

lemma window_cr3: "cr3 window_walk mem = snd mem"
  by (simp add: window_walk_def)

text \<open>The heap over a table of pages: it is mapped if the memory map has frames enough.\<close>

lemma heap_pages_ok:
  assumes "memory_map_ok regions"
  shows "distinct pages \<Longrightarrow> (\<forall>p \<in> set pages. tables m p = None) \<Longrightarrow>
    allocated_frames m + length pages \<le> length (frame_addresses regions) \<Longrightarrow>
    \<exists>m'. for_each (heap_page table_paging regions) pages m = (Ok (), m')"
proof (induction pages arbitrary: m)
  case (Cons p pages)
  have lt: "allocated_frames m < length (frame_addresses regions)" using Cons.prems by simp
  then have "allocated_frames m \<noteq> usize_max" using length_frame_addresses [OF assms] by simp
  then have "heap_page table_paging regions p m = (Ok (), m\<lparr>allocated_frames := Suc (allocated_frames m),
      tables := (tables m)(p \<mapsto> frame_addresses regions ! allocated_frames m)\<rparr>)"
    using lt Cons.prems by (simp add: heap_page_def run_simps allocate_frame_eq [OF assms table.frames]) (simp add: table_paging_def)
  then show ?case using Cons.prems by (auto simp: bind_Ok [where m = "heap_page table_paging regions p"] intro!: Cons.IH)
qed simp

section \<open>Properties\<close>

text \<open>
  C19. \<open>translate_addr\<close> is the translation of the processor: on page tables in the window of the
  physical memory it gives the frame that the four table indexes of the address lead to, plus
  the offset in the page; \<open>None\<close> when a level is not present; and it panics at a huge page.
\<close>

theorem translate_is_mmu:
  assumes "virt_addr x" and "phys_offset g = Some off" and "unat off < 2 ^ 47" and "tables_at x mem off pt"
  shows "translate_addr x mem a g = (case mmu pt (table_indexes a) (cr3 x mem) of
      Frame f \<Rightarrow> Ok (Some (f + a mod 4096))
    | FrameNotPresent \<Rightarrow> Ok None
    | HugeFrame \<Rightarrow> Panic, g)"
proof -
  have "unat off + unat (cr3 x mem) < 2 ^ 47" using assms(4) by (simp add: tables_at_def)
  note walk = virt_addr.walk_mmu [OF assms(1,4) this, of "table_indexes a"]
  have add: "pa_add x f (a mod 4096) = Ok (f + a mod 4096)" if "unat off + unat f < 2 ^ 47" for f
    using that offset_small [of a] by (intro virt_addr.phys_law [OF assms(1)]) simp
  have "translate_addr_inner x mem a off = (case mmu pt (table_indexes a) (cr3 x mem) of
      Frame f \<Rightarrow> Ok (Some (f + a mod 4096)) | FrameNotPresent \<Rightarrow> Ok None | HugeFrame \<Rightarrow> Panic)"
    unfolding translate_addr_inner_def virt_addr.indexes [OF assms(1)]
    using walk add by (cases "mmu pt (table_indexes a) (cr3 x mem)") (simp_all add: virt_addr.offset_law [OF assms(1)])
  then show ?thesis
    using assms(2,3) by (simp add: translate_addr_def call_once_def virt_addr.new_law [OF assms(1)])
qed

definition sample_tables :: "u64 \<Rightarrow> nat \<Rightarrow> entry_frame" where
  "sample_tables f i = (if f = 0x1000 \<and> i = 0 then Frame 0x2000 else if f = 0x2000 \<and> i = 0 then Frame 0x3000
     else if f = 0x3000 \<and> i = 2 then Frame 0x4000 else if f = 0x4000 \<and> i = 1 then Frame 0x7000 else FrameNotPresent)"

theorem translate_is_mmu_witness:
  "translate_addr window_walk (sample_tables, 0x1000) 0x401234 \<lparr>phys_offset = Some 0x100000000, memory_map = None\<rparr> =
    (Ok (Some 0x7234), \<lparr>phys_offset = Some 0x100000000, memory_map = None\<rparr>)"
proof -
  have "tables_at window_walk (sample_tables, 0x1000) 0x100000000 sample_tables"
    by (auto simp: tables_at_def window_walk_def sample_tables_def split: if_splits)
  moreover have "mmu sample_tables (table_indexes 0x401234) 0x1000 = Frame 0x7000"
    by (simp add: table_indexes_def sample_tables_def)
  ultimately show ?thesis
    using translate_is_mmu [OF window.virt_addr_axioms, of "\<lparr>phys_offset = Some 0x100000000, memory_map = None\<rparr>" "0x100000000"
        "(sample_tables, 0x1000)" sample_tables "0x401234"]
    by (simp add: window_walk_def)
qed

text \<open>
  A translation before \<open>init\<close> spoils the offset for good: the address that was asked for
  becomes the offset of the physical memory, and the start of the memory system keeps it.
\<close>

lemma early_translation_sticks:
  assumes "phys_offset g = None" and "translate_addr x mem a g = (r, g1)"
    and "memory_init x mem pg off regions heap_init heap (m, g1) = (r', (m', g2))"
  shows "phys_offset g2 = Some a"
proof -
  have "phys_offset g1 = Some a" using assms(1,2) by (auto simp: translate_addr_def call_once_def)
  then have "phys_offset (snd (bind (reads (\<lambda>_. va_new x off)) (init_page_table x mem) g1)) = Some a"
    by (simp add: init_page_table_def bind_reads call_once_def run_simps split: outcome.split)
  then show ?thesis using assms(3)
    by (auto simp: memory_init_def set_memory_map_def split: prod.splits outcome.splits)
qed

lemma early_translation_sticks_example:
  "phys_offset (snd (snd (memory_init window_walk (sample_tables, 0x1000) table_paging 0x100000000 sample_regions (\<lambda>_ _ h. h) ()
     (\<lparr>allocated_frames = 0, tables = Map.empty\<rparr>, snd (translate_addr window_walk (sample_tables, 0x1000) 0x5000 \<lparr>phys_offset = None, memory_map = None\<rparr>))))) = Some 0x5000"
  using early_translation_sticks [of "\<lparr>phys_offset = None, memory_map = None\<rparr>" window_walk "(sample_tables, 0x1000)" "0x5000"]
  by (metis prod.collapse select_convs(1))

text \<open>
  C20. The kernel heap: when the memory system starts, every page of the 10 MB of the heap is mapped
  to a usable frame of its own, no other page changes, and the memory map is the one given.
\<close>

theorem heap_mapped:
  assumes "page_mapper pg transl" and "memory_map_ok regions" and "page_range pg HEAP_START HEAP_SIZE = Ok pages"
    and "distinct pages" and "memory_map g = None"
    and "memory_init x mem pg off regions heap_init heap (m, g) = (Ok heap', (m', g'))"
  shows "memory_map g' = Some regions \<and> heap' = heap_init HEAP_START HEAP_SIZE heap \<and>
    (\<exists>ix. inj_on ix (set pages) \<and> transl (tables m') = (\<lambda>p. if p \<in> set pages then Some (ix p) else transl (tables m) p) \<and>
      (\<forall>p \<in> set pages. in_usable regions (ix p)))"
proof -
  obtain v g1 where g1: "bind (reads (\<lambda>_. va_new x off)) (init_page_table x mem) g = (Ok v, g1)"
    and heap: "init_heap pg regions heap_init heap m = (Ok heap', m')" and g': "g' = set_memory_map regions g1"
    using assms(6) by (auto simp: memory_init_def split: prod.splits outcome.splits)
  have "memory_map g1 = None"
    using g1 assms(5) by (auto simp: bind_eq_Ok reads_def init_page_table_def ret_def)
  then have "memory_map g' = Some regions" by (simp add: g' set_memory_map_def call_once_def)
  moreover have run: "for_each (heap_page pg regions) pages m = (Ok (), m')" and "heap' = heap_init HEAP_START HEAP_SIZE heap"
    using heap assms(3) by (auto simp: init_heap_def bind_reads bind_eq_Ok ret_def)
  moreover obtain ix where ix: "inj_on ix (set pages)" "ix ` set pages \<subseteq> {..<length (frame_addresses regions)}"
    "transl (tables m') = (\<lambda>p. if p \<in> set pages then Some (frame_addresses regions ! ix p) else transl (tables m) p)"
    using page_mapper.range_fresh [OF assms(1) page_mapper.heap_page_next [OF assms(1,2)] run assms(4)] by blast
  have "inj_on (\<lambda>p. frame_addresses regions ! ix p) (set pages)"
    using ix(1,2) frame_addresses_ok(1) [OF assms(2)] by (auto simp: inj_on_def nth_eq_iff_index_eq image_subset_iff)
  moreover have "in_usable regions (frame_addresses regions ! ix p)" if "p \<in> set pages" for p
    using that ix(2) frame_addresses_ok(2) [OF assms(2)] by (meson image_subset_iff lessThan_iff nth_mem)
  ultimately show ?thesis using ix(3) by blast
qed

definition heap_region :: MemoryRegion where
  "heap_region = \<lparr>region_start = HEAP_START, region_end = HEAP_START + 0xA00000, usable = True\<rparr>"

lemma heap_pages: "page_range table_paging HEAP_START HEAP_SIZE = Ok (step_by_page HEAP_START (HEAP_START + 0xA00000))"
  by (simp add: page_range_def table_paging_def u64_add_def HEAP_START_def HEAP_SIZE_def step_by_page_def del: upt_Suc)

lemma heap_region_ok: "memory_map_ok [heap_region]"
  by (simp add: memory_map_ok_def heap_region_def region_ok_def HEAP_START_def)

lemma heap_pages_distinct: "distinct (step_by_page HEAP_START (HEAP_START + 0xA00000))"
  using distinct_step_by_page [of heap_region] heap_region_ok by (simp add: memory_map_ok_def heap_region_def)

lemma sample_memory_starts:
  "\<exists>m' g'. memory_init window_walk (sample_tables, 0x1000) table_paging 0x100000000 [heap_region] (\<lambda>_ _ h. h) ()
     (\<lparr>allocated_frames = 0, tables = Map.empty\<rparr>, \<lparr>phys_offset = None, memory_map = None\<rparr>) = (Ok (), (m', g'))"
proof -
  let ?pages = "step_by_page HEAP_START (HEAP_START + 0xA00000)"
  let ?m = "\<lparr>allocated_frames = 0, tables = Map.empty\<rparr> :: (u64 \<rightharpoonup> u64) Mem"
  have "frame_addresses [heap_region] = ?pages" by (simp add: frame_addresses_def heap_region_def)
  then obtain m' where "for_each (heap_page table_paging [heap_region]) ?pages ?m = (Ok (), m')"
    using heap_pages_ok [OF heap_region_ok heap_pages_distinct, of ?m] by auto
  then have "init_heap table_paging [heap_region] (\<lambda>_ _ h. h) () ?m = (Ok (), m')"
    by (simp add: init_heap_def heap_pages bind_reads bind_Ok [where m = "for_each _ _"] ret_def)
  then show ?thesis
    by (simp add: memory_init_def init_page_table_def run_simps call_once_def active_level_4_table_def
        physical_memory_offset_def window.new_law window.add_law window_cr3)
qed

theorem heap_mapped_witness:
  "\<exists>m' g'. memory_init window_walk (sample_tables, 0x1000) table_paging 0x100000000 [heap_region] (\<lambda>_ _ h. h) ()
     (\<lparr>allocated_frames = 0, tables = Map.empty\<rparr>, \<lparr>phys_offset = None, memory_map = None\<rparr>) = (Ok (), (m', g')) \<and>
    memory_map g' = Some [heap_region]"
proof -
  obtain m' g' where run: "memory_init window_walk (sample_tables, 0x1000) table_paging 0x100000000 [heap_region] (\<lambda>_ _ h. h) ()
      (\<lparr>allocated_frames = 0, tables = Map.empty\<rparr>, \<lparr>phys_offset = None, memory_map = None\<rparr>) = (Ok (), (m', g'))"
    using sample_memory_starts by blast
  show ?thesis
    using heap_mapped [OF table.page_mapper_axioms heap_region_ok heap_pages heap_pages_distinct _ run] run by auto
qed

end
