(* ===== verification/Keyboard.thy ===== *)
theory Keyboard
  imports Vga Ports Text
begin

text \<open>
  The keyboard of \<open>kernel/src/internal/keyboard.rs\<close>, from the scan code to the line buffer of the
  console, and what the echo of the console does to the screen.

  The decoder of the crate \<open>pc_keyboard\<close> is the record \<open>Decoder\<close> over its state \<open>'k\<close>; the handler makes
  a new one for every interrupt. \<open>KeyCode\<close> has the codes that the handler names and \<open>OtherKey\<close> for
  the rest. \<open>shutdown\<close> of \<open>acpi.rs\<close> is a parameter.
\<close>

section \<open>Keys\<close>

datatype KeyCode = LAlt | RAltGr | LShift | RShift | LControl | RControl | PageUp | PageDown
  | ArrowUp | ArrowDown | ArrowRight | ArrowLeft | OtherKey nat

datatype KeyState = Up | Down | SingleShot

record KeyEvent =
  ev_code :: KeyCode
  ev_state :: KeyState

datatype DecodedKey = RawKey KeyCode | Unicode rchar

record 'k Decoder =
  kb_new :: 'k
  kb_add_byte :: "u8 \<Rightarrow> 'k \<Rightarrow> (unit, KeyEvent option) outcome \<times> 'k"
  kb_process_keyevent :: "KeyEvent \<Rightarrow> 'k \<Rightarrow> DecodedKey option \<times> 'k"

text \<open>The statics \<open>CTRL\<close>, \<open>ALT\<close>, \<open>SHIFT\<close>, the console and the machine behind the ports.\<close>

record 'p Keys =
  ctrl :: bool
  alt :: bool
  shift :: bool
  console :: Console_state
  hardware :: 'p

section \<open>The handler\<close>

definition read_scancode :: "'p Port_io \<Rightarrow> ('p Keys, 'e, u8) prog" where
  "read_scancode io s = (case inb io 0x60 (hardware s) of (b, p) \<Rightarrow> (Ok b, s\<lparr>hardware := p\<rparr>))"

definition press :: "rchar \<Rightarrow> 'p Keys \<Rightarrow> 'p Keys" where
  "press key s = s\<lparr>console := handle_key key (console s)\<rparr>"

definition handle_csi :: "rchar list \<Rightarrow> 'p Keys \<Rightarrow> 'p Keys" where
  "handle_csi code s = fold press code (press 0x5B (press ESC s))"

definition set_modifier :: "KeyEvent \<Rightarrow> 'p Keys \<Rightarrow> 'p Keys" where
  "set_modifier ev s =
     (let down = (ev_state ev = Down) in
      case ev_code ev of
        LAlt \<Rightarrow> s\<lparr>alt := down\<rparr> | RAltGr \<Rightarrow> s\<lparr>alt := down\<rparr>
      | LShift \<Rightarrow> s\<lparr>shift := down\<rparr> | RShift \<Rightarrow> s\<lparr>shift := down\<rparr>
      | LControl \<Rightarrow> s\<lparr>ctrl := down\<rparr> | RControl \<Rightarrow> s\<lparr>ctrl := down\<rparr>
      | _ \<Rightarrow> s)"

text \<open>\<open>system_msg!\<close>, in the four pieces it prints.\<close>

definition system_msg :: "string \<Rightarrow> 'p Keys \<Rightarrow> 'p Keys" where
  "system_msg msg s = s\<lparr>console := fold kprint
     (map Text [ascii ''['', ascii ''SYSTEM'', ascii ''] '', ascii msg @ [0x0A]]) (console s)\<rparr>"

definition handle_unicode :: "('p \<Rightarrow> 'p) \<Rightarrow> rchar \<Rightarrow> 'p Keys \<Rightarrow> 'p Keys" where
  "handle_unicode shutdown c s =
     (if c = 0x09 \<and> shift s then handle_csi (ascii ''Z'') s
      else
        (let s = (if ctrl s \<and> alt s \<and> c = 0x08
                  then (system_msg ''Rebooting...'' s)\<lparr>hardware := shutdown (hardware s)\<rparr> else s)
         in press c s))"

fun handle_decoded :: "('p \<Rightarrow> 'p) \<Rightarrow> DecodedKey \<Rightarrow> 'p Keys \<Rightarrow> 'p Keys" where
  "handle_decoded shutdown (RawKey PageUp) s = handle_csi (ascii ''5~'') s"
| "handle_decoded shutdown (RawKey PageDown) s = handle_csi (ascii ''6~'') s"
| "handle_decoded shutdown (RawKey ArrowUp) s = handle_csi (ascii ''A'') s"
| "handle_decoded shutdown (RawKey ArrowDown) s = handle_csi (ascii ''B'') s"
| "handle_decoded shutdown (RawKey ArrowRight) s = handle_csi (ascii ''C'') s"
| "handle_decoded shutdown (RawKey ArrowLeft) s = handle_csi (ascii ''D'') s"
| "handle_decoded shutdown (Unicode c) s = handle_unicode shutdown c s"
| "handle_decoded shutdown _ s = s"

definition handle_event :: "'k Decoder \<Rightarrow> ('p \<Rightarrow> 'p) \<Rightarrow> KeyEvent \<Rightarrow> 'k \<Rightarrow> 'p Keys \<Rightarrow> 'p Keys" where
  "handle_event dec shutdown ev kb s =
     (let s = set_modifier ev s in
      case fst (kb_process_keyevent dec ev kb) of
        None \<Rightarrow> s
      | Some key \<Rightarrow> handle_decoded shutdown key s)"

definition interrupt_handler :: "'p Port_io \<Rightarrow> 'k Decoder \<Rightarrow> ('p \<Rightarrow> 'p) \<Rightarrow> ('p Keys, 'e, unit) prog" where
  "interrupt_handler io dec shutdown =
     bind (read_scancode io) (\<lambda>scancode.
     case kb_add_byte dec scancode (kb_new dec) of
       (Ok (Some ev), kb) \<Rightarrow> modify (handle_event dec shutdown ev kb)
     | _ \<Rightarrow> ret ())"

section \<open>Lemmas\<close>

lemma press_fields [simp]: "ctrl (press k s) = ctrl s" "alt (press k s) = alt s" "shift (press k s) = shift s"
  "hardware (press k s) = hardware s" "console (press k s) = handle_key k (console s)"
  by (simp_all add: press_def)

text \<open>In raw mode every key goes to the end of the buffer.\<close>

lemma raw_mode_keys: "raw_mode c \<Longrightarrow> stdin_buf (fold handle_key ks c) = stdin_buf c @ ks \<and> raw_mode (fold handle_key ks c)"
  by (induction ks arbitrary: c) (simp_all add: handle_key_def kprint_def Let_def)

lemma console_fold_press: "console (fold press ks s) = fold handle_key ks (console s)"
  by (induction ks arbitrary: s) simp_all

text \<open>Texts that the console prints, on the screen.\<close>

lemma kprint_text_run: "screen_ok w \<Longrightarrow> kprint_text s w = (Ok (), fold (\<lambda>c. shown (screen_byte (as_u8_char c))) s w)"
  using write_str_run [of w s] by (simp add: kprint_text_def expect_prog_def)

lemma screen_byte_back: "screen_byte (as_u8_char BACKSPACE) = 8"
  by (simp add: screen_byte_def as_u8_char_def BACKSPACE_def)

lemma col_pos_back: "col_pos (shown 8 w) = col_pos w - 1"
  by (simp add: shown_def erased_def)

lemma col_pos_typed: "b \<noteq> 0x0A \<Longrightarrow> b \<noteq> 8 \<Longrightarrow> col_pos w < BUF_WIDTH \<Longrightarrow> col_pos (shown b w) = col_pos w + 1"
  by (simp add: shown_def typed_def wrapped_def)

lemma control_keys: "ESC \<noteq> BACKSPACE" "ESC \<noteq> END_OF_TEXT" "ESC \<noteq> END_OF_TRANSMISSION"
  by (simp_all add: BACKSPACE_def END_OF_TEXT_def END_OF_TRANSMISSION_def ESC_def)

lemma kprint_twice: "kprint_times 2 t c = kprint t (kprint t c)" "replicate 2 x = [x, x]"
  by (simp_all add: numeral_2_eq_2)

section \<open>Properties\<close>

text \<open>
  The prefix of an extended key is forgotten: the decoder is new at every interrupt, so
  that after the byte 0xE0, for which it waits for more, the next byte is handled as if
  the prefix had not come.
\<close>

lemma prefix_forgotten:
  assumes "kb_add_byte dec 0xE0 (kb_new dec) = (Ok None, kb)" and "inb io 0x60 (hardware s) = (0xE0, p)"
  shows "bind (interrupt_handler io dec shutdown) (\<lambda>_. interrupt_handler io dec shutdown) s =
    interrupt_handler io dec shutdown (s\<lparr>hardware := p\<rparr>)"
  using assms by (simp add: interrupt_handler_def [of io dec shutdown] read_scancode_def bind_def ret_def)

text \<open>A keyboard whose bytes lie in a list, and a decoder that knows the prefix and the letter a.\<close>

definition list_port :: "u8 list Port_io" where
  "list_port = \<lparr>inb = (\<lambda>_ bs. case bs of [] \<Rightarrow> (0, []) | b # bs \<Rightarrow> (b, bs)), inw = (\<lambda>_ bs. (0, bs)),
     outb = (\<lambda>_ _ bs. bs), outw = (\<lambda>_ _ bs. bs)\<rparr>"

definition letter_decoder :: "bool Decoder" where
  "letter_decoder = \<lparr>kb_new = False,
     kb_add_byte = (\<lambda>b ext. if b = 0xE0 then (Ok None, True) else (Ok (Some \<lparr>ev_code = OtherKey (unat b), ev_state = Down\<rparr>), ext)),
     kb_process_keyevent = (\<lambda>ev ext. (if ext then None else Some (Unicode 0x61), ext))\<rparr>"

definition sample_keys :: "u8 list Keys" where
  "sample_keys = \<lparr>ctrl = False, alt = False, shift = False,
     console = \<lparr>stdin_buf = [], raw_mode = False, echo = True, screen = []\<rparr>, hardware = [0xE0, 0x1E]\<rparr>"

lemma prefix_forgotten_example:
  "stdin_buf (console (snd (bind (interrupt_handler list_port letter_decoder id)
     (\<lambda>_. interrupt_handler list_port letter_decoder id) sample_keys :: (unit, unit) outcome \<times> _))) = [0x61]"
proof -
  have "kb_add_byte letter_decoder 0xE0 (kb_new letter_decoder) = (Ok None, True)" by (simp add: letter_decoder_def)
  moreover have "inb list_port 0x60 (hardware sample_keys) = (0xE0, [0x1E])" by (simp add: list_port_def sample_keys_def)
  ultimately have eq: "(bind (interrupt_handler list_port letter_decoder id) (\<lambda>_. interrupt_handler list_port letter_decoder id) sample_keys
      :: (unit, unit) outcome \<times> _) = interrupt_handler list_port letter_decoder id (sample_keys\<lparr>hardware := [0x1E]\<rparr>)"
    by (rule prefix_forgotten)
  show ?thesis
    unfolding eq
    by (simp add: interrupt_handler_def read_scancode_def run_simps handle_event_def set_modifier_def handle_unicode_def
        handle_key_def kprint_def Let_def BACKSPACE_def list_port_def letter_decoder_def sample_keys_def
        END_OF_TEXT_def END_OF_TRANSMISSION_def ESC_def echo_text_def)
qed

text \<open>
  Typing and taking back a printable character, with echo and outside raw mode: the line
  buffer is as before, and on the screen only the cell of the character is blank.
\<close>

lemma backspace_undoes_key:
  assumes "echo c" and "\<not> raw_mode c" and "printable k" and "screen_ok w" and "col_pos w < BUF_WIDTH"
  shows "\<exists>ts w'. stdin_buf (handle_key BACKSPACE (handle_key k c)) = stdin_buf c \<and>
    screen (handle_key BACKSPACE (handle_key k c)) = screen c @ map Text ts \<and>
    for_each kprint_text ts w = (Ok (), w') \<and> col_pos w' = col_pos w \<and>
    rows w' = (rows w)[BUF_HEIGHT - 1 := (rows w ! (BUF_HEIGHT - 1))[col_pos w := blank w]]"
proof -
  have k: "k \<noteq> BACKSPACE" "k \<noteq> END_OF_TEXT" "k \<noteq> END_OF_TRANSMISSION" "k \<noteq> ESC" "k < 0xFF"
    using assms(3) by (auto simp: printable_def BACKSPACE_def END_OF_TEXT_def END_OF_TRANSMISSION_def ESC_def word_le_nat_alt word_less_nat_alt)
  let ?ts = "[[k], [BACKSPACE]]"
  have "stdin_buf (handle_key BACKSPACE (handle_key k c)) = stdin_buf c"
    "screen (handle_key BACKSPACE (handle_key k c)) = screen c @ map Text ?ts"
    using assms(1,2) k by (simp_all add: handle_key_def Let_def stdin_pop_def kprint_def echo_text_def backspaces_def)
  moreover have "for_each kprint_text ?ts w = (Ok (), shown 8 (shown (as_u8_char k) w))"
    using kprint_text_run [OF assms(4), of "[k]"] kprint_text_run [OF shown_ok [OF assms(4)], of "[BACKSPACE]"]
    by (simp add: bind_def ret_def printable_byte [OF assms(3)] screen_byte_back)
  moreover have "col_pos (shown 8 (shown (as_u8_char k) w)) = col_pos w"
    using col_pos_typed [of "as_u8_char k" w] printable_byte(2,3) [OF assms(3)] assms(5) by (simp add: col_pos_back)
  moreover have "rows (shown 8 (shown (as_u8_char k) w)) = (rows w)[BUF_HEIGHT - 1 := (rows w ! (BUF_HEIGHT - 1))[col_pos w := blank w]]"
    using printable_byte(2,3) [OF assms(3)] assms(4,5)
    by (simp add: shown_def typed_def wrapped_def erased_def screen_ok_def blank_def BUF_HEIGHT_def)
  ultimately show ?thesis by blast
qed

definition sample_console :: Console_state where
  "sample_console = \<lparr>stdin_buf = [0x61], raw_mode = False, echo = True, screen = []\<rparr>"

lemma backspace_undoes_key_example: "stdin_buf (handle_key BACKSPACE (handle_key 0x62 sample_console)) = [0x61]"
  using backspace_undoes_key [of sample_console "0x62" sample_writer] sample_writer_ok
  by (simp add: sample_console_def printable_def sample_writer_def VgaWriter_new_def BUF_WIDTH_def)

text \<open>
  Taking back a control key erases too much: \<open>ESC\<close> is echoed as two characters, and its
  backspace prints two times two backspaces, which erase two characters more than were echoed.
\<close>

lemma escape_backspace_erases_twice:
  assumes "echo c" and "\<not> raw_mode c" and "screen_ok w" and "2 \<le> col_pos w" and "col_pos w + 2 \<le> BUF_WIDTH"
  shows "\<exists>ts w'. stdin_buf (handle_key BACKSPACE (handle_key ESC c)) = stdin_buf c \<and>
    screen (handle_key BACKSPACE (handle_key ESC c)) = screen c @ map Text ts \<and>
    for_each kprint_text ts w = (Ok (), w') \<and> col_pos w' + 2 = col_pos w"
proof -
  let ?ts = "[[0x5E, 0x5B], [BACKSPACE, BACKSPACE], [BACKSPACE, BACKSPACE]]"
  let ?e = "shown 0x5B (shown 0x5E w)"
  have "stdin_buf (handle_key BACKSPACE (handle_key ESC c)) = stdin_buf c"
    "screen (handle_key BACKSPACE (handle_key ESC c)) = screen c @ map Text ?ts"
    using assms(1,2)
    by (simp_all add: handle_key_def Let_def stdin_pop_def kprint_def echo_text_def backspaces_def kprint_twice
        control_keys)
  moreover have "screen_byte (as_u8_char 0x5E) = 0x5E" "screen_byte (as_u8_char 0x5B) = 0x5B"
    by (simp_all add: screen_byte_def as_u8_char_def)
  then have "for_each kprint_text ?ts w = (Ok (), shown 8 (shown 8 (shown 8 (shown 8 ?e))))"
    using assms(3) by (simp add: bind_def ret_def kprint_text_run shown_ok screen_byte_back)
  moreover have "col_pos (shown 8 (shown 8 (shown 8 (shown 8 ?e)))) + 2 = col_pos w"
    using assms(4,5) col_pos_typed [of "0x5E" w] col_pos_typed [of "0x5B" "shown 0x5E w"] by (simp add: col_pos_back)
  ultimately show ?thesis by blast
qed

lemma escape_backspace_erases_twice_example:
  "stdin_buf (handle_key BACKSPACE (handle_key ESC sample_console)) = [0x61]"
  using escape_backspace_erases_twice [of sample_console "sample_writer\<lparr>col_pos := 7\<rparr>"]
  by (simp add: sample_console_def screen_ok_def sample_writer_def VgaWriter_new_def BUF_WIDTH_def)

end
