(* ===== verification/Logger.thy ===== *)
theory Logger
  imports Vga
begin

text \<open>
  The messages of \<open>kernel/src/lib.rs\<close> and \<open>main.rs\<close>: the logger on the screen, the choice of its level
  by the features of the build, the coloured banner, the screen of a panic, and the runner of
  the kernel's own tests. The time \<open>{:.6}\<close> in a log line is a text given to the logger.
\<close>

section \<open>Levels\<close>

datatype Level = Error_level | Warn_level | Info_level | Debug_level | Trace_level

fun level_rank :: "Level \<Rightarrow> nat" where
  "level_rank Error_level = 1"
| "level_rank Warn_level = 2"
| "level_rank Info_level = 3"
| "level_rank Debug_level = 4"
| "level_rank Trace_level = 5"

record features =
  trace_log :: bool
  debug_log :: bool
  info_log :: bool
  warn_log :: bool
  error_log :: bool

text \<open>The definitions of \<open>LOG_LEVEL\<close> that a build has; with none or with two it does not compile.\<close>

definition LOG_LEVELS :: "features \<Rightarrow> Level list" where
  "LOG_LEVELS f =
     (if trace_log f then [Trace_level] else []) @ (if debug_log f then [Debug_level] else []) @
     (if warn_log f then [Warn_level] else []) @ (if error_log f then [Error_level] else []) @
     (if info_log f \<and> \<not> (trace_log f \<or> debug_log f \<or> warn_log f \<or> error_log f) then [Info_level] else [])"

definition log_enabled :: "Level \<Rightarrow> Level \<Rightarrow> bool" where
  "log_enabled max_level l \<longleftrightarrow> level_rank l \<le> level_rank max_level"

section \<open>A log line\<close>

text \<open>The name of the level in its colour; that of an error is not printed.\<close>

fun print_level :: "Level \<Rightarrow> (VgaWriter, unit, unit) prog" where
  "print_level Error_level = ret ()"
| "print_level Warn_level = write_str (ascii ''WARN'') Yellow Black"
| "print_level Info_level = write_str (ascii ''INFO'') LightBlue Black"
| "print_level Debug_level = write_str (ascii ''DEBUG'') LightGreen Black"
| "print_level Trace_level = write_str (ascii ''TRACE'') LightCyan Black"

text \<open>\<open>loc\<close> is module, file and line, which a build with \<open>trace_log\<close> prints.\<close>

definition log_record :: "rchar list \<Rightarrow> rchar list option \<Rightarrow> Level \<Rightarrow> Level \<Rightarrow> rchar list
    \<Rightarrow> (VgaWriter, unit, unit) prog" where
  "log_record time loc max_level l msg =
     (if \<not> log_enabled max_level l then ret ()
      else
        bind (kprint_text (ascii ''['' @ time @ ascii ''] '' @ ascii ''[ '')) (\<lambda>_.
        bind (print_level l) (\<lambda>_.
        bind (if l = Warn_level \<or> l = Info_level then kprint_text (ascii '' '') else ret ()) (\<lambda>_.
        bind (kprint_text (ascii ''] '' @ msg)) (\<lambda>_.
        bind (case loc of None \<Rightarrow> ret () | Some t \<Rightarrow> kprintln_text (ascii '' ['' @ t @ ascii '']'')) (\<lambda>_.
        if l = Error_level then panic else ret ()))))))"

section \<open>Banner and panic\<close>

fun next_color :: "Color \<Rightarrow> Color" where
  "next_color Red = LightRed"
| "next_color LightRed = Yellow"
| "next_color Yellow = LightGreen"
| "next_color LightGreen = LightCyan"
| "next_color LightCyan = LightBlue"
| "next_color LightBlue = Magenta"
| "next_color Magenta = Pink"
| "next_color _ = Red"

definition rainbow_char :: "rchar \<Rightarrow> Color \<Rightarrow> (VgaWriter, unit, Color) prog" where
  "rainbow_char c fg =
     bind (write_char c fg Black) (\<lambda>_. ret (if c = 0x0A \<or> c = 0x20 then fg else next_color fg))"

definition write_str_rainbow :: "rchar list \<Rightarrow> (VgaWriter, unit, unit) prog" where
  "write_str_rainbow s = bind (for_acc rainbow_char s Red) (\<lambda>_. ret ())"

text \<open>The panic handler of \<open>main.rs\<close> prints the message and halts.\<close>

definition panic_screen :: "rchar list \<Rightarrow> (VgaWriter, unit, unit) prog" where
  "panic_screen msg = write_str (ascii ''PANIC: '' @ msg @ [0x0A]) Red Black"

section \<open>The test runner\<close>

datatype QemuExitCode = QemuSuccess | QemuFailed

fun qemu_value :: "QemuExitCode \<Rightarrow> u32" where
  "qemu_value QemuSuccess = 0x10"
| "qemu_value QemuFailed = 0x11"

text \<open>The text on the serial port, and the values written to port 0xf4, of which the first ends QEMU.\<close>

record Harness =
  serial_text :: string
  exit_port :: "u32 list"

definition serial_put :: "string \<Rightarrow> Harness \<Rightarrow> Harness" where
  "serial_put t h = h\<lparr>serial_text := serial_text h @ t\<rparr>"

definition exit_qemu :: "QemuExitCode \<Rightarrow> Harness \<Rightarrow> Harness" where
  "exit_qemu c h = h\<lparr>exit_port := exit_port h @ [qemu_value c]\<rparr>"

type_synonym test_case = "string \<times> (Harness, unit, unit) prog"

definition run_test :: "test_case \<Rightarrow> (Harness, unit, unit) prog" where
  "run_test t =
     bind (modify (serial_put (fst t @ ''...'' @ [CHR 0x09]))) (\<lambda>_.
     bind (snd t) (\<lambda>_. modify (serial_put (''[ok]'' @ [CHR 0x0A]))))"

definition test_runner :: "test_case list \<Rightarrow> string \<Rightarrow> (Harness, unit, unit) prog" where
  "test_runner tests count =
     bind (modify (serial_put (''Running '' @ count @ '' tests'' @ [CHR 0x0A]))) (\<lambda>_.
     bind (for_each run_test tests) (\<lambda>_. modify (exit_qemu QemuSuccess)))"

definition test_panic_handler :: "string \<Rightarrow> Harness \<Rightarrow> Harness" where
  "test_panic_handler info h = exit_qemu QemuFailed
     (serial_put (''Error: '' @ info @ [CHR 0x0A, CHR 0x0A]) (serial_put (''[failed]'' @ [CHR 0x0A, CHR 0x0A]) h))"

text \<open>A panic anywhere in the run ends in the handler.\<close>

definition run_tests :: "test_case list \<Rightarrow> string \<Rightarrow> string \<Rightarrow> Harness \<Rightarrow> Harness" where
  "run_tests tests count info h = (case test_runner tests count h of
      (Panic, h') \<Rightarrow> test_panic_handler info h'
    | (_, h') \<Rightarrow> h')"

section \<open>Lemmas\<close>

text \<open>What reaches the serial port: the ASCII bytes, in order.\<close>

lemma serial_shown: "serial (shown b w) = serial w @ (if b < 0x80 then [b] else [])"
  by (simp add: shown_def scrolled_def erased_def typed_def wrapped_def logged_def)

definition plain :: "rchar \<Rightarrow> bool" where
  "plain c \<longleftrightarrow> printable c \<or> c = 0x0A"

lemma plain_byte: "plain c \<Longrightarrow> screen_byte (as_u8_char c) = as_u8_char c \<and> as_u8_char c < 0x80"
  by (auto simp: plain_def printable_def screen_byte_def as_u8_char_def word_le_nat_alt word_less_nat_alt unsigned_ucast_eq
      take_bit_nat_eq_self)

lemma kprint_plain:
  assumes "screen_ok w" and "\<forall>c \<in> set s. plain c"
  obtains w' where "kprint_text s w = (Ok (), w')" and "screen_ok w'" and "color_code w' = color_code w"
    and "serial w' = serial w @ map as_u8_char s"
proof -
  let ?w = "fold (\<lambda>c. shown (screen_byte (as_u8_char c))) s w"
  have "serial ?w = serial w @ map as_u8_char s \<and> color_code ?w = color_code w"
    using assms(2) by (induction s arbitrary: w) (simp_all add: serial_shown plain_byte shown_color)
  moreover have "kprint_text s w = (Ok (), ?w)" using write_str_run [OF assms(1), of s] by (simp add: kprint_text_def expect_prog_def)
  ultimately show thesis using that fold_shown_ok [OF assms(1)] by blast
qed

lemma write_char_plain:
  assumes "screen_ok w" and "plain c"
  obtains w' where "write_char c fg bg w = (Ok (), w')" and "screen_ok w'" and "color_code w' = color_code w"
    and "serial w' = serial w @ [as_u8_char c]"
proof -
  let ?w = "w\<lparr>color_code := ColorCode_new fg bg\<rparr>"
  have ok: "screen_ok ?w" using assms(1) by (simp add: screen_ok_def)
  have "write_char c fg bg w = (Ok (), (shown (as_u8_char c) ?w)\<lparr>color_code := color_code w\<rparr>)"
    by (simp add: write_char_def run_simps write_byte_run [OF ok])
  moreover have "screen_ok ((shown (as_u8_char c) ?w)\<lparr>color_code := color_code w\<rparr>)"
    using shown_ok [OF ok, of "as_u8_char c"] by (simp add: screen_ok_def)
  ultimately show thesis using that plain_byte [OF assms(2)] by (simp add: serial_shown)
qed

lemma write_str_plain:
  assumes "screen_ok w" and "\<forall>c \<in> set s. plain c"
  obtains w' where "write_str s fg bg w = (Ok (), w')" and "screen_ok w'" and "color_code w' = color_code w"
    and "serial w' = serial w @ map as_u8_char s"
proof -
  have "\<exists>w'. write_str s fg bg w = (Ok (), w') \<and> screen_ok w' \<and> color_code w' = color_code w \<and>
      serial w' = serial w @ map as_u8_char s"
    using assms
  proof (induction s arbitrary: w)
    case (Cons c s)
    obtain w1 where w1: "write_char c fg bg w = (Ok (), w1)" "screen_ok w1" "color_code w1 = color_code w"
      "serial w1 = serial w @ [as_u8_char c]"
      using write_char_plain [of w c fg bg] Cons.prems by auto
    then show ?case using Cons.IH [of w1] Cons.prems by (auto simp: write_str_def bind_Ok [where m = "write_char c fg bg"])
  qed (simp add: write_str_def)
  then show thesis using that by blast
qed

text \<open>The text of a line.\<close>

fun level_name :: "Level \<Rightarrow> string" where
  "level_name Error_level = ''''"
| "level_name Warn_level = ''WARN ''"
| "level_name Info_level = ''INFO ''"
| "level_name Debug_level = ''DEBUG''"
| "level_name Trace_level = ''TRACE''"

definition log_text :: "rchar list \<Rightarrow> Level \<Rightarrow> rchar list \<Rightarrow> rchar list" where
  "log_text time l msg = ascii ''['' @ time @ ascii ''] [ '' @ ascii (level_name l) @ ascii ''] '' @ msg"

lemma ascii_append: "ascii (s @ t) = ascii s @ ascii t"
  by (simp add: ascii_def)

lemma unat_of_char_rchar: "unat (of_char c :: rchar) = of_char c"
proof -
  have "(of_char c :: nat) < 2 ^ 8" by simp
  then have "(of_char c :: nat) < 2 ^ 32" by (rule order.strict_trans) simp
  then have "unat (word_of_nat (of_char c) :: rchar) = of_char c"
    by (simp only: unsigned_of_nat) (simp add: take_bit_nat_eq_self)
  then show ?thesis by (simp only: of_nat_of_char)
qed

lemma plain_ascii: "\<forall>c \<in> set s. 0x20 \<le> (of_char c :: nat) \<and> of_char c \<le> (0x7E :: nat) \<Longrightarrow> \<forall>c \<in> set (ascii s). plain c"
  by (auto simp: ascii_def plain_def printable_def word_le_nat_alt unat_of_char_rchar)

lemma print_level_plain:
  assumes "screen_ok w" and "l \<noteq> Error_level"
  obtains w' where "bind (print_level l) (\<lambda>_. if l = Warn_level \<or> l = Info_level then kprint_text (ascii '' '') else ret ()) w
      = (Ok (), w')" and "screen_ok w'" and "color_code w' = color_code w" and "serial w' = serial w @ map as_u8_char (ascii (level_name l))"
proof -
  note found = that
  have blank: "\<forall>c \<in> set (ascii '' ''). plain c" by (rule plain_ascii) simp
  have named: thesis if l: "print_level l = write_str (ascii name) fg Black" "l = Warn_level \<or> l = Info_level" "level_name l = name @ '' ''"
    and name: "\<forall>c \<in> set (ascii name). plain c" for name fg
  proof -
    obtain w1 where w1: "write_str (ascii name) fg Black w = (Ok (), w1)" "screen_ok w1" "color_code w1 = color_code w"
      "serial w1 = serial w @ map as_u8_char (ascii name)" using write_str_plain [OF assms(1) name] by metis
    obtain w2 where w2: "kprint_text (ascii '' '') w1 = (Ok (), w2)" "screen_ok w2" "color_code w2 = color_code w1"
      "serial w2 = serial w1 @ map as_u8_char (ascii '' '')" using kprint_plain [OF w1(2) blank] by metis
    show thesis using found [of w2] w1 w2 l by (simp add: bind_def ascii_append)
  qed
  have bare: thesis if l: "print_level l = write_str (ascii name) fg Black" "l \<noteq> Warn_level" "l \<noteq> Info_level" "level_name l = name"
    and name: "\<forall>c \<in> set (ascii name). plain c" for name fg
  proof -
    obtain w1 where "write_str (ascii name) fg Black w = (Ok (), w1)" "screen_ok w1" "color_code w1 = color_code w"
      "serial w1 = serial w @ map as_u8_char (ascii name)" using write_str_plain [OF assms(1) name] by metis
    then show thesis using found [of w1] l by (simp add: bind_def ret_def)
  qed
  show thesis
  proof (cases l)
    case Warn_level
    then show ?thesis by (intro named [of "''WARN''" Yellow] plain_ascii) simp_all
  next
    case Info_level
    then show ?thesis by (intro named [of "''INFO''" LightBlue] plain_ascii) simp_all
  next
    case Debug_level
    then show ?thesis by (intro bare [of "''DEBUG''" LightGreen] plain_ascii) simp_all
  next
    case Trace_level
    then show ?thesis by (intro bare [of "''TRACE''" LightCyan] plain_ascii) simp_all
  qed (use assms(2) in simp)
qed

lemma kprint_ok: "screen_ok w \<Longrightarrow> \<exists>w'. kprint_text s w = (Ok (), w') \<and> screen_ok w'"
  using write_str_run [of w s] fold_shown_ok [of w s] by (simp add: kprint_text_def expect_prog_def)

section \<open>Properties\<close>

text \<open>
  A message below the level of errors is printed whole, name of its level included, to the
  screen and the serial port, without a panic and in the colours of before; and no line feed
  follows it in a build without \<open>trace_log\<close>, so that the next message continues the line.
\<close>

lemma log_line:
  assumes "screen_ok w" and "log_enabled max_level l" and "l \<noteq> Error_level"
    and "\<forall>c \<in> set time. plain c" and "\<forall>c \<in> set msg. plain c"
  shows "\<exists>w'. log_record time None max_level l msg w = (Ok (), w') \<and> screen_ok w' \<and> color_code w' = color_code w \<and>
    serial w' = serial w @ map as_u8_char (log_text time l msg)"
proof -
  have time: "\<forall>c \<in> set (ascii ''['' @ time @ ascii ''] '' @ ascii ''[ ''). plain c"
    using assms(4) plain_ascii [of "''[''"] plain_ascii [of "''] ''"] plain_ascii [of "''[ ''"] by auto
  obtain w1 where w1: "kprint_text (ascii ''['' @ time @ ascii ''] '' @ ascii ''[ '') w = (Ok (), w1)" "screen_ok w1"
    "color_code w1 = color_code w" "serial w1 = serial w @ map as_u8_char (ascii ''['' @ time @ ascii ''] '' @ ascii ''[ '')"
    using kprint_plain [OF assms(1) time] by blast
  obtain w2 where w2: "bind (print_level l) (\<lambda>_. if l = Warn_level \<or> l = Info_level then kprint_text (ascii '' '') else ret ()) w1
      = (Ok (), w2)" "screen_ok w2" "color_code w2 = color_code w1" "serial w2 = serial w1 @ map as_u8_char (ascii (level_name l))"
    using print_level_plain [OF w1(2) assms(3)] by blast
  have msg: "\<forall>c \<in> set (ascii ''] '' @ msg). plain c" using assms(5) plain_ascii [of "''] ''"] by auto
  obtain w3 where w3: "kprint_text (ascii ''] '' @ msg) w2 = (Ok (), w3)" "screen_ok w3" "color_code w3 = color_code w2"
    "serial w3 = serial w2 @ map as_u8_char (ascii ''] '' @ msg)"
    using kprint_plain [OF w2(2) msg] by blast
  obtain v where v: "print_level l w1 = (Ok (), v)"
    and space: "(if l = Warn_level \<or> l = Info_level then kprint_text (ascii '' '') else ret ()) v = (Ok (), w2)"
    using w2(1) by (auto simp: bind_eq_Ok)
  have "log_record time None max_level l msg w = bind (kprint_text (ascii ''] '' @ msg)) (\<lambda>_. bind (ret ()) (\<lambda>_. ret ())) w2"
    using assms(2,3) by (simp add: log_record_def bind_Ok [where m = "kprint_text _", OF w1(1)]
        bind_Ok [where m = "print_level l", OF v] bind_Ok [where m = "if _ then _ else _", OF space])
  then have "log_record time None max_level l msg w = (Ok (), w3)" using w3(1) by (simp add: bind_Ok ret_def)
  moreover have "serial w3 = serial w @ map as_u8_char (log_text time l msg)"
    using w1(4) w2(4) w3(4) by (simp add: log_text_def ascii_def)
  ultimately show ?thesis using w1(3) w2(3) w3(2,3) by auto
qed

lemma log_line_example:
  "\<exists>w'. log_record (ascii ''1.5'') None Info_level Info_level (ascii ''up'') sample_writer = (Ok (), w') \<and>
    serial w' = map of_char ''[1.5] [ INFO ] up''"
proof -
  have plain: "\<forall>c \<in> set (ascii ''1.5''). plain c" "\<forall>c \<in> set (ascii ''up''). plain c"
    by (rule plain_ascii; simp)+
  have "log_enabled Info_level Info_level" "serial sample_writer = []"
    by (simp_all add: log_enabled_def sample_writer_def VgaWriter_new_def)
  then show ?thesis using log_line [OF sample_writer_ok _ _ plain, of Info_level Info_level]
    by (auto simp: log_text_def ascii_def as_u8_char_def)
qed

text \<open>
  Logging an error is fatal at every level of the logger.
\<close>

lemma error_log_fatal:
  assumes "screen_ok w"
  shows "fst (log_record time None max_level Error_level msg w) = Panic"
proof -
  have "log_enabled max_level Error_level" by (cases max_level) (simp_all add: log_enabled_def)
  then show ?thesis
    using kprint_ok [OF assms] kprint_ok
    by (auto simp: log_record_def bind_def ret_def panic_def split: prod.splits outcome.splits) (metis prod.inject outcome.distinct)+
qed

text \<open>
  The verdict of the test runner, for tests that leave the exit port alone: success if none of
  them panics, and else failure.
\<close>

lemma test_verdict:
  assumes "\<And>t h. t \<in> set tests \<Longrightarrow> exit_port (snd (snd t h)) = exit_port h"
    and "\<And>t h. t \<in> set tests \<Longrightarrow> \<not> is_err (fst (snd t h))"
  shows "exit_port (run_tests tests count info h) =
    exit_port h @ [if is_ok (fst (for_each run_test tests (serial_put (''Running '' @ count @ '' tests'' @ [CHR 0x0A]) h)))
      then 0x10 else 0x11]"
proof -
  have loop: "exit_port (snd (for_each run_test tests h)) = exit_port h \<and> \<not> is_err (fst (for_each run_test tests h))" for h
    using assms
  proof (induction tests arbitrary: h)
    case (Cons t tests)
    let ?h = "serial_put (fst t @ ''...'' @ [CHR 0x09]) h"
    have t: "exit_port (snd (snd t ?h)) = exit_port h" "\<not> is_err (fst (snd t ?h))"
      using Cons.prems(1) [of t ?h] Cons.prems(2) [of t ?h] by (simp_all add: serial_put_def)
    have "run_test t h = (case snd t ?h of (Ok _, h1) \<Rightarrow> (Ok (), serial_put (''[ok]'' @ [CHR 0x0A]) h1) | r \<Rightarrow> r)"
      by (simp add: run_test_def bind_def modify_def split: prod.split outcome.split)
    then obtain r h1 where run: "run_test t h = (r, h1)" "exit_port h1 = exit_port h" "\<not> is_err r"
      using t by (cases "snd t ?h"; cases "fst (snd t ?h)") (auto simp: serial_put_def)
    have "exit_port (snd (for_each run_test tests h1)) = exit_port h1 \<and> \<not> is_err (fst (for_each run_test tests h1))"
      using Cons.prems by (intro Cons.IH) auto
    then show ?case using run by (cases r) (simp_all add: bind_def)
  qed simp
  show ?thesis
    using loop [of "serial_put (''Running '' @ count @ '' tests'' @ [CHR 0x0A]) h"]
    by (cases "for_each run_test tests (serial_put (''Running '' @ count @ '' tests'' @ [CHR 0x0A]) h)"; cases "fst (for_each
        run_test tests (serial_put (''Running '' @ count @ '' tests'' @ [CHR 0x0A]) h))")
      (auto simp: run_tests_def test_runner_def bind_def modify_def exit_qemu_def test_panic_handler_def serial_put_def)
qed

end
