(* ===== verification/Acpi.thy ===== *)
theory Acpi
  imports Paging Keyboard Logger
begin

text \<open>
  Power management of \<open>kernel/src/internal/acpi.rs\<close>: what \<open>init\<close> takes from the ACPI tables, and
  \<open>shutdown\<close>, which the keyboard and the system call \<open>STOP\<close> reach. The crates \<open>acpi\<close> and \<open>aml\<close> are
  parameters: the tables they find and the namespace that the AML interpreter makes of the DSDT
  with the callbacks of \<open>HandleAml\<close>. \<open>rd\<close> reads bytes at a virtual address.
\<close>

section \<open>Data\<close>

datatype ProcessorState = ProcDisabled | ProcRunning | WaitingForSipi

record Processor =
  processor_uid :: u32
  local_apic_id :: u32
  cpu_state :: ProcessorState

text \<open>
  The tables: \<open>platform_info\<close> with its \<open>processor_info\<close>, the address in \<open>pm1a_control_block\<close> of the
  FADT, and address and length of the DSDT; \<open>None\<close> for an \<open>Err\<close> of the crate.
\<close>

record AcpiTables =
  platform_info :: "(Processor \<times> Processor list) option option"
  fadt_pm1a :: "u64 option option"
  dsdt :: "(u64 \<times> u32) option"

datatype AmlValue = AmlInteger u64 | AmlPackage "AmlValue list" | AmlOther

text \<open>The statics \<open>PM1A_CNT_BLK\<close> and \<open>SLP_TYPA\<close>, those of the memory system, and the log.\<close>

record Acpi_state =
  pm1a_cnt_blk :: u32
  slp_typa :: u16
  statics :: Mem_statics
  acpi_log :: "(Level \<times> string) list"

definition SLP_LEN :: u16 where
  "SLP_LEN = push_bit 13 1"

section \<open>Callbacks\<close>

definition on_statics :: "(Mem_statics, unit, 'a) prog \<Rightarrow> (Acpi_state, unit, 'a) prog" where
  "on_statics m s = (case m (statics s) of (r, g) \<Rightarrow> (r, s\<lparr>statics := g\<rparr>))"

text \<open>A \<open>PhysicalMapping\<close>: physical start, virtual start, length, mapped length.\<close>

definition map_physical_region :: "'m Walk \<Rightarrow> u64 \<Rightarrow> nat \<Rightarrow> (Mem_statics, unit, u64 \<times> u64 \<times> nat \<times> nat) prog" where
  "map_physical_region x addr sz =
     bind (reverse_translate x addr) (\<lambda>virt. if virt = 0 then panic else ret (addr, virt, sz, sz))"

definition read_addr :: "'m Walk \<Rightarrow> (u64 \<Rightarrow> nat \<Rightarrow> u8 list) \<Rightarrow> nat \<Rightarrow> u64 \<Rightarrow> (Mem_statics, unit, u64) prog" where
  "read_addr x rd width addr = bind (reverse_translate x addr) (\<lambda>virt. ret (from_le_bytes (rd virt width)))"

text \<open>The interpreter reads memory; all other accesses are not implemented and panic.\<close>

datatype aml_request = Read_mem nat u64 | Write_mem | Read_io | Write_io | Read_pci | Write_pci

fun HandleAml :: "'m Walk \<Rightarrow> (u64 \<Rightarrow> nat \<Rightarrow> u8 list) \<Rightarrow> aml_request \<Rightarrow> (Mem_statics, unit, u64) prog" where
  "HandleAml x rd (Read_mem width addr) = read_addr x rd width addr"
| "HandleAml x rd _ = panic"

type_synonym aml_parser = "(aml_request \<Rightarrow> (Mem_statics, unit, u64) prog) \<Rightarrow> u8 list
    \<Rightarrow> (Mem_statics, unit, string \<rightharpoonup> AmlValue) prog"

section \<open>Start and shutdown\<close>

definition log_msg :: "Level \<Rightarrow> string \<Rightarrow> Acpi_state \<Rightarrow> Acpi_state" where
  "log_msg l msg s = s\<lparr>acpi_log := acpi_log s @ [(l, msg)]\<rparr>"

fun state_name :: "ProcessorState \<Rightarrow> string" where
  "state_name ProcDisabled = ''disabled''"
| "state_name ProcRunning = ''running''"
| "state_name WaitingForSipi = ''waiting for SIPI''"

definition log_cpu :: "Processor \<Rightarrow> Acpi_state \<Rightarrow> Acpi_state" where
  "log_cpu cpu = log_msg Info_level (''CPU: '' @ show_nat (unat (processor_uid cpu)) @ '' (APIC ID: '' @
     show_nat (unat (local_apic_id cpu)) @ '', State: '' @ state_name (cpu_state cpu) @ '')'')"

definition log_cpus :: "AcpiTables \<Rightarrow> Acpi_state \<Rightarrow> Acpi_state" where
  "log_cpus acpi s = (case platform_info acpi of
      Some (Some (boot, apps)) \<Rightarrow> fold log_cpu apps (log_cpu boot s)
    | _ \<Rightarrow> s)"

definition store_pm1a :: "AcpiTables \<Rightarrow> Acpi_state \<Rightarrow> Acpi_state" where
  "store_pm1a acpi s = (case fadt_pm1a acpi of
      Some (Some address) \<Rightarrow> s\<lparr>pm1a_cnt_blk := ucast address\<rparr>
    | _ \<Rightarrow> s)"

definition store_s5 :: "(string \<rightharpoonup> AmlValue) \<Rightarrow> Acpi_state \<Rightarrow> Acpi_state" where
  "store_s5 namespace s = (case namespace ([CHR 0x5C] @ ''_S5'') of
      Some (AmlPackage (AmlInteger val # _)) \<Rightarrow> s\<lparr>slp_typa := ucast val\<rparr>
    | _ \<Rightarrow> s)"

definition load_dsdt :: "'m Walk \<Rightarrow> (u64 \<Rightarrow> nat \<Rightarrow> u8 list) \<Rightarrow> aml_parser \<Rightarrow> AcpiTables \<Rightarrow> (Acpi_state, unit, unit) prog" where
  "load_dsdt x rd parse acpi = (case dsdt acpi of
      None \<Rightarrow> modify (log_msg Warn_level ''ACPI: Failed to parse DSDT'')
    | Some (address, len) \<Rightarrow>
        bind (on_statics (reverse_translate x address)) (\<lambda>virt s.
        case parse (HandleAml x rd) (rd virt (unat len)) (statics s) of
          (Ok namespace, g) \<Rightarrow> (Ok (), store_s5 namespace (s\<lparr>statics := g\<rparr>))
        | (Err _, g) \<Rightarrow> (Ok (), log_msg Warn_level ''ACPI: Failed to get S5 package'' (s\<lparr>statics := g\<rparr>))
        | (Panic, g) \<Rightarrow> (Panic, s\<lparr>statics := g\<rparr>)))"

definition acpi_init :: "'m Walk \<Rightarrow> (u64 \<Rightarrow> nat \<Rightarrow> u8 list) \<Rightarrow> aml_parser \<Rightarrow> (string, AcpiTables) outcome
    \<Rightarrow> (Acpi_state, unit, unit) prog" where
  "acpi_init x rd parse found = (case found of
      Ok acpi \<Rightarrow>
        bind (modify (log_cpus acpi)) (\<lambda>_.
        bind (modify (store_pm1a acpi)) (\<lambda>_. load_dsdt x rd parse acpi))
    | Err e \<Rightarrow> modify (log_msg Warn_level (''Failed to initialize ACPI: '' @ e))
    | Panic \<Rightarrow> panic)"

definition acpi_shutdown :: "'p Port_io \<Rightarrow> Acpi_state \<Rightarrow> 'p \<Rightarrow> 'p" where
  "acpi_shutdown io s p = outw io (ucast (pm1a_cnt_blk s)) (slp_typa s OR SLP_LEN) p"

section \<open>Lemmas\<close>

lemma log_cpu_fields: "statics (log_cpu cpu s) = statics s \<and> pm1a_cnt_blk (log_cpu cpu s) = pm1a_cnt_blk s"
  by (simp add: log_cpu_def log_msg_def)

lemma fold_log_cpu_fields: "statics (fold log_cpu cpus s) = statics s \<and> pm1a_cnt_blk (fold log_cpu cpus s) = pm1a_cnt_blk s"
  by (induction cpus arbitrary: s) (simp_all add: log_cpu_fields)

lemma log_cpus_fields [simp]: "statics (log_cpus acpi s) = statics s" "pm1a_cnt_blk (log_cpus acpi s) = pm1a_cnt_blk s"
  by (auto simp: log_cpus_def log_cpu_fields fold_log_cpu_fields split: option.split)

text \<open>What a complete set of tables leaves for \<open>shutdown\<close>.\<close>

lemma acpi_init_loaded:
  assumes "fadt_pm1a acpi = Some (Some port)" and "dsdt acpi = Some (address, len)"
    and "reverse_translate x address (statics s) = (Ok virt, g)"
    and "parse (HandleAml x rd) (rd virt (unat len)) g = (Ok namespace, g')"
    and "namespace ([CHR 0x5C] @ ''_S5'') = Some (AmlPackage (AmlInteger val # rest))"
  shows "\<exists>s'. acpi_init x rd parse (Ok acpi) s = (Ok (), s') \<and> pm1a_cnt_blk s' = ucast port \<and> slp_typa s' = ucast val"
  using assms by (simp add: acpi_init_def load_dsdt_def store_pm1a_def store_s5_def on_statics_def run_simps)

lemma port_ucast: "ucast (ucast (port :: u64) :: u32) = (ucast port :: u16)"
  by (rule bit_word_eqI) (simp add: bit_simps)

section \<open>Properties\<close>

text \<open>
  C33. Ctrl-Alt-Backspace powers the machine off: once \<open>init\<close> has read the control block and the
  sleep type from the tables, the keyboard handler writes the type with the enable bit to the
  port of the control block.
\<close>

theorem ctrl_alt_backspace_powers_off:
  assumes "fadt_pm1a acpi = Some (Some port)" and "dsdt acpi = Some (address, len)"
    and "reverse_translate x address (statics s) = (Ok virt, g)"
    and "parse (HandleAml x rd) (rd virt (unat len)) g = (Ok namespace, g')"
    and "namespace ([CHR 0x5C] @ ''_S5'') = Some (AmlPackage (AmlInteger val # rest))"
    and "inb io 0x60 (hardware k) = (b, p)" and "kb_add_byte dec b (kb_new dec) = (Ok (Some ev), kb)"
    and "fst (kb_process_keyevent dec ev kb) = Some (Unicode 0x08)" and "ev_code ev = OtherKey n"
    and "ctrl k" and "alt k"
  shows "\<exists>s' k'. acpi_init x rd parse (Ok acpi) s = (Ok (), s') \<and>
    interrupt_handler io dec (acpi_shutdown io s') k = (Ok (), k') \<and>
    hardware k' = outw io (ucast port) (ucast val OR 0x2000) p"
proof -
  obtain s' where s': "acpi_init x rd parse (Ok acpi) s = (Ok (), s')" "pm1a_cnt_blk s' = ucast port" "slp_typa s' = ucast val"
    using acpi_init_loaded [where parse = parse and rd = rd, OF assms(1-5)] by blast
  have "\<exists>k'. interrupt_handler io dec (acpi_shutdown io s') k = (Ok (), k') \<and> hardware k' = acpi_shutdown io s' p"
    using assms(6-11) by (simp add: interrupt_handler_def read_scancode_def bind_def modify_def handle_event_def
        set_modifier_def handle_unicode_def system_msg_def Let_def)
  then show ?thesis using s' by (auto simp: acpi_shutdown_def SLP_LEN_def port_ucast)
qed

definition sample_acpi :: AcpiTables where
  "sample_acpi = \<lparr>platform_info = None, fadt_pm1a = Some (Some 0x604), dsdt = Some (0xE0000, 8)\<rparr>"

definition sample_aml :: aml_parser where
  "sample_aml handler table g = (Ok [[CHR 0x5C] @ ''_S5'' \<mapsto> AmlPackage [AmlInteger 5, AmlInteger 5]], g)"

definition sample_acpi_state :: Acpi_state where
  "sample_acpi_state = \<lparr>pm1a_cnt_blk = 0, slp_typa = 0, statics = \<lparr>phys_offset = Some 0x100000000, memory_map = None\<rparr>, acpi_log = []\<rparr>"

text \<open>A machine that records the words written to its ports, and a decoder for which every byte is backspace.\<close>

definition log_port :: "(u16 \<times> u16) list Port_io" where
  "log_port = \<lparr>inb = (\<lambda>_ p. (0x0E, p)), inw = (\<lambda>_ p. (0, p)), outb = (\<lambda>_ _ p. p), outw = (\<lambda>port v p. p @ [(port, v)])\<rparr>"

definition backspace_decoder :: "unit Decoder" where
  "backspace_decoder = \<lparr>kb_new = (), kb_add_byte = (\<lambda>b _. (Ok (Some \<lparr>ev_code = OtherKey (unat b), ev_state = Down\<rparr>), ())),
     kb_process_keyevent = (\<lambda>_ _. (Some (Unicode 0x08), ()))\<rparr>"

theorem ctrl_alt_backspace_powers_off_witness:
  "\<exists>s' k'. acpi_init window_walk (\<lambda>_ n. replicate n 0) sample_aml (Ok sample_acpi) sample_acpi_state = (Ok (), s') \<and>
    interrupt_handler log_port backspace_decoder (acpi_shutdown log_port s')
      \<lparr>ctrl = True, alt = True, shift = False, console = sample_console, hardware = []\<rparr> = (Ok () :: (unit, unit) outcome, k') \<and>
    hardware k' = [(0x604, 0x2005)]"
proof -
  let ?g = "\<lparr>phys_offset = Some 0x100000000, memory_map = None\<rparr>"
  have "reverse_translate window_walk 0xE0000 ?g = (Ok 0x1000E0000, ?g)"
    by (simp add: reverse_translate_def call_once_def u64_add_def window.new_law)
  then show ?thesis
    using ctrl_alt_backspace_powers_off [of sample_acpi "0x604" "0xE0000" 8 window_walk sample_acpi_state "0x1000E0000" ?g
        sample_aml "\<lambda>_ n. replicate n 0" "[[CHR 0x5C] @ ''_S5'' \<mapsto> AmlPackage [AmlInteger 5, AmlInteger 5]]" ?g 5 "[AmlInteger 5]"
        log_port "\<lparr>ctrl = True, alt = True, shift = False, console = sample_console, hardware = []\<rparr>" "0x0E" "[]" backspace_decoder
        "\<lparr>ev_code = OtherKey 14, ev_state = Down\<rparr>" "()" 14]
    by (simp add: sample_acpi_def sample_acpi_state_def sample_aml_def log_port_def backspace_decoder_def)
qed

text \<open>Without tables the shutdown writes the enable bit to port 0.\<close>

lemma shutdown_without_tables:
  "acpi_init x rd parse (Err e) \<lparr>pm1a_cnt_blk = 0, slp_typa = 0, statics = g, acpi_log = []\<rparr> = (Ok (), s') \<Longrightarrow>
    acpi_shutdown io s' p = outw io 0 0x2000 p"
  by (auto simp: acpi_init_def modify_def log_msg_def acpi_shutdown_def SLP_LEN_def)

end
