(* ===== verification/Ata.thy ===== *)
theory Ata
  imports Fs_Disk Ports
begin

unbundle bit_operations_syntax

text \<open>
  The ATA driver of \<open>kernel/src/internal/ata.rs\<close>: selection of a drive, the command block,
  transfer of a sector by programmed I/O, identification, and the choice of a disk.

  The I/O ports (the crate \<open>x86_64\<close>) are the parameter \<open>Port_io\<close> over a machine state \<open>'p\<close>.
  \<open>poll\<close> gives up when a second has passed on the clock of the timer interrupt: \<open>limit\<close>
  is the number of further readings of the status register that fit in it. Of what the driver logs
  only two things have an effect: \<open>error!\<close> panics (lemma \<open>error_log_fatal\<close> of \<open>Logger\<close>), also where an \<open>Err\<close> is written behind it, and \<open>debug!\<close> in
  \<open>init\<close> opens a drive for its message, in the builds that log at this level; \<open>trace!\<close> in the functions \<open>debug\<close> would read
  ports, in a build for traces.
\<close>

section \<open>Data\<close>

datatype Command = CmdRead | CmdWrite | CmdIdentify

fun command_code :: "Command \<Rightarrow> u8" where
  "command_code CmdRead = 0x20"
| "command_code CmdWrite = 0x30"
| "command_code CmdIdentify = 0xEC"

datatype IdentifyResponse = IdAta "u16 list" | IdAtapi | IdSata | IdNone

text \<open>The bits of the status register.\<close>

datatype Status = ERR | IDX | CORR | DRQ | DSC | DF | DRDY | BSY

fun status_bit :: "Status \<Rightarrow> nat" where
  "status_bit ERR = 0"
| "status_bit IDX = 1"
| "status_bit CORR = 2"
| "status_bit DRQ = 3"
| "status_bit DSC = 4"
| "status_bit DF = 5"
| "status_bit DRDY = 6"
| "status_bit BSY = 7"

record Bus =
  bus_id :: u8
  bus_irq :: u8
  data_register :: u16
  error_register :: u16
  features_register :: u16
  sector_count_register :: u16
  lba0_register :: u16
  lba1_register :: u16
  lba2_register :: u16
  drive_register :: u16
  status_register :: u16
  command_register :: u16
  alternate_status_register :: u16
  control_register :: u16
  drive_blockess_register :: u16

definition Bus_new :: "u8 \<Rightarrow> u16 \<Rightarrow> u16 \<Rightarrow> u8 \<Rightarrow> Bus" where
  "Bus_new i io_base ctrl_base irq = \<lparr>bus_id = i, bus_irq = irq,
     data_register = io_base + 0, error_register = io_base + 1, features_register = io_base + 1,
     sector_count_register = io_base + 2, lba0_register = io_base + 3, lba1_register = io_base + 4,
     lba2_register = io_base + 5, drive_register = io_base + 6, status_register = io_base + 7,
     command_register = io_base + 7, alternate_status_register = ctrl_base + 0,
     control_register = ctrl_base + 0, drive_blockess_register = ctrl_base + 1\<rparr>"

text \<open>The statics \<open>BUSES\<close> and \<open>LAST_SELECTED\<close>, and the machine behind the ports.\<close>

record 'p Ata =
  buses :: "Bus list"
  last_selected :: "(u8 \<times> u8) option"
  machine :: 'p

section \<open>Ports\<close>

definition read8 :: "'p Port_io \<Rightarrow> u16 \<Rightarrow> ('p Ata, 'e, u8) prog" where
  "read8 io p s = (case inb io p (machine s) of (v, m) \<Rightarrow> (Ok v, s\<lparr>machine := m\<rparr>))"

definition read16 :: "'p Port_io \<Rightarrow> u16 \<Rightarrow> ('p Ata, 'e, u16) prog" where
  "read16 io p s = (case inw io p (machine s) of (v, m) \<Rightarrow> (Ok v, s\<lparr>machine := m\<rparr>))"

definition write8 :: "'p Port_io \<Rightarrow> u16 \<Rightarrow> u8 \<Rightarrow> ('p Ata, 'e, unit) prog" where
  "write8 io p v = modify (\<lambda>s. s\<lparr>machine := outb io p v (machine s)\<rparr>)"

definition write16 :: "'p Port_io \<Rightarrow> u16 \<Rightarrow> u16 \<Rightarrow> ('p Ata, 'e, unit) prog" where
  "write16 io p v = modify (\<lambda>s. s\<lparr>machine := outw io p v (machine s)\<rparr>)"

section \<open>One bus\<close>

definition clear_interrupt :: "'p Port_io \<Rightarrow> Bus \<Rightarrow> ('p Ata, 'e, u8) prog" where
  "clear_interrupt io bus = read8 io (status_register bus)"

definition status :: "'p Port_io \<Rightarrow> Bus \<Rightarrow> ('p Ata, 'e, u8) prog" where
  "status io bus = read8 io (alternate_status_register bus)"

definition check_floating_bus :: "'p Port_io \<Rightarrow> Bus \<Rightarrow> ('p Ata, unit, unit) prog" where
  "check_floating_bus io bus =
     bind (status io bus) (\<lambda>v. if v = 0xFF \<or> v = 0x7F then throw () else ret ())"

definition lba1 :: "'p Port_io \<Rightarrow> Bus \<Rightarrow> ('p Ata, 'e, u8) prog" where
  "lba1 io bus = read8 io (lba1_register bus)"

definition lba2 :: "'p Port_io \<Rightarrow> Bus \<Rightarrow> ('p Ata, 'e, u8) prog" where
  "lba2 io bus = read8 io (lba2_register bus)"

definition read_data :: "'p Port_io \<Rightarrow> Bus \<Rightarrow> ('p Ata, 'e, u16) prog" where
  "read_data io bus = read16 io (data_register bus)"

definition write_data :: "'p Port_io \<Rightarrow> Bus \<Rightarrow> u16 \<Rightarrow> ('p Ata, 'e, unit) prog" where
  "write_data io bus w = write16 io (data_register bus) w"

definition is_error :: "'p Port_io \<Rightarrow> Bus \<Rightarrow> ('p Ata, 'e, bool) prog" where
  "is_error io bus = bind (status io bus) (\<lambda>v. ret (bit v (status_bit ERR)))"

fun poll :: "'p Port_io \<Rightarrow> nat \<Rightarrow> Bus \<Rightarrow> Status \<Rightarrow> bool \<Rightarrow> ('p Ata, unit, unit) prog" where
  "poll io limit bus b val =
     bind (status io bus) (\<lambda>v.
     if bit v (status_bit b) = val then ret ()
     else (case limit of 0 \<Rightarrow> panic | Suc limit' \<Rightarrow> poll io limit' bus b val))"

declare poll.simps [simp del]

definition select_drive :: "'p Port_io \<Rightarrow> nat \<Rightarrow> Bus \<Rightarrow> u8 \<Rightarrow> ('p Ata, unit, unit) prog" where
  "select_drive io limit bus drive =
     bind (poll io limit bus BSY False) (\<lambda>_.
     bind (poll io limit bus DRQ False) (\<lambda>_.
     bind (reads (\<lambda>s. Ok (last_selected s = Some (bus_id bus, drive)))) (\<lambda>selected.
     if selected then ret ()
     else
       bind (modify (\<lambda>s. s\<lparr>last_selected := Some (bus_id bus, drive)\<rparr>)) (\<lambda>_.
       bind (write8 io (drive_register bus) (0xA0 OR push_bit 4 drive)) (\<lambda>_.
       bind (poll io limit bus BSY False) (\<lambda>_.
       poll io limit bus DRQ False))))))"

text \<open>\<open>set_bit(n, b)\<close> of the crate \<open>bit_field\<close>; byte \<open>k\<close> of \<open>to_le_bytes\<close>.\<close>

definition put_bit :: "nat \<Rightarrow> bool \<Rightarrow> u8 \<Rightarrow> u8" where
  "put_bit n b w = (if b then set_bit n w else unset_bit n w)"

definition le_byte :: "u32 \<Rightarrow> nat \<Rightarrow> u8" where
  "le_byte w k = ucast (drop_bit (8 * k) w)"

definition drive_byte :: "u8 \<Rightarrow> u32 \<Rightarrow> u8" where
  "drive_byte drive block =
     put_bit 7 True (put_bit 6 True (put_bit 5 True (put_bit 4 (0 < drive) (le_byte block 3))))"

definition write_command_params :: "'p Port_io \<Rightarrow> Bus \<Rightarrow> u8 \<Rightarrow> u32 \<Rightarrow> ('p Ata, unit, unit) prog" where
  "write_command_params io bus drive block =
     bind (write8 io (sector_count_register bus) 1) (\<lambda>_.
     bind (write8 io (lba0_register bus) (le_byte block 0)) (\<lambda>_.
     bind (write8 io (lba1_register bus) (le_byte block 1)) (\<lambda>_.
     bind (write8 io (lba2_register bus) (le_byte block 2)) (\<lambda>_.
     write8 io (drive_register bus) (drive_byte drive block)))))"

definition write_command :: "'p Port_io \<Rightarrow> nat \<Rightarrow> Bus \<Rightarrow> Command \<Rightarrow> ('p Ata, unit, unit) prog" where
  "write_command io limit bus cmd =
     bind (write8 io (command_register bus) (command_code cmd)) (\<lambda>_.
     bind (status io bus) (\<lambda>_.
     bind (clear_interrupt io bus) (\<lambda>_.
     bind (status io bus) (\<lambda>v.
     if v = 0 then throw ()
     else
       bind (is_error io bus) (\<lambda>e.
       if e then throw ()
       else
         bind (poll io limit bus BSY False) (\<lambda>_.
         poll io limit bus DRQ True))))))"

definition setup_pio :: "'p Port_io \<Rightarrow> nat \<Rightarrow> Bus \<Rightarrow> u8 \<Rightarrow> u32 \<Rightarrow> ('p Ata, unit, unit) prog" where
  "setup_pio io limit bus drive block =
     bind (select_drive io limit bus drive) (\<lambda>_. write_command_params io bus drive block)"

text \<open>Chunks of two bytes, little endian.\<close>

definition le16 :: "u16 \<Rightarrow> u8 list" where
  "le16 w = [ucast w, ucast (drop_bit 8 w)]"

definition from_le16 :: "u8 \<Rightarrow> u8 \<Rightarrow> u16" where
  "from_le16 a b = ucast a OR push_bit 8 (ucast b)"

fun words_of :: "u8 list \<Rightarrow> u16 list" where
  "words_of (a # b # rest) = from_le16 a b # words_of rest"
| "words_of _ = []"

fun read_words :: "'p Port_io \<Rightarrow> Bus \<Rightarrow> nat \<Rightarrow> ('p Ata, 'e, u16 list) prog" where
  "read_words io bus 0 = ret []"
| "read_words io bus (Suc n) =
     bind (read_data io bus) (\<lambda>w. bind (read_words io bus n) (\<lambda>ws. ret (w # ws)))"

definition bus_read :: "'p Port_io \<Rightarrow> nat \<Rightarrow> Bus \<Rightarrow> u8 \<Rightarrow> u32 \<Rightarrow> u8 list \<Rightarrow> ('p Ata, unit, u8 list) prog" where
  "bus_read io limit bus drive block buf =
     (if length buf \<noteq> BLOCK_SIZE then panic
      else
        bind (setup_pio io limit bus drive block) (\<lambda>_.
        bind (write_command io limit bus CmdRead) (\<lambda>_.
        bind (read_words io bus (length buf div 2)) (\<lambda>ws.
        bind (is_error io bus) (\<lambda>e.
        if e then panic else ret (concat (map le16 ws)))))))"

definition bus_write :: "'p Port_io \<Rightarrow> nat \<Rightarrow> Bus \<Rightarrow> u8 \<Rightarrow> u32 \<Rightarrow> u8 list \<Rightarrow> ('p Ata, unit, unit) prog" where
  "bus_write io limit bus drive block buf =
     (if length buf \<noteq> BLOCK_SIZE then panic
      else
        bind (setup_pio io limit bus drive block) (\<lambda>_.
        bind (write_command io limit bus CmdWrite) (\<lambda>_.
        bind (for_each (write_data io bus) (words_of buf)) (\<lambda>_.
        bind (is_error io bus) (\<lambda>e.
        if e then panic else ret ())))))"

text \<open>A failed command is no error of \<open>identify_drive\<close> when the status is 0.\<close>

definition try_prog :: "('s, 'e, 'a) prog \<Rightarrow> ('s, 'f, bool) prog" where
  "try_prog m s = (case m s of
      (Ok _, s') \<Rightarrow> (Ok True, s') | (Err _, s') \<Rightarrow> (Ok False, s') | (Panic, s') \<Rightarrow> (Panic, s'))"

definition identify_drive :: "'p Port_io \<Rightarrow> nat \<Rightarrow> Bus \<Rightarrow> u8 \<Rightarrow> ('p Ata, unit, IdentifyResponse) prog" where
  "identify_drive io limit bus drive =
     bind (try_prog (check_floating_bus io bus)) (\<lambda>attached.
     if \<not> attached then ret IdNone
     else
       bind (select_drive io limit bus drive) (\<lambda>_.
       bind (write_command_params io bus drive 0) (\<lambda>_.
       bind (try_prog (write_command io limit bus CmdIdentify)) (\<lambda>accepted.
       if \<not> accepted then
         bind (status io bus) (\<lambda>v. if v = 0 then ret IdNone else throw ())
       else
         bind (lba1 io bus) (\<lambda>l1.
         bind (lba2 io bus) (\<lambda>l2.
         if l1 = 0 \<and> l2 = 0 then bind (read_words io bus 256) (\<lambda>ws. ret (IdAta ws))
         else if l1 = 0x14 \<and> l2 = 0xEB then ret IdAtapi
         else if l1 = 0x3C \<and> l2 = 0xC3 then ret IdSata
         else throw ()))))))"

definition bus_reset :: "'p Port_io \<Rightarrow> Bus \<Rightarrow> ('p Ata, 'e, unit) prog" where
  "bus_reset io bus =
     bind (write8 io (control_register bus) 4) (\<lambda>_. write8 io (control_register bus) 0)"

section \<open>Drives\<close>

text \<open>The model and serial number are kept as the bytes before their lossy decoding and trimming.\<close>

record Drive =
  drive_bus :: u8
  drive_dsk :: u8
  drive_model :: "u8 list"
  drive_serial :: "u8 list"
  drive_block_count :: u32

definition be16 :: "u16 \<Rightarrow> u8 list" where
  "be16 w = [ucast (drop_bit 8 w), ucast w]"

definition from_be32 :: "u8 list \<Rightarrow> u32" where
  "from_be32 bs = word_of_int (horner_sum uint (2 ^ 8) (rev bs))"

definition the_bus :: "u8 \<Rightarrow> ('p Ata, 'e, Bus) prog" where
  "the_bus b = reads (\<lambda>s. index (buses s) (unat b))"

definition Drive_of :: "u8 \<Rightarrow> u8 \<Rightarrow> u16 list \<Rightarrow> ('e, Drive) outcome" where
  "Drive_of b dsk ws =
     (let buf = concat (map be16 ws) in
      obind (slice buf 54 94) (\<lambda>m.
      obind (slice buf 20 40) (\<lambda>ser.
      obind (slice buf 120 124) (\<lambda>count.
      Ok \<lparr>drive_bus = b, drive_dsk = dsk, drive_model = m, drive_serial = ser,
          drive_block_count = word_rotl 16 (from_be32 count)\<rparr>))))"

definition Drive_open :: "'p Port_io \<Rightarrow> nat \<Rightarrow> u8 \<Rightarrow> u8 \<Rightarrow> ('p Ata, 'e, Drive option) prog" where
  "Drive_open io limit b dsk =
     bind (the_bus b) (\<lambda>bus s.
       case identify_drive io limit bus dsk s of
         (Ok (IdAta ws), s') \<Rightarrow> (obind (Drive_of b dsk ws) (\<lambda>d. Ok (Some d)), s')
       | (Panic, s') \<Rightarrow> (Panic, s')
       | (_, s') \<Rightarrow> (Ok None, s'))"

definition humanized_size :: "Drive \<Rightarrow> nat \<times> string" where
  "humanized_size d =
     (let bytes = BLOCK_SIZE * unat (drive_block_count d)
      in if bytes div 2 ^ 20 < 1000 then (bytes div 2 ^ 20, ''MB'') else (bytes div 2 ^ 30, ''GB''))"

definition push_drive :: "'p Port_io \<Rightarrow> nat \<Rightarrow> u8 \<times> u8 \<Rightarrow> Drive list \<Rightarrow> ('p Ata, 'e, Drive list) prog" where
  "push_drive io limit bd res =
     bind (Drive_open io limit (fst bd) (snd bd)) (\<lambda>d.
     ret (case d of None \<Rightarrow> res | Some drive \<Rightarrow> res @ [drive]))"

definition list_drives :: "'p Port_io \<Rightarrow> nat \<Rightarrow> ('p Ata, 'e, Drive list) prog" where
  "list_drives io limit = for_acc (push_drive io limit) [(0, 0), (0, 1), (1, 0), (1, 1)] []"

definition larger_drive :: "u32 \<times> u8 \<times> u8 \<Rightarrow> Drive \<Rightarrow> u32 \<times> u8 \<times> u8" where
  "larger_drive acc d = (if drive_block_count d > fst acc
     then (drive_block_count d, drive_bus d, drive_dsk d) else acc)"

definition likely_disk :: "'p Port_io \<Rightarrow> nat \<Rightarrow> ('p Ata, unit, u8 \<times> u8) prog" where
  "likely_disk io limit =
     bind (list_drives io limit) (\<lambda>drives.
     if drives = [] then throw () else ret (snd (foldl larger_drive (0, 0, 0) drives)))"

text \<open>
  The drives are listed once for the log, and searched for the largest once more. With \<open>debug_on\<close> it is opened again for the
  message, and must be there.
\<close>

definition log_drive :: "'p Port_io \<Rightarrow> nat \<Rightarrow> u8 \<times> u8 \<Rightarrow> ('p Ata, 'e, unit) prog" where
  "log_drive io limit bd = bind (Drive_open io limit (fst bd) (snd bd)) (\<lambda>d. case d of None \<Rightarrow> panic | Some _ \<Rightarrow> ret ())"

definition log_likely :: "'p Port_io \<Rightarrow> nat \<Rightarrow> bool \<Rightarrow> ('p Ata, 'e, unit) prog" where
  "log_likely io limit debug_on s = (case likely_disk io limit s of
      (Ok bd, s') \<Rightarrow> if debug_on then log_drive io limit bd s' else (Ok (), s')
    | (Err _, s') \<Rightarrow> (Ok (), s')
    | (Panic, s') \<Rightarrow> (Panic, s'))"

definition ata_init :: "'p Port_io \<Rightarrow> nat \<Rightarrow> bool \<Rightarrow> ('p Ata, 'e, unit) prog" where
  "ata_init io limit debug_on =
     bind (modify (\<lambda>s. s\<lparr>buses := buses s @ [Bus_new 0 0x1F0 0x3F6 14, Bus_new 1 0x170 0x376 15]\<rparr>)) (\<lambda>_.
     bind (list_drives io limit) (\<lambda>_. log_likely io limit debug_on))"

definition ata_read :: "'p Port_io \<Rightarrow> nat \<Rightarrow> u8 \<Rightarrow> u8 \<Rightarrow> u32 \<Rightarrow> u8 list \<Rightarrow> ('p Ata, unit, u8 list) prog" where
  "ata_read io limit b drive block buf = bind (the_bus b) (\<lambda>bus. bus_read io limit bus drive block buf)"

definition ata_write :: "'p Port_io \<Rightarrow> nat \<Rightarrow> u8 \<Rightarrow> u8 \<Rightarrow> u32 \<Rightarrow> u8 list \<Rightarrow> ('p Ata, unit, unit) prog" where
  "ata_write io limit b drive block buf = bind (the_bus b) (\<lambda>bus. bus_write io limit bus drive block buf)"

end
