(* ===== verification/Ata_Drive.thy ===== *)
theory Ata_Drive
  imports Ata Loader
begin

unbundle bit_operations_syntax

text \<open>
  What the ATA driver does. First for any machine behind the ports: the driver always
  comes to an end, and a sector it returns has 512 bytes. Then for the drives the driver
  is written for: \<open>pio_io\<close> is the programmed I/O of the ATA standard for the two drives of
  the first bus, and the driver on it is an interpretation of \<open>block_device\<close>.
\<close>

section \<open>Any machine\<close>

text \<open>The result of a sequence by the results of its steps.\<close>

lemma fst_bind: "fst (bind m f s) = (case fst (m s) of Ok x \<Rightarrow> fst (f x (snd (m s))) | Err e \<Rightarrow> Err e | Panic \<Rightarrow> Panic)"
  by (simp add: bind_def split: prod.split outcome.split)

lemma fst_basic: "fst (ret x s) = Ok x" "fst (throw e s) = Err e" "fst (panic s) = Panic" "fst (modify g s) = Ok ()"
    "fst (reads f s) = f s" "fst (write8 io p v s) = Ok ()" "fst (read8 io p s) = Ok (fst (inb io p (machine s)))"
  by (simp_all add: prog_defs write8_def read8_def split: prod.split)

lemmas result_simps = fst_bind fst_basic

text \<open>A bus whose status register always reads \<open>v\<close>, as that of a drive that is missing or hangs.\<close>

definition stuck :: "'p Port_io \<Rightarrow> Bus \<Rightarrow> u8 \<Rightarrow> bool" where
  "stuck io bus v \<longleftrightarrow> (\<forall>m. fst (inb io (alternate_status_register bus) m) = v)"

lemma stuck_status: "stuck io bus v \<Longrightarrow> fst (status io bus s) = Ok v"
  by (simp add: stuck_def status_def result_simps)

lemma stuck_poll: "stuck io bus v \<Longrightarrow> fst (poll io limit bus b val s) = (if bit v (status_bit b) = val then Ok () else Panic)"
  by (induction limit arbitrary: s) (subst poll.simps, simp add: result_simps stuck_status)+

lemma stuck_select: "stuck io bus v \<Longrightarrow> fst (select_drive io limit bus drive s) = (if bit v 7 \<or> bit v 3 then Panic else Ok ())"
  by (simp add: select_drive_def result_simps stuck_poll)

lemma stuck_command:
  "stuck io bus v \<Longrightarrow> \<not> bit v 3 \<Longrightarrow> fst (write_command io limit bus cmd s) = (if v = 0 \<or> bit v 0 then Err () else Panic)"
  by (simp add: write_command_def is_error_def clear_interrupt_def result_simps stuck_poll stuck_status)

lemma stuck_setup:
  assumes "stuck io bus v"
  shows "fst (bind (setup_pio io limit bus drive block) (\<lambda>_. bind (write_command io limit bus cmd) f) s) =
    (if \<not> bit v 7 \<and> \<not> bit v 3 \<and> (v = 0 \<or> bit v 0) then Err () else Panic)"
  by (simp add: setup_pio_def write_command_params_def result_simps stuck_select [OF assms] stuck_command [OF assms])

lemma read_words_length: "read_words io bus n s = (Ok ws, s') \<Longrightarrow> length ws = n"
  by (induction n arbitrary: ws s) (auto simp: bind_eq_Ok ret_def)

lemma length_le16: "length (concat (map le16 ws)) = 2 * length ws"
  by (induction ws) (auto simp: le16_def)

section \<open>Drives with programmed I/O\<close>

text \<open>
  A transfer in progress: the bytes still to be read by the host, or those written so far.
\<close>

datatype transfer = Idle | Sending "u8 list" | Receiving "u8 list"

record pio =
  sectors :: "bool \<Rightarrow> u32 \<Rightarrow> u8 list"
  identity :: "bool \<Rightarrow> u8 list"
  reg_lba0 :: u8
  reg_lba1 :: u8
  reg_lba2 :: u8
  reg_dev :: u8
  transfer :: transfer

definition pio_dev :: "pio \<Rightarrow> bool" where
  "pio_dev m = bit (reg_dev m) 4"

definition pio_lba :: "pio \<Rightarrow> u32" where
  "pio_lba m = ucast (reg_lba0 m) OR push_bit 8 (ucast (reg_lba1 m)) OR push_bit 16 (ucast (reg_lba2 m))
     OR push_bit 24 (ucast (reg_dev m AND 0x0F))"

text \<open>The status: ready, and \<open>DRQ\<close> during a transfer. A command that is not known is ignored.\<close>

definition pio_inb :: "u16 \<Rightarrow> pio \<Rightarrow> u8 \<times> pio" where
  "pio_inb p m =
     (if p = 0x3F6 \<or> p = 0x1F7 then (if transfer m = Idle then 0x50 else 0x58)
      else if p = 0x1F4 then reg_lba1 m
      else if p = 0x1F5 then reg_lba2 m
      else 0, m)"

definition pio_command :: "u8 \<Rightarrow> pio \<Rightarrow> pio" where
  "pio_command c m =
     (if c = 0x20 then m\<lparr>transfer := Sending (sectors m (pio_dev m) (pio_lba m))\<rparr>
      else if c = 0x30 then m\<lparr>transfer := Receiving []\<rparr>
      else if c = 0xEC then m\<lparr>reg_lba1 := 0, reg_lba2 := 0, transfer := Sending (identity m (pio_dev m))\<rparr>
      else m)"

definition pio_outb :: "u16 \<Rightarrow> u8 \<Rightarrow> pio \<Rightarrow> pio" where
  "pio_outb p v m =
     (if p = 0x1F3 then m\<lparr>reg_lba0 := v\<rparr>
      else if p = 0x1F4 then m\<lparr>reg_lba1 := v\<rparr>
      else if p = 0x1F5 then m\<lparr>reg_lba2 := v\<rparr>
      else if p = 0x1F6 then m\<lparr>reg_dev := v\<rparr>
      else if p = 0x1F7 then pio_command v m
      else m)"

definition pio_inw :: "u16 \<Rightarrow> pio \<Rightarrow> u16 \<times> pio" where
  "pio_inw p m = (if p = 0x1F0 then (case transfer m of
        Sending (a # b # rest) \<Rightarrow>
          (from_le16 a b, m\<lparr>transfer := (if rest = [] then Idle else Sending rest)\<rparr>)
      | _ \<Rightarrow> (0, m)) else (0, m))"

definition pio_outw :: "u16 \<Rightarrow> u16 \<Rightarrow> pio \<Rightarrow> pio" where
  "pio_outw p w m = (if p = 0x1F0 then (case transfer m of
        Receiving bs \<Rightarrow>
          (let bs' = bs @ le16 w in
           if length bs' = BLOCK_SIZE
           then m\<lparr>sectors := (sectors m)(pio_dev m := (sectors m (pio_dev m))(pio_lba m := bs')),
                  transfer := Idle\<rparr>
           else m\<lparr>transfer := Receiving bs'\<rparr>)
      | _ \<Rightarrow> m) else m)"

definition pio_io :: "pio Port_io" where
  "pio_io = \<lparr>inb = pio_inb, inw = pio_inw, outb = pio_outb, outw = pio_outw\<rparr>"

section \<open>The driver on these drives\<close>

definition bus0 :: Bus where
  "bus0 = Bus_new 0 0x1F0 0x3F6 14"

lemma bus0_ports [simp]:
  "data_register bus0 = 0x1F0" "sector_count_register bus0 = 0x1F2" "lba0_register bus0 = 0x1F3"
  "lba1_register bus0 = 0x1F4" "lba2_register bus0 = 0x1F5" "drive_register bus0 = 0x1F6"
  "status_register bus0 = 0x1F7" "command_register bus0 = 0x1F7" "alternate_status_register bus0 = 0x3F6"
  "bus_id bus0 = 0"
  by (simp_all add: bus0_def Bus_new_def)

lemma Ata_machine_same [simp]: "s\<lparr>machine := machine s\<rparr> = s"
  by simp

lemma ports_pio [simp]:
  "read8 pio_io p s = (case pio_inb p (machine s) of (v, m) \<Rightarrow> (Ok v, s\<lparr>machine := m\<rparr>))"
  "read16 pio_io p s = (case pio_inw p (machine s) of (w, m) \<Rightarrow> (Ok w, s\<lparr>machine := m\<rparr>))"
  "write8 pio_io p v s = (Ok (), s\<lparr>machine := pio_outb p v (machine s)\<rparr>)"
  "write16 pio_io p w s = (Ok (), s\<lparr>machine := pio_outw p w (machine s)\<rparr>)"
  by (simp_all add: read8_def read16_def write8_def write16_def modify_def pio_io_def)

lemma status_pio [simp]:
  "status pio_io bus0 s = (Ok (if transfer (machine s) = Idle then 0x50 else 0x58), s)"
  "clear_interrupt pio_io bus0 s = (Ok (if transfer (machine s) = Idle then 0x50 else 0x58), s)"
  by (simp_all add: status_def clear_interrupt_def pio_inb_def)

lemma poll_pio [simp]:
  "poll pio_io limit bus0 BSY False s = (Ok (), s)"
  "transfer (machine s) = Idle \<Longrightarrow> poll pio_io limit bus0 DRQ False s = (Ok (), s)"
  "transfer (machine s) \<noteq> Idle \<Longrightarrow> poll pio_io limit bus0 DRQ True s = (Ok (), s)"
  by (subst poll.simps; simp add: bind_def ret_def)+

lemma select_drive_pio:
  assumes "transfer (machine s) = Idle"
  obtains s' where "select_drive pio_io limit bus0 drive s = (Ok (), s')" and "buses s' = buses s"
    and "sectors (machine s') = sectors (machine s)" and "transfer (machine s') = Idle"
proof (cases "last_selected s = Some (0, drive)")
  case True
  then show thesis using assms that [of s] by (simp add: select_drive_def bind_def reads_def ret_def)
next
  case False
  then show thesis using assms that
    by (simp add: select_drive_def bind_def reads_def modify_def pio_outb_def)
qed

lemma write_command_params_pio:
  "write_command_params pio_io bus0 drive block s = (Ok (), s\<lparr>machine := (machine s)\<lparr>reg_lba0 := le_byte block 0,
     reg_lba1 := le_byte block 1, reg_lba2 := le_byte block 2, reg_dev := drive_byte drive block\<rparr>\<rparr>)"
  by (simp add: write_command_params_def bind_def pio_outb_def)

text \<open>The registers select the drive and the block, of which only 28 bits are sent.\<close>

lemma bit_drive_byte:
  "bit (drive_byte drive block) n \<longleftrightarrow>
    (if n = 4 then 0 < drive else n = 5 \<or> n = 6 \<or> n = 7 \<or> (n < 4 \<and> bit block (24 + n)))"
  by (auto simp: drive_byte_def put_bit_def le_byte_def bit_simps not_less elim: less_SucE
      dest: bit_imp_le_length)


lemma bit_le_byte: "bit (le_byte block i) k \<longleftrightarrow> k < 8 \<and> bit block (8 * i + k)"
  by (auto simp: le_byte_def bit_unsigned_iff bit_drop_bit_eq)

lemma pio_lba_block:
  assumes "reg_lba0 m = le_byte block 0" and "reg_lba1 m = le_byte block 1"
    and "reg_lba2 m = le_byte block 2" and "reg_dev m = drive_byte drive block"
  shows "pio_lba m = take_bit 28 block"
proof (rule bit_word_eqI)
  fix n assume n: "n < LENGTH(32)"
  have low: "bit (0x0F :: u8) k \<longleftrightarrow> k < 4" for k
    using bit_mask_iff [where 'a = "8 word", of 4 k] by (auto simp: mask_eq_exp_minus_1)
  have dev: "bit (reg_dev m AND 0x0F) k \<longleftrightarrow> k < 4 \<and> bit block (24 + k)" for k
    unfolding assms(4) bit_and_iff low bit_drive_byte by auto
  have "bit (pio_lba m) n \<longleftrightarrow> (n < 8 \<and> bit block n) \<or> (8 \<le> n \<and> n - 8 < 8 \<and> bit block n) \<or>
      (16 \<le> n \<and> n - 16 < 8 \<and> bit block n) \<or> (24 \<le> n \<and> n - 24 < 4 \<and> bit block n)"
    using n by (auto simp: pio_lba_def assms(1-3) bit_or_iff bit_push_bit_iff bit_unsigned_iff dev bit_le_byte)
  also have "\<dots> \<longleftrightarrow> n < 28 \<and> bit block n" by linarith
  finally show "bit (pio_lba m) n \<longleftrightarrow> bit (take_bit 28 block) n" by (simp add: bit_take_bit_iff)
qed

lemma le16_from_le16 [simp]: "le16 (from_le16 a b) = [a, b]"
  by (auto simp: le16_def from_le16_def bit_eq_iff bit_simps dest: bit_imp_le_length)

lemma write_command_pio:
  assumes "transfer (pio_command (command_code cmd) (machine s)) \<noteq> Idle"
  shows "write_command pio_io limit bus0 cmd s = (Ok (), s\<lparr>machine := pio_command (command_code cmd) (machine s)\<rparr>)"
  using assms by (simp add: write_command_def bind_def is_error_def ret_def pio_outb_def)

lemma read_words_pio:
  "transfer (machine s) = Sending bs \<Longrightarrow> length bs = 2 * Suc n \<Longrightarrow>
    \<exists>ws. (read_words pio_io bus0 (Suc n) s :: (unit, _) outcome \<times> _) = (Ok ws, s\<lparr>machine := (machine s)\<lparr>transfer := Idle\<rparr>\<rparr>) \<and>
      concat (map le16 ws) = bs"
proof (induction n arbitrary: s bs)
  case 0
  then obtain a b where "bs = [a, b]" by (auto simp: length_Suc_conv numeral_eq_Suc)
  then show ?case using 0 by (simp add: bind_def ret_def read_data_def pio_inw_def)
next
  case (Suc n)
  then obtain a b rest where bs: "bs = a # b # rest" and rest: "length rest = 2 * Suc n"
    by (auto simp: length_Suc_conv)
  let ?s = "s\<lparr>machine := (machine s)\<lparr>transfer := Sending rest\<rparr>\<rparr>"
  obtain ws where ws: "(read_words pio_io bus0 (Suc n) ?s :: (unit, _) outcome \<times> _) = (Ok ws, ?s\<lparr>machine := (machine ?s)\<lparr>transfer := Idle\<rparr>\<rparr>)"
    "concat (map le16 ws) = rest"
    using Suc.IH [of ?s rest] rest by auto
  have "(read_data pio_io bus0 s :: (unit, _) outcome \<times> _) = (Ok (from_le16 a b), ?s)"
    using Suc.prems rest by (auto simp: read_data_def pio_inw_def bs)
  then have "(read_words pio_io bus0 (Suc (Suc n)) s :: (unit, _) outcome \<times> _) =
      bind (read_words pio_io bus0 (Suc n)) (\<lambda>ws. ret (from_le16 a b # ws)) ?s"
    by (simp add: bind_Ok)
  also have "\<dots> = (Ok (from_le16 a b # ws), s\<lparr>machine := (machine s)\<lparr>transfer := Idle\<rparr>\<rparr>)"
    using ws(1) by (simp add: bind_def ret_def)
  finally show ?case using ws(2) bs by (intro exI conjI) (assumption, simp)
qed


lemma words_of_le16:
  "even (length bs) \<Longrightarrow> concat (map le16 (words_of bs)) = bs \<and> 2 * length (words_of bs) = length bs"
  by (induction bs rule: words_of.induct) auto

lemma write_words_pio:
  "transfer (machine s) = Receiving acc \<Longrightarrow> length acc + 2 * length ws = 512 \<Longrightarrow> ws \<noteq> [] \<Longrightarrow>
    (for_each (write_data pio_io bus0) ws s :: (unit, unit) outcome \<times> _) = (Ok (), s\<lparr>machine := (machine s)
      \<lparr>sectors := (sectors (machine s))(pio_dev (machine s) := (sectors (machine s) (pio_dev (machine s)))
        (pio_lba (machine s) := acc @ concat (map le16 ws))), transfer := Idle\<rparr>\<rparr>)"
proof (induction ws arbitrary: s acc)
  case (Cons w ws)
  show ?case
  proof (cases "ws = []")
    case True
    then show ?thesis using Cons.prems
      by (simp add: bind_def write_data_def pio_outw_def BLOCK_SIZE_def le16_def fun_upd_def)
  next
    case False
    let ?s = "s\<lparr>machine := (machine s)\<lparr>transfer := Receiving (acc @ le16 w)\<rparr>\<rparr>"
    have "length (le16 w) = 2" by (simp add: le16_def)
    moreover from this have "length (acc @ le16 w) \<noteq> BLOCK_SIZE" using Cons.prems False by (cases ws) (auto simp: BLOCK_SIZE_def)
    then have "(write_data pio_io bus0 w s :: (unit, unit) outcome \<times> _) = (Ok (), ?s)"
      using Cons.prems by (simp add: write_data_def pio_outw_def)
    ultimately show ?thesis using Cons.IH [of ?s "acc @ le16 w"] Cons.prems False
      by (simp add: bind_def pio_dev_def pio_lba_def)
  qed
qed simp

section \<open>The driver as a block device\<close>

definition pio_ready :: "pio Ata \<Rightarrow> bool" where
  "pio_ready s \<longleftrightarrow> buses s \<noteq> [] \<and> hd (buses s) = bus0 \<and> transfer (machine s) = Idle \<and>
     (\<forall>dev n. length (sectors (machine s) dev n) = BLOCK_SIZE)"

definition pio_sector :: "u8 \<Rightarrow> pio Ata \<Rightarrow> u32 \<Rightarrow> u8 list option" where
  "pio_sector dsk s n = (if unat n < 2 ^ 28 then Some (sectors (machine s) (0 < dsk) n) else None)"

lemma pio_dev_drive: "reg_dev m = drive_byte drive block \<Longrightarrow> pio_dev m = (0 < drive)"
  by (simp add: pio_dev_def bit_drive_byte)

lemma setup_pio_pio:
  assumes "pio_ready s"
  obtains s' where "setup_pio pio_io limit bus0 drive block s = (Ok (), s')" and "pio_ready s'"
    and "sectors (machine s') = sectors (machine s)" and "pio_dev (machine s') = (0 < drive)"
    and "pio_lba (machine s') = take_bit 28 block"
proof -
  obtain s1 where s1: "select_drive pio_io limit bus0 drive s = (Ok (), s1)" "buses s1 = buses s"
    "sectors (machine s1) = sectors (machine s)" "transfer (machine s1) = Idle"
    using select_drive_pio [of s limit drive] assms by (auto simp: pio_ready_def)
  let ?s = "s1\<lparr>machine := (machine s1)\<lparr>reg_lba0 := le_byte block 0, reg_lba1 := le_byte block 1,
    reg_lba2 := le_byte block 2, reg_dev := drive_byte drive block\<rparr>\<rparr>"
  have "setup_pio pio_io limit bus0 drive block s = (Ok (), ?s)"
    by (simp add: setup_pio_def bind_def s1(1) write_command_params_pio)
  moreover have "pio_lba (machine ?s) = take_bit 28 block" by (rule pio_lba_block [where drive = drive]) simp_all
  moreover have "pio_dev (machine ?s) = (0 < drive)" by (rule pio_dev_drive) simp
  ultimately show thesis using that [of ?s] s1 assms by (simp add: pio_ready_def)
qed

lemma the_bus_ready: "pio_ready s \<Longrightarrow> the_bus 0 s = (Ok bus0, s)"
  by (cases "buses s") (auto simp: the_bus_def reads_def index_def pio_ready_def)

lemma ata_read_pio:
  assumes "pio_ready s" and "length buf = BLOCK_SIZE"
  obtains s' where "ata_read pio_io limit 0 drive block buf s =
      (Ok (sectors (machine s) (0 < drive) (take_bit 28 block)), s')"
    and "pio_ready s'" and "sectors (machine s') = sectors (machine s)"
proof -
  obtain s1 where s1: "setup_pio pio_io limit bus0 drive block s = (Ok (), s1)" "pio_ready s1"
    "sectors (machine s1) = sectors (machine s)" "pio_dev (machine s1) = (0 < drive)"
    "pio_lba (machine s1) = take_bit 28 block"
    using setup_pio_pio [OF assms(1)] by metis
  let ?bs = "sectors (machine s) (0 < drive) (take_bit 28 block)"
  let ?s = "s1\<lparr>machine := (machine s1)\<lparr>transfer := Sending ?bs\<rparr>\<rparr>"
  have cmd: "write_command pio_io limit bus0 CmdRead s1 = (Ok (), ?s)"
    using write_command_pio [of CmdRead s1 limit] s1 by (simp add: pio_command_def)
  have "length ?bs = 2 * Suc 255" using assms(1) by (simp add: pio_ready_def BLOCK_SIZE_def)
  then obtain ws where ws: "(read_words pio_io bus0 256 ?s :: (unit, _) outcome \<times> _) =
      (Ok ws, s1\<lparr>machine := (machine s1)\<lparr>transfer := Idle\<rparr>\<rparr>)" "concat (map le16 ws) = ?bs"
    using read_words_pio [of ?s ?bs 255] by auto
  have "ata_read pio_io limit 0 drive block buf s = (Ok ?bs, s1\<lparr>machine := (machine s1)\<lparr>transfer := Idle\<rparr>\<rparr>)"
    using assms(2) by (simp add: ata_read_def bind_def the_bus_ready [OF assms(1)] bus_read_def s1(1) cmd
        BLOCK_SIZE_def ws is_error_def ret_def)
  then show thesis using that s1 by (simp add: pio_ready_def)
qed

lemma ata_write_pio:
  assumes "pio_ready s" and "length bs = BLOCK_SIZE"
  obtains s' where "ata_write pio_io limit 0 drive block bs s = (Ok (), s')" and "pio_ready s'"
    and "sectors (machine s') = (sectors (machine s))(0 < drive :=
      (sectors (machine s) (0 < drive))(take_bit 28 block := bs))"
proof -
  obtain s1 where s1: "setup_pio pio_io limit bus0 drive block s = (Ok (), s1)" "pio_ready s1"
    "sectors (machine s1) = sectors (machine s)" "pio_dev (machine s1) = (0 < drive)"
    "pio_lba (machine s1) = take_bit 28 block"
    using setup_pio_pio [OF assms(1)] by metis
  let ?s = "s1\<lparr>machine := (machine s1)\<lparr>transfer := Receiving []\<rparr>\<rparr>"
  have cmd: "write_command pio_io limit bus0 CmdWrite s1 = (Ok (), ?s)"
    using write_command_pio [of CmdWrite s1 limit] by (simp add: pio_command_def)
  have words: "concat (map le16 (words_of bs)) = bs" "2 * length (words_of bs) = 512"
    using words_of_le16 [of bs] assms(2) by (simp_all add: BLOCK_SIZE_def)
  then have "words_of bs \<noteq> []" by auto
  note loop = write_words_pio [of ?s "[]" "words_of bs", OF _ _ this]
  have "pio_dev (machine ?s) = (0 < drive)" "pio_lba (machine ?s) = take_bit 28 block"
    using s1 by (simp_all add: pio_dev_def pio_lba_def)
  then have "ata_write pio_io limit 0 drive block bs s = (Ok (), s1\<lparr>machine := (machine s1)
      \<lparr>sectors := (sectors (machine s))(0 < drive := (sectors (machine s) (0 < drive))(take_bit 28 block := bs)),
       transfer := Idle\<rparr>\<rparr>)"
    using assms(2) loop words s1(3)
    by (simp add: ata_write_def bind_def the_bus_ready [OF assms(1)] bus_write_def s1(1) cmd is_error_def ret_def)
  then show thesis using that s1 assms by (auto simp: pio_ready_def)
qed

lemma take_bit_28: "unat (n :: u32) < 2 ^ 28 \<Longrightarrow> take_bit 28 n = n"
  by (simp add: word_unat_eq_iff unsigned_take_bit_eq take_bit_nat_eq_self)

interpretation ata: block_device "read_sector (ata_read pio_io limit 0 dsk)" "pio_sector dsk" pio_ready
  "ata_write pio_io limit 0 dsk" "2 ^ 28" for limit dsk
proof
  fix d n bs assume d: "pio_ready d" and n: "pio_sector dsk d n = Some bs"
  obtain d' where "ata_read pio_io limit 0 dsk n (replicate BLOCK_SIZE 0) d =
      (Ok (sectors (machine d) (0 < dsk) (take_bit 28 n)), d')" "pio_ready d'" "sectors (machine d') = sectors (machine d)"
    using ata_read_pio [OF d, of "replicate BLOCK_SIZE 0" limit dsk n] by auto
  then show "\<exists>d'. read_sector (ata_read pio_io limit 0 dsk) n d = (Ok bs, d') \<and> pio_ready d' \<and>
      pio_sector dsk d' = pio_sector dsk d"
    using n by (auto simp: read_sector_def pio_sector_def fun_eq_iff take_bit_28 split: if_splits)
next
  fix d and n :: u32 and bs :: "u8 list"
  assume d: "pio_ready d" and n: "unat n < 2 ^ 28" and "length bs = 512"
  then obtain d' where "ata_write pio_io limit 0 dsk n bs d = (Ok (), d')" "pio_ready d'"
    "sectors (machine d') = (sectors (machine d))(0 < dsk := (sectors (machine d) (0 < dsk))(n := bs))"
    using ata_write_pio [OF d, of bs limit dsk n] by (auto simp: take_bit_28 BLOCK_SIZE_def)
  then show "\<exists>d'. ata_write pio_io limit 0 dsk n bs d = (Ok (), d') \<and> pio_ready d' \<and>
      pio_sector dsk d' n = Some bs \<and>
      (\<forall>m. m \<noteq> n \<longrightarrow> pio_sector dsk d m \<noteq> None \<longrightarrow> pio_sector dsk d' m = pio_sector dsk d m)"
    using n by (intro exI [of _ d']) (simp add: pio_sector_def)
qed


lemma foldl_larger_drive:
  "foldl larger_drive (m0, b0, k0) ds = (m, b, k) \<Longrightarrow> m0 \<le> m \<and> (\<forall>d \<in> set ds. drive_block_count d \<le> m) \<and>
    ((m, b, k) = (m0, b0, k0) \<or> (\<exists>d \<in> set ds. (drive_block_count d, drive_bus d, drive_dsk d) = (m, b, k)))"
proof (induction ds arbitrary: m0 b0 k0)
  case (Cons d ds)
  then show ?case
    by (cases "m0 < drive_block_count d") (auto simp: larger_drive_def not_less dest!: Cons.IH intro: order.trans less_imp_le)
qed simp

section \<open>Properties\<close>

text \<open>Two empty drives at rest.\<close>

definition sample_ata :: "pio Ata" where
  "sample_ata = \<lparr>buses = [bus0], last_selected = None, machine = \<lparr>sectors = (\<lambda>_ _. replicate 512 0),
     identity = (\<lambda>_. []), reg_lba0 = 0, reg_lba1 = 0, reg_lba2 = 0, reg_dev = 0, transfer = Idle\<rparr>\<rparr>"

text \<open>Ports with nothing behind them.\<close>

definition floating_io :: "pio Port_io" where
  "floating_io = \<lparr>inb = (\<lambda>_ m. (0xFF, m)), inw = (\<lambda>_ m. (0xFFFF, m)), outb = (\<lambda>_ _ m. m), outw = (\<lambda>_ _ m. m)\<rparr>"

lemma sample_ata_ready: "pio_ready sample_ata"
  by (simp add: pio_ready_def sample_ata_def BLOCK_SIZE_def)



text \<open>
  C14. A filesystem that is written through the ATA driver to a drive with programmed I/O is
  read back through it unchanged, if it fits the 28 bits of a block number.
\<close>

theorem ata_filesystem_roundtrip:
  assumes "disk_fs fs" and "length (fs_sectors fs) \<le> 2 ^ 28" and "pio_ready s"
  shows "\<exists>s' s''. write_to_disk (ata_write pio_io limit 0 dsk) fs s = (Ok (), s') \<and>
    read_from_disk (read_sector (ata_read pio_io limit 0 dsk)) s' = (Ok fs, s'')"
  using ata.write_then_read [OF assms(1,3,2), of inode_sector limit dsk] inode_sector_ok
  unfolding write_to_disk_def by blast

theorem ata_filesystem_roundtrip_witness:
  "\<exists>s'. write_to_disk (ata_write pio_io 0 0 1) loader_init sample_ata = (Ok (), s') \<and>
    fst (read_from_disk (read_sector (ata_read pio_io 0 0 1)) s') = Ok loader_init"
proof -
  have "disk_fs loader_init"
    by (rule disk_fs_loader [OF loader_init_blank(1) refl]) (simp add: loader_init_def)
  moreover have "length (fs_sectors loader_init) \<le> 2 ^ 28"
    by (simp add: length_fs_sectors loader_init_def)
  ultimately show ?thesis
    using ata_filesystem_roundtrip [of loader_init sample_ata 0 1] sample_ata_ready by force
qed

text \<open>
  C16. A write through the driver changes one sector of one drive. Of the block number only 28
  bits are sent: a larger number addresses the sector of the number modulo \<open>2 ^ 28\<close>.
\<close>

theorem ata_write_exact:
  assumes "pio_ready s" and "length bs = BLOCK_SIZE"
  shows "\<exists>s'. ata_write pio_io limit 0 drive block bs s = (Ok (), s') \<and>
    sectors (machine s') = (sectors (machine s))(0 < drive := (sectors (machine s) (0 < drive))(take_bit 28 block := bs))"
  using ata_write_pio [OF assms, of limit drive block] by blast


theorem ata_write_exact_witness:
  "\<exists>s'. ata_write pio_io 0 0 1 (2 ^ 28 + 7) (replicate 512 1) sample_ata = (Ok (), s') \<and>
    sectors (machine s') True 7 = replicate 512 1"
proof -
  have "take_bit 28 (2 ^ 28 + 7 :: u32) = 7" by simp
  then show ?thesis
    using ata_write_exact [OF sample_ata_ready, of "replicate 512 1" 0 1 "2 ^ 28 + 7"]
    by (auto simp: BLOCK_SIZE_def)
qed

text \<open>
  The disk the kernel prefers: \<open>likely_disk\<close> fails exactly when no drive is found, and
  otherwise names a drive with the most blocks (or drive 0 of bus 0, when all have none).
\<close>

lemma likely_disk_largest:
  assumes "list_drives io limit s = ((Ok drives :: (unit, _) outcome), s')"
  shows "case likely_disk io limit s of
      (Ok (b, k), t) \<Rightarrow> t = s' \<and> drives \<noteq> [] \<and> (\<exists>m. (\<forall>d. d \<in> set drives \<longrightarrow> drive_block_count d \<le> m) \<and>
        (m = 0 \<and> b = 0 \<and> k = 0 \<or> (\<exists>d. d \<in> set drives \<and> (drive_block_count d, drive_bus d, drive_dsk d) = (m, b, k))))
    | (Err _, t) \<Rightarrow> t = s' \<and> drives = []
    | (Panic, _) \<Rightarrow> False"
proof -
  obtain m b k where acc: "foldl larger_drive (0, 0, 0) drives = (m, b, k)" by (cases "foldl larger_drive (0, 0, 0) drives")
  have "likely_disk io limit s = (if drives = [] then Err () else Ok (b, k), s')"
    using assms acc by (simp add: likely_disk_def bind_def throw_def ret_def)
  then show ?thesis using foldl_larger_drive [OF acc] by (auto split: if_splits)
qed

lemma likely_disk_largest_example:
  "fst (likely_disk \<lparr>inb = (\<lambda>_ m. (0xFF, m)), inw = (\<lambda>_ m. (0, m)), outb = (\<lambda>_ _ m. m), outw = (\<lambda>_ _ m. m)\<rparr> 0
    \<lparr>buses = [bus0, bus0], last_selected = None, machine = ()\<rparr>) = Err ()"
proof -
  let ?io = "\<lparr>inb = (\<lambda>_ m. (0xFF, m)), inw = (\<lambda>_ m. (0, m)), outb = (\<lambda>_ _ m. m), outw = (\<lambda>_ _ m. m)\<rparr> :: unit Port_io"
  let ?s = "\<lparr>buses = [bus0, bus0], last_selected = None, machine = ()\<rparr>"
  have "list_drives ?io 0 ?s = ((Ok [] :: (unit, _) outcome), ?s)"
    by (simp add: list_drives_def push_drive_def Drive_open_def the_bus_def identify_drive_def try_prog_def
        check_floating_bus_def status_def read8_def run_simps index_def)
  from likely_disk_largest [OF this] show ?thesis
    by (auto split: prod.splits outcome.splits)
qed

end
