(* ===== verification/Ata_Start.thy ===== *)
theory Ata_Start
  imports Ata_Drive
begin

text \<open>
  The start of the ATA driver (\<open>ata::init\<close>) on the drives of \<open>Ata_Drive\<close>: both drives of the first
  bus are identified, the second bus is empty, and no sector changes. After it the driver is ready.
\<close>

definition bus1 :: Bus where
  "bus1 = Bus_new 1 0x170 0x376 15"

text \<open>Two drives at rest whose identity has its 256 words; the registers of no other bus exist.\<close>

definition pio_drives :: "pio \<Rightarrow> bool" where
  "pio_drives m \<longleftrightarrow> transfer m = Idle \<and> (\<forall>dev. length (identity m dev) = 512) \<and>
     (\<forall>dev n. length (sectors m dev n) = BLOCK_SIZE)"

text \<open>What a step of the start may change: registers and the selection.\<close>

definition at_rest :: "pio Ata \<Rightarrow> pio Ata \<Rightarrow> bool" where
  "at_rest s s' \<longleftrightarrow> buses s' = buses s \<and> sectors (machine s') = sectors (machine s) \<and>
     identity (machine s') = identity (machine s) \<and> transfer (machine s') = Idle"

lemma at_rest_trans: "at_rest s s' \<Longrightarrow> at_rest s' s'' \<Longrightarrow> at_rest s s''"
  by (simp add: at_rest_def)

lemma at_rest_drives: "at_rest s s' \<Longrightarrow> pio_drives (machine s) \<Longrightarrow> pio_drives (machine s')"
  by (simp add: at_rest_def pio_drives_def)

section \<open>The empty bus\<close>

lemma bus1_ports [simp]:
  "data_register bus1 = 0x170" "sector_count_register bus1 = 0x172" "lba0_register bus1 = 0x173"
  "lba1_register bus1 = 0x174" "lba2_register bus1 = 0x175" "drive_register bus1 = 0x176"
  "status_register bus1 = 0x177" "command_register bus1 = 0x177" "alternate_status_register bus1 = 0x376"
  "bus_id bus1 = 1"
  by (simp_all add: bus1_def Bus_new_def)

lemma status_empty [simp]:
  "status pio_io bus1 s = (Ok 0, s)" "clear_interrupt pio_io bus1 s = (Ok 0, s)"
  by (simp_all add: status_def clear_interrupt_def pio_inb_def)

lemma poll_empty [simp]: "poll pio_io limit bus1 b False s = (Ok (), s)"
  by (subst poll.simps) (simp add: bind_def ret_def)

lemma identify_empty:
  assumes "transfer (machine s) = Idle"
  obtains s' where "identify_drive pio_io limit bus1 drive s = (Ok IdNone, s')" and "at_rest s s'"
proof (cases "last_selected s = Some (1, drive)")
  case True
  then have "identify_drive pio_io limit bus1 drive s = (Ok IdNone, s)"
    by (simp add: identify_drive_def check_floating_bus_def select_drive_def write_command_params_def write_command_def
        try_prog_def bind_def ret_def reads_def throw_def pio_outb_def)
  then show thesis using that assms by (simp add: at_rest_def)
next
  case False
  then have "identify_drive pio_io limit bus1 drive s = (Ok IdNone, s\<lparr>last_selected := Some (1, drive)\<rparr>)"
    by (simp add: identify_drive_def check_floating_bus_def select_drive_def write_command_params_def write_command_def
        try_prog_def bind_def ret_def reads_def throw_def modify_def pio_outb_def)
  then show thesis using that assms by (simp add: at_rest_def)
qed

section \<open>The drives\<close>

lemma select_drive_rest:
  assumes "transfer (machine s) = Idle"
  obtains s' where "select_drive pio_io limit bus0 drive s = (Ok (), s')" and "at_rest s s'"
proof (cases "last_selected s = Some (0, drive)")
  case True
  then show thesis using assms that [of s] by (simp add: select_drive_def bind_def reads_def ret_def at_rest_def)
next
  case False
  then show thesis using assms that
    by (simp add: select_drive_def bind_def reads_def modify_def pio_outb_def at_rest_def)
qed

lemma identify_pio:
  assumes "pio_drives (machine s)"
  obtains s' ws where "identify_drive pio_io limit bus0 drive s = (Ok (IdAta ws), s')" and "at_rest s s'"
    and "concat (map le16 ws) = identity (machine s) (0 < drive)"
proof -
  obtain s1 where s1: "select_drive pio_io limit bus0 drive s = (Ok (), s1)" "at_rest s s1"
    using select_drive_rest [of s limit drive] assms unfolding pio_drives_def by blast
  let ?s2 = "s1\<lparr>machine := (machine s1)\<lparr>reg_lba0 := le_byte 0 0, reg_lba1 := le_byte 0 1, reg_lba2 := le_byte 0 2,
    reg_dev := drive_byte drive 0\<rparr>\<rparr>"
  have dev: "pio_dev (machine ?s2) = (0 < drive)" by (rule pio_dev_drive) simp
  let ?id = "identity (machine s) (0 < drive)"
  let ?s3 = "?s2\<lparr>machine := (machine ?s2)\<lparr>reg_lba1 := 0, reg_lba2 := 0, transfer := Sending ?id\<rparr>\<rparr>"
  have "pio_command 0xEC (machine ?s2) = machine ?s3" using dev s1(2) by (simp add: pio_command_def at_rest_def)
  then have cmd: "write_command pio_io limit bus0 CmdIdentify ?s2 = (Ok (), ?s3)"
    using write_command_pio [of CmdIdentify ?s2 limit] by simp
  have "length ?id = 2 * Suc 255" using assms by (simp add: pio_drives_def)
  then obtain ws where ws: "(read_words pio_io bus0 256 ?s3 :: (unit, _) outcome \<times> _) =
      (Ok ws, ?s3\<lparr>machine := (machine ?s3)\<lparr>transfer := Idle\<rparr>\<rparr>)" "concat (map le16 ws) = ?id"
    using read_words_pio [of ?s3 ?id 255] by auto
  have idle: "transfer (machine s) = Idle" using assms by (simp add: pio_drives_def)
  have "identify_drive pio_io limit bus0 drive s = (Ok (IdAta ws), ?s3\<lparr>machine := (machine ?s3)\<lparr>transfer := Idle\<rparr>\<rparr>)"
    using cmd ws(1) idle by (simp add: identify_drive_def check_floating_bus_def try_prog_def bind_def ret_def s1(1)
        write_command_params_pio lba1_def lba2_def pio_inb_def)
  then show thesis using that [of ws "?s3\<lparr>machine := (machine ?s3)\<lparr>transfer := Idle\<rparr>\<rparr>"] s1(2) ws(2) by (simp add: at_rest_def)
qed

lemma Drive_of_words:
  assumes "concat (map le16 ws) = bytes" and "length bytes = 512"
  shows "\<exists>d. Drive_of b dsk ws = Ok d \<and> drive_bus d = b"
proof -
  have "2 * length ws = 512" using assms length_le16 [of ws] by simp
  moreover have "length (concat (map be16 ws)) = 2 * length ws" by (induction ws) (simp_all add: be16_def)
  ultimately show ?thesis by (simp add: Drive_of_def slice_def Let_def)
qed

definition both_buses :: "pio Ata \<Rightarrow> bool" where
  "both_buses s \<longleftrightarrow> buses s = [bus0, bus1] \<and> pio_drives (machine s)"

lemma Drive_open_pio:
  assumes "both_buses s" and "b = 0 \<or> b = 1"
  obtains d s' where "(Drive_open pio_io limit b dsk s :: ('e, _) outcome \<times> _) = (Ok d, s')" and "at_rest s s'"
    and "if b = 0 then \<exists>drive. d = Some drive \<and> drive_bus drive = 0 else d = None"
proof (cases "b = 0")
  case True
  have bus: "(the_bus b s :: ('e, _) outcome \<times> _) = (Ok bus0, s)"
    using assms(1) True by (simp add: the_bus_def reads_def index_def both_buses_def)
  have "pio_drives (machine s)" using assms(1) by (simp add: both_buses_def)
  then obtain s' ws where id: "identify_drive pio_io limit bus0 dsk s = (Ok (IdAta ws), s')" "at_rest s s'"
    "concat (map le16 ws) = identity (machine s) (0 < dsk)" using identify_pio by metis
  have "length (identity (machine s) (0 < dsk)) = 512" using assms(1) by (simp add: both_buses_def pio_drives_def)
  then obtain d where "(Drive_of b dsk ws :: ('e, _) outcome) = Ok d" "drive_bus d = b" using Drive_of_words [OF id(3)] by blast
  then show thesis using that [of "Some d" s'] id bus True by (simp add: Drive_open_def bind_def)
next
  case False
  have bus: "(the_bus b s :: ('e, _) outcome \<times> _) = (Ok bus1, s)"
    using assms False by (simp add: the_bus_def reads_def index_def both_buses_def)
  obtain s' where "identify_drive pio_io limit bus1 dsk s = (Ok IdNone, s')" "at_rest s s'"
    using identify_empty [of s limit dsk] assms(1) by (auto simp: both_buses_def pio_drives_def)
  then show thesis using that [of None s'] bus False by (simp add: Drive_open_def bind_def)
qed

lemma both_buses_rest: "at_rest s s' \<Longrightarrow> both_buses s \<Longrightarrow> both_buses s'"
  using at_rest_drives [of s s'] by (simp add: both_buses_def at_rest_def)

lemma at_rest_refl: "both_buses s \<Longrightarrow> at_rest s s"
  by (simp add: at_rest_def both_buses_def pio_drives_def)

lemma list_drives_pio:
  assumes "both_buses s"
  obtains ds s' where "(list_drives pio_io limit s :: ('e, _) outcome \<times> _) = (Ok ds, s')" and "at_rest s s'"
    and "\<forall>d \<in> set ds. drive_bus d = 0"
proof -
  have "\<exists>ds s'. (for_acc (push_drive pio_io limit) bds acc s :: ('e, _) outcome \<times> _) = (Ok ds, s') \<and> at_rest s s' \<and>
      (\<forall>d \<in> set ds. drive_bus d = 0)"
    if "both_buses s" "\<forall>(b, dsk) \<in> set bds. b = 0 \<or> b = 1" "\<forall>d \<in> set acc. drive_bus d = 0" for bds acc s
    using that
  proof (induction bds arbitrary: acc s)
    case (Cons bd bds)
    obtain b dsk where bd: "bd = (b, dsk)" by (cases bd)
    then have "b = 0 \<or> b = 1" using Cons.prems(2) by simp
    then obtain d s1 where one: "(Drive_open pio_io limit b dsk s :: ('e, _) outcome \<times> _) = (Ok d, s1)" "at_rest s s1"
      "if b = 0 then \<exists>drive. d = Some drive \<and> drive_bus drive = 0 else d = None"
      using Drive_open_pio [OF Cons.prems(1)] by metis
    have push: "(push_drive pio_io limit bd acc s :: ('e, _) outcome \<times> _) =
        (Ok (case d of None \<Rightarrow> acc | Some drive \<Rightarrow> acc @ [drive]), s1)" (is "_ = (Ok ?acc, _)")
      using one by (simp add: push_drive_def bd bind_def ret_def)
    have "\<forall>d \<in> set ?acc. drive_bus d = 0" using one(3) Cons.prems(3) by (auto split: if_splits)
    then obtain ds s' where "(for_acc (push_drive pio_io limit) bds ?acc s1 :: ('e, _) outcome \<times> _) = (Ok ds, s')" "at_rest s1 s'"
      "\<forall>d \<in> set ds. drive_bus d = 0"
      using Cons.IH [OF both_buses_rest [OF one(2) Cons.prems(1)]] Cons.prems(2) by force
    then show ?case using push one(2) at_rest_trans by (auto simp: bind_def)
  qed (use at_rest_refl in auto)
  from this [OF assms, of "[(0, 0), (0, 1), (1, 0), (1, 1)]" "[]"] show thesis
    using that unfolding list_drives_def by auto
qed

lemma larger_drive_bus:
  "\<forall>d \<in> set ds. drive_bus d = 0 \<Longrightarrow> fst (snd acc) = 0 \<Longrightarrow> fst (snd (foldl larger_drive acc ds)) = 0"
  by (induction ds arbitrary: acc) (simp_all add: larger_drive_def)

lemma log_likely_pio:
  assumes "both_buses s"
  obtains s' where "(log_likely pio_io limit debug_on s :: ('e, _) outcome \<times> _) = (Ok (), s')" and "at_rest s s'"
proof -
  obtain ds s1 where s1: "(list_drives pio_io limit s :: (unit, _) outcome \<times> _) = (Ok ds, s1)" "at_rest s s1" "\<forall>d \<in> set ds. drive_bus d = 0"
    using list_drives_pio [OF assms] by blast
  obtain b dsk where bd: "snd (foldl larger_drive (0, 0, 0) ds) = (b, dsk)" by (cases "snd (foldl larger_drive (0, 0, 0) ds)")
  then have "b = 0" using larger_drive_bus [OF s1(3), of "(0, 0, 0)"] by simp
  then obtain d s2 where s2: "(Drive_open pio_io limit b dsk s1 :: ('e, _) outcome \<times> _) = (Ok (Some d), s2)" "at_rest s1 s2"
    using Drive_open_pio [OF both_buses_rest [OF s1(2) assms], of b limit dsk] by (metis (no_types, lifting))
  show thesis
  proof (cases "ds = [] \<or> \<not> debug_on")
    case True
    then have "(log_likely pio_io limit debug_on s :: ('e, _) outcome \<times> _) = (Ok (), s1)"
      using s1(1) by (auto simp: log_likely_def likely_disk_def bind_def throw_def ret_def)
    then show thesis using that s1(2) by blast
  next
    case False
    then have "(log_likely pio_io limit debug_on s :: ('e, _) outcome \<times> _) = (Ok (), s2)"
      using s1(1) s2(1) bd by (simp add: log_likely_def log_drive_def likely_disk_def bind_def throw_def ret_def)
    then show thesis using that at_rest_trans [OF s1(2) s2(2)] by blast
  qed
qed

lemma ata_init_pio:
  assumes "buses s = []" and "pio_drives (machine s)"
  obtains s' where "(ata_init pio_io limit debug_on s :: ('e, _) outcome \<times> _) = (Ok (), s')" and "pio_ready s'"
    and "sectors (machine s') = sectors (machine s)"
proof -
  let ?s = "s\<lparr>buses := [bus0, bus1]\<rparr>"
  have both: "both_buses ?s" using assms by (simp add: both_buses_def)
  obtain ds s1 where s1: "(list_drives pio_io limit ?s :: ('e, _) outcome \<times> _) = (Ok ds, s1)" "at_rest ?s s1"
    using list_drives_pio [OF both] by blast
  have both1: "both_buses s1" using both_buses_rest [OF s1(2) both] .
  obtain s2 where s2: "(log_likely pio_io limit debug_on s1 :: ('e, _) outcome \<times> _) = (Ok (), s2)" "at_rest s1 s2"
    using log_likely_pio [OF both1] by blast
  have "(ata_init pio_io limit debug_on s :: ('e, _) outcome \<times> _) = (Ok (), s2)"
    using s2(1) s1(1) assms(1) by (auto simp: ata_init_def bind_def modify_def bus0_def bus1_def)
  moreover have "both_buses s2" using both_buses_rest [OF s2(2) both1] .
  ultimately show thesis using that at_rest_trans [OF s1(2) s2(2)]
    by (simp add: pio_ready_def both_buses_def pio_drives_def at_rest_def)
qed

end
