(* ===== verification/Boot.thy ===== *)
theory Boot
  imports Trap Acpi Ata_Start
begin

text \<open>
  The start of the kernel: \<open>init\<close> of \<open>kernel/src/lib.rs\<close>, which starts the parts in order, and \<open>kmain\<close>
  of \<open>main.rs\<close>, which starts the first program. The machine has the state of all parts. Segments,
  descriptor table and interrupt controller are set up without a state that the model has. Messages
  that the parts print themselves, keys during the start, and trace messages are left out; the
  time in a message, and the place in the source that a build with \<open>trace_log\<close> prints, are given texts.

  The property follows a file from the directory of the loader into the first process.
\<close>

section \<open>The machine\<close>

record ('r, 'f, 'h, 'm, 'p, 'q, 'g, 'i) Machine =
  kern :: "('r, 'f, 'h, 'm, 'p Ata) Kernel"
  mc_mem :: "'q Mem"
  mc_heap :: 'g
  mc_acpi :: Acpi_state
  mc_irqs :: "('i \<Rightarrow> 'i) list"
  mc_tsc_frequency :: nat
  mc_screen :: VgaWriter

text \<open>
  The hardware and the boot loader: ports, the limit of a poll, the readings of the tick counter while
  \<open>calibrate_tsc\<close> sleeps and of the time-stamp counter around it, the address translation, the tables
  of ACPI, and \<open>BootInfo\<close>. The two handlers act on the state \<open>'i\<close> of the running system.
\<close>

record ('p, 'w, 'q, 'g, 'i) Hardware =
  hw_io :: "'p Port_io"
  hw_limit :: nat
  hw_ticks :: "nat list"
  hw_tsc :: "nat \<times> nat"
  hw_walk :: "'w Walk"
  hw_tables :: 'w
  hw_paging :: "'q Paging"
  hw_heap_init :: "u64 \<Rightarrow> nat \<Rightarrow> 'g \<Rightarrow> 'g"
  hw_read :: "u64 \<Rightarrow> nat \<Rightarrow> u8 list"
  hw_aml :: aml_parser
  hw_acpi :: "(string, AcpiTables) outcome"
  hw_pit_handler :: "'i \<Rightarrow> 'i"
  hw_keyboard_handler :: "'i \<Rightarrow> 'i"
  hw_time :: "nat \<Rightarrow> rchar list"
  hw_place :: "nat \<Rightarrow> rchar list"
  hw_features :: features
  hw_ascii_art :: bool
  bi_offset :: u64
  bi_memory_map :: "MemoryRegion list"

text \<open>A step of the start that may not return (\<open>None\<close>), and a sequence of them.\<close>

type_synonym 's boot = "'s \<Rightarrow> ((unit, unit) outcome \<times> 's) option"

fun boot_steps :: "'s boot list \<Rightarrow> 's boot" where
  "boot_steps [] s = Some (Ok (), s)"
| "boot_steps (b # bs) s = (case b s of Some (Ok _, s') \<Rightarrow> boot_steps bs s' | r \<Rightarrow> r)"

definition on_screen :: "(VgaWriter, unit, unit) prog \<Rightarrow> ('r, 'f, 'h, 'm, 'p, 'q, 'g, 'i) Machine boot" where
  "on_screen m s = (case m (mc_screen s) of (r, w) \<Rightarrow> Some (r, s\<lparr>mc_screen := w\<rparr>))"

definition on_kern :: "(('r, 'f, 'h, 'm, 'p Ata) Kernel, unit, unit) prog \<Rightarrow> ('r, 'f, 'h, 'm, 'p, 'q, 'g, 'i) Machine boot" where
  "on_kern m s = (case m (kern s) of (r, k) \<Rightarrow> Some (r, s\<lparr>kern := k\<rparr>))"

definition on_disk :: "('p Ata, unit, unit) prog \<Rightarrow> (('r, 'f, 'h, 'm, 'p Ata) Kernel, unit, unit) prog" where
  "on_disk m k = (case m (k_disk k) of (r, d) \<Rightarrow> (r, k\<lparr>k_disk := d\<rparr>))"

section \<open>Messages\<close>

definition system_line :: "rchar list \<Rightarrow> (VgaWriter, unit, unit) prog" where
  "system_line msg =
     bind (kprint_text (ascii ''['')) (\<lambda>_.
     bind (write_str (ascii ''SYSTEM'') Green Black) (\<lambda>_.
     bind (kprint_text (ascii ''] '')) (\<lambda>_. kprintln_text msg)))"

text \<open>\<open>vga::info\<close>, used before there is a logger.\<close>

definition vga_info :: "features \<Rightarrow> rchar list \<Rightarrow> rchar list \<Rightarrow> (VgaWriter, unit, unit) prog" where
  "vga_info f time msg =
     (if (info_log f \<or> debug_log f \<or> trace_log f) \<and> \<not> (error_log f \<or> warn_log f) then
        bind (kprint_text (ascii ''['' @ time @ ascii ''] '')) (\<lambda>_.
        bind (kprint_text (ascii ''[ '')) (\<lambda>_.
        bind (write_str (ascii ''INFO'') LightBlue Black) (\<lambda>_.
        kprint_text (ascii '' ] '' @ msg @ [0x0A]))))
      else ret ())"

text \<open>\<open>info!\<close> through the logger with the level of the build.\<close>

definition log_info :: "features \<Rightarrow> rchar list \<Rightarrow> rchar list \<Rightarrow> rchar list \<Rightarrow> (VgaWriter, unit, unit) prog" where
  "log_info f time place msg = (case LOG_LEVELS f of
      [max_level] \<Rightarrow> log_record time (if trace_log f then Some place else None) max_level Info_level msg
    | _ \<Rightarrow> ret ())"

definition newline_text :: "rchar list" where
  "newline_text = [0x0A]"

definition ASCII_ART :: "rchar list" where
  "ASCII_ART = concat (map (\<lambda>l. newline_text @ ascii l)
     [''______          _         _'',
      ''| ___ '' @ [CHR 0x5C] @ ''        | |       (_)'',
      ''| |_/ /   _ ___| |_ _ __  ___  __'',
      ''|    / | | / __| __| '' @ [CHR 0x27] @ ''_ '' @ [CHR 0x5C] @ ''| '' @ [CHR 0x5C] @ '' '' @ [CHR 0x5C] @ ''/ /'',
      ''| |'' @ [CHR 0x5C] @ '' '' @ [CHR 0x5C] @ '' |_| '' @ [CHR 0x5C] @ ''__ '' @ [CHR 0x5C] @ '' |_| | | | |>  <'',
      [CHR 0x5C] @ ''_| '' @ [CHR 0x5C] @ ''_'' @ [CHR 0x5C] @ ''__,_|___/'' @ [CHR 0x5C] @ ''__|_| |_|_/_/'' @ [CHR 0x5C] @ ''_'' @ [CHR 0x5C]])"

definition banner :: "bool \<Rightarrow> (VgaWriter, unit, unit) prog" where
  "banner art = (if art then bind (write_str_rainbow ASCII_ART) (\<lambda>_. kprint_text [0x0A]) else ret ())"

section \<open>The parts\<close>

definition install_irq :: "u8 \<Rightarrow> ('i \<Rightarrow> 'i) \<Rightarrow> ('r, 'f, 'h, 'm, 'p, 'q, 'g, 'i) Machine boot" where
  "install_irq irq h s = (case set_irq_handler irq h (mc_irqs s) of
      Ok hs \<Rightarrow> Some (Ok (), s\<lparr>mc_irqs := hs\<rparr>)
    | Err e \<Rightarrow> Some (Err e, s)
    | Panic \<Rightarrow> Some (Panic, s))"

definition calibrate :: "('p, 'w, 'q, 'g, 'i) Hardware \<Rightarrow> ('r, 'f, 'h, 'm, 'p, 'q, 'g, 'i) Machine boot" where
  "calibrate hw s = (case clk_sleep 1 (hw_ticks hw) :: (unit, unit) outcome option of
      None \<Rightarrow> None
    | Some r \<Rightarrow> (case obind r (\<lambda>_. calibrate_tsc (fst (hw_tsc hw)) (snd (hw_tsc hw))) of
          Ok freq \<Rightarrow> Some (Ok (), s\<lparr>mc_tsc_frequency := freq\<rparr>)
        | Err e \<Rightarrow> Some (Err e, s)
        | Panic \<Rightarrow> Some (Panic, s)))"

definition pit_start :: "('p, 'w, 'q, 'g, 'i) Hardware \<Rightarrow> ('r, 'f, 'h, 'm, 'p, 'q, 'g, 'i) Machine boot" where
  "pit_start hw = boot_steps
     [on_kern (on_disk (modify (\<lambda>d. d\<lparr>machine := pit_init (hw_io hw) (machine d)\<rparr>))),
      install_irq 0 (hw_pit_handler hw), calibrate hw]"

definition memory_start :: "('p, 'w, 'q, 'g, 'i) Hardware \<Rightarrow> ('r, 'f, 'h, 'm, 'p, 'q, 'g, 'i) Machine boot" where
  "memory_start hw s =
     (case memory_init (hw_walk hw) (hw_tables hw) (hw_paging hw) (bi_offset hw) (bi_memory_map hw)
         (hw_heap_init hw) (mc_heap s) (mc_mem s, statics (mc_acpi s)) of
        (r, (m, g)) \<Rightarrow> (let s' = s\<lparr>mc_mem := m, mc_acpi := (mc_acpi s)\<lparr>statics := g\<rparr>\<rparr> in
          case r of Ok heap \<Rightarrow> Some (Ok (), s'\<lparr>mc_heap := heap\<rparr>) | Err e \<Rightarrow> Some (Err e, s') | Panic \<Rightarrow> Some (Panic, s')))"

definition ata_start :: "('p, 'w, 'q, 'g, 'i) Hardware \<Rightarrow> ('r, 'f, 'h, 'm, 'p, 'q, 'g, 'i) Machine boot" where
  "ata_start hw = on_kern (on_disk (ata_init (hw_io hw) (hw_limit hw) (trace_log (hw_features hw) \<or> debug_log (hw_features hw))))"

definition fs_start :: "('p, 'w, 'q, 'g, 'i) Hardware \<Rightarrow> ('r, 'f, 'h, 'm, 'p, 'q, 'g, 'i) Machine boot" where
  "fs_start hw = on_kern (\<lambda>k.
     case fs_init (\<lambda>bus dsk. read_sector (ata_read (hw_io hw) (hw_limit hw) bus dsk)) (k_fss k, k_disk k) of
       (r, (fss, d)) \<Rightarrow> (map_err (\<lambda>_. ()) r, k\<lparr>k_fss := fss, k_disk := d\<rparr>))"

definition acpi_start :: "('p, 'w, 'q, 'g, 'i) Hardware \<Rightarrow> ('r, 'f, 'h, 'm, 'p, 'q, 'g, 'i) Machine boot" where
  "acpi_start hw s = (case acpi_init (hw_walk hw) (hw_read hw) (hw_aml hw) (hw_acpi hw) (mc_acpi s) of
      (r, a) \<Rightarrow> Some (r, s\<lparr>mc_acpi := a\<rparr>))"

definition users_start :: "('r, 'h, 'm, 'p Ata) Env \<Rightarrow> ('r, 'f, 'h, 'm, 'p, 'q, 'g, 'i) Machine boot" where
  "users_start par s = (case user_init par (kern s) of
      None \<Rightarrow> None
    | Some (r, k) \<Rightarrow> Some (r, s\<lparr>kern := k\<rparr>))"

section \<open>The start\<close>

definition kernel_init :: "('r, 'h, 'm, 'p Ata) Env \<Rightarrow> ('p, 'w, 'q, 'g, 'i) Hardware \<Rightarrow> ('r, 'f, 'h, 'm, 'p, 'q, 'g, 'i) Machine boot" where
  "kernel_init par hw =
     (let f = hw_features hw; t = hw_time hw; p = hw_place hw in boot_steps
     [on_screen (system_line (ascii ''Initializing kernel...'')),
      on_screen (vga_info f (t 0) (ascii ''GDT initialized'')),
      on_screen (vga_info f (t 1) (ascii ''IDT initialized'')),
      on_screen (vga_info f (t 2) (ascii ''Interrupts enabled'')),
      pit_start hw,
      on_screen (vga_info f (t 3) (ascii ''PIT initialized'')),
      memory_start hw,
      on_screen (vga_info f (t 4) (ascii ''Memory initialized'')),
      on_screen (log_info f (t 5) (p 5) (ascii ''Logger initialized'')),
      on_kern (sys_init par),
      on_screen (log_info f (t 6) (p 6) (ascii ''Syscalls initialized'')),
      install_irq 1 (hw_keyboard_handler hw),
      on_screen (log_info f (t 7) (p 7) (ascii ''Console initialized'')),
      ata_start hw,
      on_screen (log_info f (t 8) (p 8) (ascii ''ATA initialized'')),
      fs_start hw,
      on_screen (log_info f (t 9) (p 9) (ascii ''Filesystem initialized'')),
      acpi_start hw,
      on_screen (log_info f (t 10) (p 10) (ascii ''ACPI initialized'')),
      users_start par,
      on_screen (log_info f (t 11) (p 11) (ascii ''Users initialized'')),
      on_screen (system_line (ascii ''Kernel initialized in '' @ t 12 @ ascii '' s'')),
      on_screen (banner (hw_ascii_art hw))])"

text \<open>
  \<open>kmain\<close> up to the entry of the first program: \<open>syscall!(EXEC, ..)\<close> without arguments, with the address
  of the text \<open>/bin/hello.o\<close>.
\<close>

definition kmain :: "('r, 'h, 'm, 'p Ata) Env \<Rightarrow> ('p, 'w, 'q, 'g, 'i) Hardware \<Rightarrow> 'f \<Rightarrow> Registers \<Rightarrow> u64 \<Rightarrow> u64
    \<Rightarrow> ('r, 'f, 'h, 'm, 'p, 'q, 'g, 'i) Machine \<Rightarrow> ((unit, 'f trap_result) outcome \<times> ('r, 'f, 'h, 'm, 'p Ata) Kernel) option" where
  "kmain par hw frame c path_ptr args_ptr s = (case kernel_init par hw s of
      None \<Rightarrow> None
    | Some (Ok _, s') \<Rightarrow> int_0x80 par frame (syscall4 0xA path_ptr 12 args_ptr 0 c) (kern s')
    | Some (Err e, s') \<Rightarrow> Some (Err e, kern s')
    | Some (Panic, s') \<Rightarrow> Some (Panic, kern s'))"

section \<open>Sequences of steps\<close>

definition boots :: "('s \<Rightarrow> bool) \<Rightarrow> 's boot list \<Rightarrow> ('s \<Rightarrow> bool) \<Rightarrow> bool" where
  "boots P bs Q \<longleftrightarrow> (\<forall>s. P s \<longrightarrow> (\<exists>s'. boot_steps bs s = Some (Ok (), s') \<and> Q s'))"

lemma boots_Cons: "boots P [b] R \<Longrightarrow> boots R bs Q \<Longrightarrow> boots P (b # bs) Q"
  by (fastforce simp: boots_def split: option.splits prod.splits outcome.splits)

text \<open>A state up to the screen, on which anything may be shown.\<close>

definition at_state :: "('r, 'f, 'h, 'm, 'p, 'q, 'g, 'i) Machine \<Rightarrow> ('r, 'f, 'h, 'm, 'p, 'q, 'g, 'i) Machine \<Rightarrow> bool" where
  "at_state s0 s \<longleftrightarrow> (\<exists>w. screen_ok w \<and> s = s0\<lparr>mc_screen := w\<rparr>)"

definition keeps_screen :: "(VgaWriter, unit, unit) prog \<Rightarrow> bool" where
  "keeps_screen m \<longleftrightarrow> (\<forall>w. screen_ok w \<longrightarrow> (\<exists>w'. m w = (Ok (), w') \<and> screen_ok w'))"

lemma boots_screen: "keeps_screen m \<Longrightarrow> boots (at_state s) [on_screen m] (at_state s)"
  by (fastforce simp: boots_def at_state_def keeps_screen_def on_screen_def)

lemma boots_step: "(\<And>w. b (s\<lparr>mc_screen := w\<rparr>) = Some (Ok (), s'\<lparr>mc_screen := w\<rparr>)) \<Longrightarrow> boots (at_state s) [b] (at_state s')"
  by (auto simp: boots_def at_state_def)

lemma boots_kern: "m (kern s) = (Ok (), k) \<Longrightarrow> boots (at_state s) [on_kern m] (at_state (s\<lparr>kern := k\<rparr>))"
  by (rule boots_step) (simp add: on_kern_def)

section \<open>Messages never fail\<close>

lemma screen_bind: "keeps_screen m \<Longrightarrow> keeps_screen n \<Longrightarrow> keeps_screen (bind m (\<lambda>_. n))"
  by (fastforce simp: keeps_screen_def bind_def)

lemma screen_ret: "keeps_screen (ret ())"
  by (simp add: keeps_screen_def ret_def)

lemma screen_bind_ret: "keeps_screen m \<Longrightarrow> keeps_screen (bind m ret)"
  by (fastforce simp: keeps_screen_def bind_def ret_def)

lemma keeps_kprint: "keeps_screen (kprint_text s)"
  using kprint_ok by (auto simp: keeps_screen_def)

lemma keeps_kprintln: "keeps_screen (kprintln_text s)"
  unfolding kprintln_text_def by (rule keeps_kprint)

lemma keeps_write_str: "keeps_screen (write_str s fg bg)"
  unfolding keeps_screen_def using write_chars_run by blast

lemmas keeps_intros = screen_bind screen_bind_ret screen_ret keeps_kprint keeps_kprintln keeps_write_str

lemma keeps_messages: "keeps_screen (system_line msg)" "keeps_screen (vga_info f t msg)"
  "keeps_screen (log_info f t p msg)"
  by (auto simp: system_line_def vga_info_def log_info_def log_record_def intro!: keeps_intros split: list.split option.split)

lemma keeps_rainbow: "keeps_screen (write_str_rainbow s)"
proof -
  have "\<exists>fg' w'. for_acc rainbow_char s fg w = (Ok fg', w') \<and> screen_ok w'" if "screen_ok w" for fg w
    using that
  proof (induction s arbitrary: fg w)
    case (Cons c s)
    obtain w1 where w1: "write_char c fg Black w = (Ok (), w1)" "screen_ok w1"
      using write_char_run [OF Cons.prems] by blast
    show ?case using Cons.IH [OF w1(2)] w1(1) by (simp add: rainbow_char_def bind_def ret_def)
  qed (simp add: ret_def)
  then have "\<exists>fg' w'. for_acc rainbow_char s Red w = (Ok fg', w') \<and> screen_ok w'" if "screen_ok w" for w
    using that by blast
  then show ?thesis unfolding keeps_screen_def write_str_rainbow_def
    by (metis (no_types, lifting) bind_Ok ret_def)
qed

lemma keeps_banner: "keeps_screen (banner art)"
  by (simp add: banner_def keeps_rainbow screen_bind screen_ret keeps_kprint)

section \<open>The parts on a machine with drives\<close>

text \<open>A machine before the start: nothing open, mounted or known, and the disks at rest.\<close>

definition powered_on :: "('r, 'f, 'h, 'm, pio, 'q, 'g, 'i) Machine \<Rightarrow> bool" where
  "powered_on s \<longleftrightarrow> k_files (kern s) = [] \<and> k_errno (kern s) = 0 \<and> k_users (kern s) = None \<and>
     k_fss (kern s) = Map.empty \<and> (\<exists>cr3 heap addr m. k_procs (kern s) = boot_procs cr3 heap addr m) \<and> buses (k_disk (kern s)) = [] \<and> pio_drives (machine (k_disk (kern s))) \<and>
     length (mc_irqs s) = 16 \<and> screen_ok (mc_screen s)"

text \<open>The second drive of the first bus holds the image.\<close>

definition attached :: "u8 list \<Rightarrow> ('r, 'f, 'h, 'm, pio, 'q, 'g, 'i) Machine \<Rightarrow> bool" where
  "attached img s \<longleftrightarrow> (\<forall>n bs. image_sector (Some img) n = Some bs \<longrightarrow> sectors (machine (k_disk (kern s))) True n = bs)"

text \<open>
  The rest of the hardware works: a second passes, the memory system starts, and so does the
  interpreter of ACPI tables, whatever it finds.
\<close>

definition hardware_works :: "(pio, 'w, 'q, 'g, 'i) Hardware \<Rightarrow> ('r, 'f, 'h, 'm, pio, 'q, 'g, 'i) Machine \<Rightarrow> bool" where
  "hardware_works hw s \<longleftrightarrow> hw_io hw = pio_io \<and> (clk_sleep 1 (hw_ticks hw) :: (unit, unit) outcome option) = Some (Ok ()) \<and>
     fst (hw_tsc hw) \<le> snd (hw_tsc hw) \<and>
     (\<exists>heap m g a. memory_init (hw_walk hw) (hw_tables hw) (hw_paging hw) (bi_offset hw) (bi_memory_map hw)
         (hw_heap_init hw) (mc_heap s) (mc_mem s, statics (mc_acpi s)) = (Ok heap, (m, g)) \<and>
       acpi_init (hw_walk hw) (hw_read hw) (hw_aml hw) (hw_acpi hw) ((mc_acpi s)\<lparr>statics := g\<rparr>) = (Ok (), a))"

lemma pit_init_pio: "pit_init pio_io m = m"
  by (simp add: pit_init_def pio_io_def pio_outb_def)

lemma install_irq_ok:
  assumes "length (mc_irqs s) = 16" and "unat irq < 16"
  shows "install_irq irq h s = Some (Ok (), s\<lparr>mc_irqs := (mc_irqs s)[unat irq := h]\<rparr>)"
  using assms by (simp add: install_irq_def set_irq_handler_def index_set_def)

lemma pit_start_ok:
  assumes "hw_io hw = pio_io" and "(clk_sleep 1 (hw_ticks hw) :: (unit, unit) outcome option) = Some (Ok ())"
    and "fst (hw_tsc hw) \<le> snd (hw_tsc hw)" and "length (mc_irqs s) = 16"
  shows "boots (at_state s) [pit_start hw] (at_state (s\<lparr>mc_irqs := (mc_irqs s)[0 := hw_pit_handler hw],
    mc_tsc_frequency := snd (hw_tsc hw) - fst (hw_tsc hw)\<rparr>))"
  using assms by (intro boots_step)
    (simp add: pit_start_def on_kern_def on_disk_def modify_def pit_init_pio install_irq_ok calibrate_def calibrate_tsc_def usize_sub_def)

lemma mount_image:
  assumes ready: "pio_ready d" and fs: "disk_fs fs" and len: "length (fs_sectors fs) = 9217"
    and img: "image.holds (fs_sectors fs) (length (fs_sectors fs)) (Some img)"
    and same: "\<And>n bs. image_sector (Some img) n = Some bs \<Longrightarrow> sectors (machine d) True n = bs"
  shows "\<exists>d'. (fs_init (\<lambda>bus dsk. read_sector (ata_read pio_io limit bus dsk)) (Map.empty, d)) =
    (Ok (), ([(0, 1) \<mapsto> \<lparr>phys_fs = fs, vf_bus = 0, vf_dsk = 1, open_files = []\<rparr>], d'))"
proof -
  have "pio_sector 1 d (word_of_nat k) = Some (fs_sectors fs ! k)" if "k < length (fs_sectors fs)" for k
  proof -
    have "image_sector (Some img) (word_of_nat k) = Some (fs_sectors fs ! k)"
      using img that by (simp add: image.holds_def)
    then show ?thesis using same [of "word_of_nat k"] that len by (simp add: pio_sector_def unat_of_nat)
  qed
  then have "ata.holds 1 (fs_sectors fs) (length (fs_sectors fs)) d" using ready by (simp add: ata.holds_def)
  from ata.read_from_disk_holds [OF fs this] obtain d' where
    "read_from_disk (read_sector (ata_read pio_io limit 0 1)) d = (Ok fs, d')" by blast
  then show ?thesis by (simp add: fs_init_def load_fs_def from_disk_def map_err_prog_def)
qed

lemma image_file_opened:
  assumes "loadable entries" and "(name, contents) \<in> set entries" and "direct_fs fs" and "files fs = stored entries"
    and iter: "\<And>v. iter [(0, 1) \<mapsto> v] = [(0, 1)]"
  shows "new_with_likely_fs iter [(0, 1) \<mapsto> \<lparr>phys_fs = fs, vf_bus = 0, vf_dsk = 1, open_files = []\<rparr>] name flags =
      Ok (FileHandle_new name 0 1 flags)"
    and "opened [(0, 1) \<mapsto> \<lparr>phys_fs = fs, vf_bus = 0, vf_dsk = 1, open_files = []\<rparr>] (FileHandle_new name 0 1 flags)
      loaded_metadata (pad_data contents)"
proof -
  have name: "valid_name name" using assms(1,2) by (auto simp: loadable_def)
  have stored: "files fs (padded name) = Some (loaded_metadata, pad_data contents)"
    using stored_lookup [OF assms(1,2)] assms(4) by simp
  obtain i where "find_inode_by_name fs name = Ok i"
    using read_file_files [OF assms(3) name] stored by (auto simp: read_file_def)
  then show "new_with_likely_fs iter [(0, 1) \<mapsto> \<lparr>phys_fs = fs, vf_bus = 0, vf_dsk = 1, open_files = []\<rparr>] name flags =
      Ok (FileHandle_new name 0 1 flags)"
    by (simp add: new_with_likely_fs_def iter del: One_nat_def)
  show "opened [(0, 1) \<mapsto> \<lparr>phys_fs = fs, vf_bus = 0, vf_dsk = 1, open_files = []\<rparr>] (FileHandle_new name 0 1 flags)
      loaded_metadata (pad_data contents)"
    using assms(3) name stored by (simp add: opened_def FileHandle_new_def fh_key_def)
qed

section \<open>The whole start\<close>

lemma boots_Nil: "boots P [] P"
  by (simp add: boots_def)

lemmas boots_say = boots_Cons [OF boots_screen [OF keeps_messages(1)]] boots_Cons [OF boots_screen [OF keeps_messages(2)]]
  boots_Cons [OF boots_screen [OF keeps_messages(3)]] boots_Cons [OF boots_screen [OF keeps_banner]]

text \<open>The sequence of \<open>init\<close>, from what its eight parts do.\<close>

lemma kernel_init_sequence:
  assumes "boots (at_state s) [pit_start hw] (at_state s1)" and "boots (at_state s1) [memory_start hw] (at_state s2)"
    and "boots (at_state s2) [on_kern (sys_init par)] (at_state s3)"
    and "boots (at_state s3) [install_irq 1 (hw_keyboard_handler hw)] (at_state s4)"
    and "boots (at_state s4) [ata_start hw] (at_state s5)" and "boots (at_state s5) [fs_start hw] (at_state s6)"
    and "boots (at_state s6) [acpi_start hw] (at_state s7)" and "boots (at_state s7) [users_start par] (at_state s8)"
    and "screen_ok (mc_screen s)"
  shows "\<exists>w. screen_ok w \<and> kernel_init par hw s = Some (Ok (), s8\<lparr>mc_screen := w\<rparr>)"
proof -
  have "at_state s s" using assms(9) by (auto simp: at_state_def intro!: exI [of _ "mc_screen s"])
  moreover have "\<exists>bs. kernel_init par hw = boot_steps bs \<and> boots (at_state s) bs (at_state s8)"
    unfolding kernel_init_def Let_def
    by (intro exI conjI, rule refl, intro boots_say boots_Nil assms(1-8) [THEN boots_Cons])
  ultimately obtain s' where "kernel_init par hw s = Some (Ok (), s')" "at_state s8 s'" by (metis boots_def)
  then show ?thesis by (auto simp: at_state_def)
qed

text \<open>The users are read from the mounted image.\<close>

lemma users_start_ok:
  assumes k: "k_errno (kern s) = 0" "k_users (kern s) = None" "k_files (kern s) = boot_devices par"
      "k_fss (kern s) = [(0, 1) \<mapsto> \<lparr>phys_fs = fs, vf_bus = 0, vf_dsk = 1, open_files = []\<rparr>]"
    and entries: "loadable entries" "(''/etc/users'', as_bytes (users_file us)) \<in> set entries"
    and fs: "direct_fs fs" "files fs = stored entries"
    and us: "\<forall>u \<in> set us. valid_user u" "length (users_file us) \<le> 1536"
    and iter: "\<And>v. e_iter par [(0, 1) \<mapsto> v] = [(0, 1)]"
  obtains k where "boots (at_state s) [users_start par] (at_state (s\<lparr>kern := k\<rparr>))" and "k_users k = Some us"
    and "k_fss k = k_fss (kern s)" and "k_errno k = 0" and "k_procs k = k_procs (kern s)" and "length (k_files k) \<le> 7" and "fds_ok k"
proof -
  let ?z = "512 - length (users_file us) mod 512" and ?h = "FileHandle_new ''/etc/users'' 0 1 (flag_bits FlagRead)"
  note opens = image_file_opened [OF entries fs, of "e_iter par" "flag_bits FlagRead", OF iter, folded k(4)]
  have fds: "fds_ok (kern s)" by (simp add: fds_ok_def k(3) boot_devices_def)
  have len: "length (as_bytes (users_file us)) + ?z \<le> 2048" using us(2) by simp
  have "length (k_files (kern s)) < 2 ^ 63" by (simp add: k(3))
  from user_init_loads [OF k(1,2) this opens(1) _ _ opens(2) [unfolded pad_data_prefix length_as_bytes] len us(1) [rule_format]]
  obtain k' where k': "user_init par (kern s) = Some (Ok (), k')" "k_users k' = Some us" "k_fss k' = k_fss (kern s)" "k_errno k' = 0"
    "k_procs k' = k_procs (kern s)" "length (k_files k') \<le> 7" "fds_ok k'"
    using fds by (auto simp: FileHandle_new_def k(3))
  show thesis
    by (rule that [OF boots_step k'(2-7)]) (simp add: users_start_def k'(1))
qed

lemma kernel_init_ok:
  assumes on: "powered_on s" and works: "hardware_works hw s"
    and fs: "disk_fs fs" "direct_fs fs" "length (fs_sectors fs) = 9217" "files fs = stored entries"
    and img: "image.holds (fs_sectors fs) (length (fs_sectors fs)) (Some img)" "attached img s"
    and entries: "loadable entries" "(''/etc/users'', as_bytes (users_file us)) \<in> set entries"
    and us: "\<forall>u \<in> set us. valid_user u" "length (users_file us) \<le> 1536"
    and iter: "\<And>v. e_iter par [(0, 1) \<mapsto> v] = [(0, 1)]"
  obtains s' where "kernel_init par hw s = Some (Ok (), s')" and "k_users (kern s') = Some us"
    and "k_fss (kern s') = [(0, 1) \<mapsto> \<lparr>phys_fs = fs, vf_bus = 0, vf_dsk = 1, open_files = []\<rparr>]"
    and "k_procs (kern s') = k_procs (kern s)" and "k_errno (kern s') = 0" and "length (k_files (kern s')) \<le> 7"
    and "screen_ok (mc_screen s')" and "kernel_ok (kern s')"
proof -
  let ?fss = "[(0, 1) \<mapsto> \<lparr>phys_fs = fs, vf_bus = 0, vf_dsk = 1, open_files = []\<rparr>] :: filesystems"
  have io: "hw_io hw = pio_io" using works by (simp add: hardware_works_def)
  obtain heap m g a where mem: "memory_init (hw_walk hw) (hw_tables hw) (hw_paging hw) (bi_offset hw) (bi_memory_map hw)
      (hw_heap_init hw) (mc_heap s) (mc_mem s, statics (mc_acpi s)) = (Ok heap, (m, g))"
    and acpi: "acpi_init (hw_walk hw) (hw_read hw) (hw_aml hw) (hw_acpi hw) ((mc_acpi s)\<lparr>statics := g\<rparr>) = (Ok (), a)"
    using works by (auto simp: hardware_works_def)
  define s1 where "s1 = s\<lparr>mc_irqs := (mc_irqs s)[0 := hw_pit_handler hw], mc_tsc_frequency := snd (hw_tsc hw) - fst (hw_tsc hw)\<rparr>"
  define s2 where "s2 = s1\<lparr>mc_mem := m, mc_acpi := (mc_acpi s)\<lparr>statics := g\<rparr>, mc_heap := heap\<rparr>"
  define s3 where "s3 = s2\<lparr>kern := (kern s)\<lparr>k_files := boot_devices par\<rparr>\<rparr>"
  define s4 where "s4 = s3\<lparr>mc_irqs := (mc_irqs s3)[1 := hw_keyboard_handler hw]\<rparr>"
  have 1: "boots (at_state s) [pit_start hw] (at_state s1)"
    unfolding s1_def using works on by (intro pit_start_ok) (simp_all add: hardware_works_def powered_on_def)
  have 2: "boots (at_state s1) [memory_start hw] (at_state s2)"
    using mem by (intro boots_step) (simp add: memory_start_def s1_def s2_def)
  have 3: "boots (at_state s2) [on_kern (sys_init par)] (at_state s3)"
    unfolding s3_def using on by (intro boots_kern) (simp add: sys_init_devices s2_def s1_def powered_on_def)
  have 4: "boots (at_state s3) [install_irq 1 (hw_keyboard_handler hw)] (at_state s4)"
    using on by (intro boots_step) (simp add: install_irq_ok s4_def s3_def s2_def s1_def powered_on_def)
  obtain d where d: "(ata_init pio_io (hw_limit hw) (trace_log (hw_features hw) \<or> debug_log (hw_features hw)) (k_disk (kern s)) :: (unit, unit) outcome \<times> _) = (Ok (), d)" "pio_ready d"
    "sectors (machine d) = sectors (machine (k_disk (kern s)))"
    using on [unfolded powered_on_def] by (metis ata_init_pio)
  define s5 where "s5 = s4\<lparr>kern := (kern s4)\<lparr>k_disk := d\<rparr>\<rparr>"
  have 5: "boots (at_state s4) [ata_start hw] (at_state s5)"
    unfolding ata_start_def s5_def using d(1) by (intro boots_kern) (simp add: on_disk_def io s4_def s3_def)
  obtain d' where d': "fs_init (\<lambda>bus dsk. read_sector (ata_read pio_io (hw_limit hw) bus dsk)) (Map.empty, d) = (Ok (), (?fss, d'))"
    using mount_image [OF d(2) fs(1,3) img(1), of "hw_limit hw"] img(2) d(3) by (auto simp: attached_def)
  define s6 where "s6 = s5\<lparr>kern := (kern s5)\<lparr>k_fss := ?fss, k_disk := d'\<rparr>\<rparr>"
  have "k_fss (kern s5) = Map.empty" "k_disk (kern s5) = d" using on by (simp_all add: s5_def s4_def s3_def powered_on_def)
  then have 6: "boots (at_state s5) [fs_start hw] (at_state s6)"
    unfolding fs_start_def s6_def using d' by (intro boots_kern) (simp add: io)
  define s7 where "s7 = s6\<lparr>mc_acpi := a\<rparr>"
  have 7: "boots (at_state s6) [acpi_start hw] (at_state s7)"
    using acpi by (intro boots_step) (simp add: acpi_start_def s7_def s6_def s5_def s4_def s3_def s2_def)
  have k7: "k_errno (kern s7) = 0" "k_users (kern s7) = None" "k_files (kern s7) = boot_devices par" "k_fss (kern s7) = ?fss"
    "k_procs (kern s7) = k_procs (kern s)"
    using on by (simp_all add: s7_def s6_def s5_def s4_def s3_def powered_on_def)
  obtain k where 8: "boots (at_state s7) [users_start par] (at_state (s7\<lparr>kern := k\<rparr>))" and k: "k_users k = Some us"
    "k_fss k = ?fss" "k_errno k = 0" "k_procs k = k_procs (kern s)" "length (k_files k) \<le> 7" "fds_ok k"
    using users_start_ok [OF k7(1-4) entries fs(2,4) us iter, unfolded k7(4,5)] by metis
  have "screen_ok (mc_screen s)" using on by (simp add: powered_on_def)
  moreover have "kernel_ok k" using k(4,6) on stacked_boot by (auto simp: kernel_ok_def powered_on_def)
  ultimately show thesis using kernel_init_sequence [OF 1 2 3 4 5 6 7 8] that k by auto
qed

section \<open>The first program\<close>

text \<open>\<open>EXEC\<close> through the trap, as far as the start of the process.\<close>

lemma exec_trap:
  fixes k :: "('r, 'f, 'h, 'm, 'd) Kernel"
  assumes st: "stacked (k_procs k)"
    and path: "bytes_at par (unat path_ptr) 12 k = Ok (p, as_bytes path)"
    and spawn: "\<And>k1 :: ('r, 'f, 'h, 'm, 'd) Kernel. k_fss k1 = k_fss k \<Longrightarrow> k_files k1 = k_files k \<Longrightarrow>
      \<exists>k2. sys_spawn par path args_ptr 0 k1 = Some (start_process par bin args_ptr 0 k2) \<and> k_procs k2 = k_procs k1"
  shows "\<exists>k2. int_0x80 par frame (syscall4 0xA path_ptr 12 args_ptr 0 c) k =
      Some (bind (start_process par bin args_ptr 0) (after_dispatch frame (syscall4 0xA path_ptr 12 args_ptr 0 c)) k2) \<and>
    k_procs k2 = k_procs (snd (save_context frame (syscall4 0xA path_ptr 12 args_ptr 0 c) k))"
proof -
  let ?regs = "syscall4 0xA path_ptr 12 args_ptr 0 c"
  define k1 where "k1 = snd (save_context frame ?regs k)"
  have exec: "call_of 10 = Some EXEC" by (simp add: call_of_def all_calls_def)
  have save: "save_context frame ?regs k = (Ok (), k1)" by (simp add: k1_def save_context_eq [OF st])
  have lt: "cur_pid (k_procs k) < length (process_table (k_procs k))" using st unfolding stacked_def by linarith
  have same: "k_fss k1 = k_fss k" "k_files k1 = k_files k" by (simp_all add: k1_def save_context_eq [OF st])
  have read: "bytes_at par (unat path_ptr) 12 k1 = Ok (p, as_bytes path)"
    using path lt by (simp add: k1_def save_context_eq [OF st] bytes_at_def ptr_from_addr_def get_code_addr_def current_def index_def)
  obtain k2 where k2: "sys_spawn par path args_ptr 0 k1 = Some (start_process par bin args_ptr 0 k2)" "k_procs k2 = k_procs k1"
    using spawn [OF same] by blast
  have "dispatch par 10 (unat path_ptr) 12 (unat args_ptr) 0 k1 = Some (start_process par bin args_ptr 0 k2)"
    using read k2(1) by (simp add: dispatch_def exec utf8_from_raw_parts_def char_of_as_bytes)
  moreover have "unat (rax ?regs) = 10" "unat (rdi ?regs) = unat path_ptr" "unat (rsi ?regs) = 12" "unat (rdx ?regs) = unat args_ptr"
    "unat (r8 ?regs) = 0" by (simp_all add: syscall4_def)
  ultimately have "syscall_handler par frame ?regs k =
      Some (bind (start_process par bin args_ptr 0) (after_dispatch frame ?regs) k2)"
    using save by (simp add: syscall_handler_def exec bind_def split: outcome.split prod.split)
  then show ?thesis using k2(2) by (auto simp: k1_def int_0x80_def IDT_syscall wrapped_handler_eq)
qed

section \<open>A sample machine\<close>

definition boot_env :: "(unit, unit, unit, pio Ata) Env" where
  "boot_env = \<lparr>e_clk = (\<lambda>_. 9), e_iter = (\<lambda>_. [(0, 1)]), e_ata = ata_write pio_io 10, e_fill = (\<lambda>_ n. (replicate n 4, ())),
     e_seed = (\<lambda>_. ()), e_heap_used = (\<lambda>_. 0), e_heap_size = (\<lambda>_. 0),
     e_mem = exec_memory\<lparr>mo_read := \<lambda>_ _ _. as_bytes ''/bin/hello.o''\<rparr>, e_parse = (\<lambda>_. None),
     e_empty_heap = (), e_heap_init = (\<lambda>_ _ h. h), e_alloc = (\<lambda>_ _. ret 0), e_free = (\<lambda>_ _ _. ret ()),
     e_shutdown = Some, e_now = 7, e_ticks = [0], e_tscs = [5], e_tsc_freq = 1000000\<rparr>"

text \<open>A computer without ACPI.\<close>

definition sample_hardware :: "(pio, (u64 \<Rightarrow> nat \<Rightarrow> entry_frame) \<times> u64, u64 \<rightharpoonup> u64, unit, nat) Hardware" where
  "sample_hardware = \<lparr>hw_io = pio_io, hw_limit = 10, hw_ticks = [0, 500, 1000], hw_tsc = (5, 1000005),
     hw_walk = window_walk, hw_tables = (sample_tables, 0x1000), hw_paging = table_paging, hw_heap_init = (\<lambda>_ _ h. h),
     hw_read = (\<lambda>_ n. replicate n 0), hw_aml = sample_aml, hw_acpi = Err ''NoValidRsdp'', hw_pit_handler = Suc,
     hw_keyboard_handler = id, hw_time = (\<lambda>_. ascii ''0.000000''), hw_place = (\<lambda>_. []),
     hw_features = \<lparr>trace_log = False, debug_log = False, info_log = True, warn_log = False, error_log = False\<rparr>,
     hw_ascii_art = True, bi_offset = 0x100000000, bi_memory_map = [heap_region]\<rparr>"

definition image_drive :: "u8 list \<Rightarrow> pio" where
  "image_drive img = \<lparr>sectors = (\<lambda>dev n. case image_sector (Some img) n of Some bs \<Rightarrow> bs | None \<Rightarrow> replicate 512 0),
     identity = (\<lambda>_. replicate 512 0), reg_lba0 = 0, reg_lba1 = 0, reg_lba2 = 0, reg_dev = 0, transfer = Idle\<rparr>"

definition sample_machine :: "u8 list \<Rightarrow> (unit, unit, unit, unit, pio, u64 \<rightharpoonup> u64, unit, nat) Machine" where
  "sample_machine img = \<lparr>
     kern = \<lparr>k_console = boot_console, k_polls = [], k_fss = Map.empty,
       k_disk = \<lparr>buses = [], last_selected = None, machine = image_drive img\<rparr>,
       k_procs = boot_procs 0x1000 () 0x1000000 (), k_users = None, k_files = [], k_errno = 0\<rparr>,
     mc_mem = \<lparr>allocated_frames = 0, tables = Map.empty\<rparr>, mc_heap = (),
     mc_acpi = \<lparr>pm1a_cnt_blk = 0, slp_typa = 0, statics = \<lparr>phys_offset = None, memory_map = None\<rparr>, acpi_log = []\<rparr>,
     mc_irqs = no_handlers, mc_tsc_frequency = 0, mc_screen = sample_writer\<rparr>"

lemma sample_machine_on: "powered_on (sample_machine img)" "attached img (sample_machine img)"
proof -
  have "length bs = 512" if "image_sector (Some img) n = Some bs" for n bs
    using that by (auto simp: image_sector_def split: if_splits)
  then show "powered_on (sample_machine img)"
    by (auto simp: powered_on_def sample_machine_def pio_drives_def image_drive_def BLOCK_SIZE_def no_handlers_def
        sample_writer_ok split: option.split)
  show "attached img (sample_machine img)"
    by (simp add: attached_def sample_machine_def image_drive_def)
qed

lemma sample_hardware_works: "hardware_works sample_hardware (sample_machine img)"
proof -
  show ?thesis using sample_memory_starts sleep_ticks_one
    by (auto simp: hardware_works_def sample_hardware_def sample_machine_def clk_sleep_def acpi_init_def modify_def)
qed

section \<open>Properties\<close>

text \<open>
  C1. From the loader to the first program. The loader makes an image of a list of files that has
  the entries of valid users in \<open>/etc/users\<close> and a program in \<open>/bin/hello.o\<close>. A machine that has it
  as the second drive of its first bus starts: \<open>init\<close> runs to its end, the users are exactly those of the
  file, the invariant of the kernel holds from then on through all calls and keys, and the system call of \<open>kmain\<close> starts a process from the bytes of the program, with the
  context of \<open>kmain\<close> saved for its return.
\<close>

theorem boots_image:
  assumes "loadable entries" and "(''/etc/users'', as_bytes (users_file us)) \<in> set entries"
    and "(''/bin/hello.o'', program) \<in> set entries"
    and "\<forall>u \<in> set us. valid_user u" and "length (users_file us) \<le> 1536"
    and "\<And>v. e_iter par [(0, 1) \<mapsto> v] = [(0, 1)]"
  shows "\<exists>img'. loader_main entries (Some img) = (Ok (), Some img') \<and>
    (\<forall>s. powered_on s \<longrightarrow> hardware_works hw s \<longrightarrow> attached img' s \<longrightarrow>
       mo_read (e_mem par) path_ptr 12 (memory (k_procs (kern s))) = as_bytes ''/bin/hello.o'' \<longrightarrow>
       (\<exists>s' k. kernel_init par hw s = Some (Ok (), s') \<and> k_users (kern s') = Some us \<and> screen_ok (mc_screen s') \<and>
          (\<forall>k'. (kernel_step par)\<^sup>*\<^sup>* (kern s') k' \<longrightarrow> kernel_ok k') \<and>
          kmain par hw frame c path_ptr args_ptr s = Some (bind (start_process par (pad_data program) args_ptr 0)
            (after_dispatch frame (syscall4 0xA path_ptr 12 args_ptr 0 c)) k) \<and>
          k_procs k = k_procs (snd (save_context frame (syscall4 0xA path_ptr 12 args_ptr 0 c) (kern s)))))"
proof -
  obtain img' fs where main: "loader_main entries (Some img) = (Ok (), Some img')" and fs: "disk_fs fs" "direct_fs fs"
    "length (fs_sectors fs) = 9217" "files fs = stored entries"
    and img: "image.holds (fs_sectors fs) (length (fs_sectors fs)) (Some img')"
    using loader_main_ok [OF assms(1)] by metis
  have "\<exists>s' k. kernel_init par hw s = Some (Ok (), s') \<and> k_users (kern s') = Some us \<and> screen_ok (mc_screen s') \<and>
      (\<forall>k'. (kernel_step par)\<^sup>*\<^sup>* (kern s') k' \<longrightarrow> kernel_ok k') \<and>
      kmain par hw frame c path_ptr args_ptr s = Some (bind (start_process par (pad_data program) args_ptr 0)
        (after_dispatch frame (syscall4 0xA path_ptr 12 args_ptr 0 c)) k) \<and>
      k_procs k = k_procs (snd (save_context frame (syscall4 0xA path_ptr 12 args_ptr 0 c) (kern s)))"
    if on: "powered_on s" and works: "hardware_works hw s" and disk: "attached img' s"
      and hello: "mo_read (e_mem par) path_ptr 12 (memory (k_procs (kern s))) = as_bytes ''/bin/hello.o''" for s
  proof -
    obtain s' where init: "kernel_init par hw s = Some (Ok (), s')" "k_users (kern s') = Some us"
      "k_fss (kern s') = [(0, 1) \<mapsto> \<lparr>phys_fs = fs, vf_bus = 0, vf_dsk = 1, open_files = []\<rparr>]"
      "k_procs (kern s') = k_procs (kern s)" "length (k_files (kern s')) \<le> 7" "screen_ok (mc_screen s')"
      "kernel_ok (kern s')"
      using kernel_init_ok [OF on works fs img disk assms(1,2,4,5,6)] by metis
    have procs: "\<exists>cr3 heap addr m. k_procs (kern s) = boot_procs cr3 heap addr m" using on by (simp add: powered_on_def)
    then have st: "stacked (k_procs (kern s'))" using init(4) stacked_boot by auto
    have path: "bytes_at par (unat path_ptr) 12 (kern s') = Ok (path_ptr, as_bytes ''/bin/hello.o'')"
      using procs hello by (auto simp: bytes_at_def init(4) ptr_from_addr_def get_code_addr_def current_def index_def
          boot_procs_def Process_new_def MAX_PROCS_def)
    note opens = image_file_opened [OF assms(1,3) fs(2,4), of "e_iter par" "flag_bits FlagRead", OF assms(6)]
    have small: "length (pad_data program) < 2 ^ 63" using assms(1,3) by (auto simp: loadable_def pad_data_prefix)
    have spawn: "\<exists>k2. sys_spawn par ''/bin/hello.o'' args_ptr 0 k1 = Some (start_process par (pad_data program) args_ptr 0 k2) \<and>
        k_procs k2 = k_procs k1"
      if "k_fss k1 = k_fss (kern s')" "k_files k1 = k_files (kern s')" for k1
      by (rule sys_spawn_file [of "''/bin/hello.o''" par k1 "FileHandle_new ''/bin/hello.o'' 0 1 (flag_bits FlagRead)"
            loaded_metadata "pad_data program" args_ptr 0])
        (use that opens small init(3,5) in \<open>auto simp: FileHandle_new_def fh_key_def\<close>)
    have same: "k_procs (snd (save_context frame regs (kern s'))) = k_procs (snd (save_context frame regs (kern s)))" for regs
      using st init(4) by (simp add: save_context_eq)
    from exec_trap [OF st path spawn, of frame c] show ?thesis
      using init(1,2,6) kernel_steps_ok [OF _ init(7)] by (auto simp: kmain_def same)
  qed
  then show ?thesis using main by blast
qed

theorem boots_image_witness:
  "\<exists>img s' k. loader_main [(''/etc/users'', as_bytes (users_file [sample_user])), (''/bin/hello.o'', BIN_MAGIC @ [0x90])] (Some []) =
      (Ok (), Some img) \<and>
    kernel_init boot_env sample_hardware (sample_machine img) = Some (Ok (), s') \<and> k_users (kern s') = Some [sample_user] \<and>
    kmain boot_env sample_hardware () (call_regs 0) 0x5000 0x6000 (sample_machine img) =
      Some (bind (start_process boot_env (pad_data (BIN_MAGIC @ [0x90])) 0x6000 0)
        (after_dispatch () (syscall4 0xA 0x5000 12 0x6000 0 (call_regs 0))) k)"
proof -
  let ?entries = "[(''/etc/users'', as_bytes (users_file [sample_user])), (''/bin/hello.o'', BIN_MAGIC @ [0x90])]"
  have small: "length (users_file [sample_user]) < 512" using sample_users_length by simp
  have entries: "loadable ?entries" using small
    by (simp add: loadable_def valid_name_def blocks_for_def blocks_needed_def BIN_MAGIC_def)
  have users: "\<forall>u \<in> set [sample_user]. valid_user u" using sample_user_valid by simp
  have iter: "e_iter boot_env [(0, 1) \<mapsto> v] = [(0, 1)]" for v by (simp add: boot_env_def)
  obtain img where main: "loader_main ?entries (Some []) = (Ok (), Some img)"
    and boot: "\<forall>s :: (unit, unit, unit, unit, pio, u64 \<rightharpoonup> u64, unit, nat) Machine. powered_on s \<longrightarrow>
      hardware_works sample_hardware s \<longrightarrow> attached img s \<longrightarrow>
      mo_read (e_mem boot_env) 0x5000 12 (memory (k_procs (kern s))) = as_bytes ''/bin/hello.o'' \<longrightarrow>
      (\<exists>s' k. kernel_init boot_env sample_hardware s = Some (Ok (), s') \<and> k_users (kern s') = Some [sample_user] \<and>
        screen_ok (mc_screen s') \<and> (\<forall>k'. (kernel_step boot_env)\<^sup>*\<^sup>* (kern s') k' \<longrightarrow> kernel_ok k') \<and>
        kmain boot_env sample_hardware () (call_regs 0) 0x5000 0x6000 s =
          Some (bind (start_process boot_env (pad_data (BIN_MAGIC @ [0x90])) 0x6000 0)
            (after_dispatch () (syscall4 0xA 0x5000 12 0x6000 0 (call_regs 0))) k) \<and>
        k_procs k = k_procs (snd (save_context () (syscall4 0xA 0x5000 12 0x6000 0 (call_regs 0)) (kern s))))"
    using boots_image [of ?entries "[sample_user]" "BIN_MAGIC @ [0x90]" boot_env "[]" sample_hardware "0x5000" "()" "call_regs 0" "0x6000",
        OF entries _ _ users] that small iter by auto
  have "mo_read (e_mem boot_env) 0x5000 12 (memory (k_procs (kern (sample_machine img)))) = as_bytes ''/bin/hello.o''"
    by (simp add: boot_env_def)
  with boot sample_machine_on sample_hardware_works main show ?thesis by blast
qed

end
