(* ===== verification/Spec2Isabelle.thy ===== *)
theory Spec2Isabelle
  imports Loader_Virt Fs_Indirect Fs_Errors Exec_Args Task Error_Text System Calls Tests Boot
begin

text \<open>
  A verification development for rustnix, a small Unix-like kernel in Rust (\<open>src/kernel\<close>), and for the
  program that makes its disk image (\<open>src/fs-loader\<close>).

  \<^bold>\<open>The program.\<close> The loader builds a filesystem in memory from a list of files and writes it to an image.
  The kernel starts its parts in order (\<open>lib.rs\<close>), mounts the image from the second drive of the first ATA bus,
  reads the users and starts \<open>/bin/hello.o\<close>. Programs call the kernel with \<open>int 0x80\<close>: the wrapper saves the
  registers, \<open>dispatch\<close> calls a service, and the service works on the table of open files, whose entries are
  file handles, devices or process information. A handle leads through the table of mounted filesystems to
  blocks and inodes in memory; \<open>flush\<close> writes them sector by sector through the ATA driver.
  \<open>EXEC\<close> reads a file, loads it into a new process and enters it; \<open>EXIT\<close> returns to its parent.

  \<^bold>\<open>How the code is modelled.\<close> A function on state is a program of type \<open>('s, 'e, 'a) prog\<close> (\<open>Prelude\<close>): it maps a
  state to an outcome (\<open>Ok\<close>, \<open>Err\<close> or \<open>Panic\<close>) and the state afterwards. The kernel is built with the debug
  profile, so that arithmetic overflow, an index out of range and a failed \<open>unwrap\<close> are \<open>Panic\<close>. Where a
  call may wait for ever the result is an option. Machine integers are words; \<open>usize\<close> is a natural number
  with its bound written out. Strings are the bytes of their UTF-8 form, characters 32-bit words;
  the floating-point operations of the clock round to 53 binary digits (\<open>F64\<close>). \<open>error!\<close> panics, as the logger does.

  \<^bold>\<open>Files and disks.\<close>
  \<^item> \<open>File_Types\<close>, \<open>Error_Text\<close> (\<open>file.rs\<close>): errors with their conversions and texts, flags, paths.
  \<^item> \<open>Phys_Fs\<close> (\<open>fs.rs\<close>, \<open>PhysFs\<close>): blocks, inodes, indirect pointers, files. \<open>Fs_Alloc\<close>, \<open>Fs_Files\<close>, \<open>Fs_Write\<close> prove that
    the invariant \<open>direct_fs\<close> is kept and that each operation refines one on the abstract store \<open>files\<close>, a map from
    padded names to metadata and contents; \<open>File_Store\<close> states the store as a locale and interprets it on the code.
    \<open>Fs_Errors\<close> proves how they fail when blocks or inodes run out, and what a failure leaves behind.
    \<open>Fs_Indirect\<close> is about files behind the direct pointers, which the code links wrongly.
  \<^item> \<open>Fs_Disk\<close>: the disk format. The locales \<open>sector_source\<close> and \<open>block_device\<close> are what it needs of a disk; they
    are interpreted on the image file (\<open>Loader\<close>) and on the ATA driver (\<open>Ata_Drive\<close>).
  \<^item> \<open>Virt_Fs\<close>, \<open>Virt_Facts\<close> (\<open>fs.rs\<close>, \<open>VirtFs\<close>): mounted filesystems and file handles.
  \<^item> \<open>Loader\<close>, \<open>Loader_Virt\<close> (\<open>fs-loader\<close>): the image, \<open>main\<close>, and the second copy of the virtual layer, compared with
    the kernel's.
  \<^item> \<open>Ports\<close>, \<open>Ata\<close>, \<open>Ata_Drive\<close>, \<open>Ata_Start\<close> (\<open>ata.rs\<close>): the driver over any ports, and on drives that follow the PIO
    protocol.

  \<^bold>\<open>Processes and calls.\<close>
  \<^item> \<open>Devices\<close>, \<open>Io\<close> (\<open>devices/\<close>, \<open>console.rs\<close>, \<open>io.rs\<close>): the devices, the console, and the streams over them.
  \<^item> \<open>Process\<close>, \<open>Exec_Args\<close> (\<open>process.rs\<close>): the process table, creation, layout and arguments of a process, exit.
  \<^item> \<open>Text\<close>, \<open>User\<close> (\<open>user.rs\<close>): numbers and lines as text, the users and their file.
  \<^item> \<open>Syscall\<close>, \<open>Syscall_Facts\<close> (\<open>syscall/\<close>): services and \<open>dispatch\<close>; \<open>kernel_step\<close> is the step relation of the kernel
    under calls and keys, with its invariant. The clocks read whatever they read during a call; \<open>SLEEP\<close> and \<open>WAIT\<close> loop over
    these readings.
  \<^item> \<open>Calls\<close>: what a program can rely on whatever arguments it passes: which calls answer, which stop the kernel, when \<open>SLEEP\<close>
    returns, where \<open>READ\<close> stores.
  \<^item> \<open>Interrupts\<close>, \<open>Trap\<close>, \<open>Segments\<close> (\<open>interrupts.rs\<close>, \<open>gdt.rs\<close>): handlers, page faults, the register convention of a call
    in both directions, segments, gates and the frame that enters user mode.
  \<^item> \<open>System\<close>: the running system as a step relation, the program on the processor interleaved with its system calls, keys
    and page faults. It refines an abstract specification of the contexts of the processes, of which the first runs and each
    other waits for the one before; what \<open>EXEC\<close> does not save is lost to the parent. The gate of the system call masks interrupts; the property on the console shows what
    follows for \<open>READ\<close>.
  \<^item> \<open>Memory\<close>, \<open>Paging\<close> (\<open>memory.rs\<close>, \<open>allocator.rs\<close>): frames, mappings, the kernel heap, the page walk. The locales
    \<open>page_mapper\<close> and \<open>virt_addr\<close> state the laws of the crate \<open>x86_64\<close>.
  \<^item> \<open>Task\<close> (\<open>task/\<close>): both executors; futures are a parameter.

  \<^bold>\<open>Screen, keys, clock, start.\<close>
  \<^item> \<open>Vga\<close>, \<open>Keyboard\<close>, \<open>Logger\<close> (\<open>vga.rs\<close>, \<open>keyboard.rs\<close>, \<open>lib.rs\<close>): the screen, the keyboard interrupt, log lines, test runner.
  \<^item> \<open>F64\<close>, \<open>Clk\<close> (\<open>clk/\<close>): rounding, calendar, ticks and time-stamp counter. \<open>Acpi\<close> (\<open>acpi.rs\<close>): tables and shutdown.
  \<^item> \<open>Boot\<close> (\<open>lib.rs\<close>, \<open>main.rs\<close>): \<open>init\<close> and \<open>kmain\<close> over the state of all parts, and the property that follows
    the files of the loader through disk, mount, users and \<open>EXEC\<close> into the first process.
  \<^item> \<open>Tests\<close>: the test cases inside the kernel as programs over the model, and that they pass.
  \<^item> This theory has a property that spans the filesystem and the disk format.

  \<^bold>\<open>Code outside the repository\<close> is a parameter: the environment \<open>Env\<close> (random numbers, heap allocator, ELF parser, user
  memory, iteration order of the mount table, time), \<open>Port_io\<close>, \<open>Paging\<close> and \<open>Walk\<close>, the decoder of the keyboard, the
  interpreter of ACPI tables, \<open>Gdt_ops\<close> and \<open>Gate_ops\<close>. Laws that a property needs of it are its hypotheses.

  \<^bold>\<open>Bounds.\<close> The refinement of the filesystem is for files of at most 11 data blocks, 5631 bytes, which the direct
  pointers hold: behind them the code is wrong, as \<open>Fs_Indirect\<close> shows. Names have at most 384 bytes, none of them
  NUL. The loader has 1024 inodes and 8192 blocks. A drive has \<open>2 ^ 28\<close> sectors, the part of a block number that
  reaches it. Polling a drive ends after a given number of status reads, in place of one second; the properties
  hold for any number. \<open>sleep\<close> and \<open>wait\<close> work on a list of readings of the counter and \<open>console\<close> reads on a list of keys that
  arrive per poll; that they return is proved for lists that reach the time or hold the keys, and that \<open>READ\<close> never returns for
  lists of any length. At most four processes exist, the bound of the table. The file of the
  users has at most 2048 bytes with its padding, the buffer of \<open>user::init\<close>.

  \<^bold>\<open>Not modelled.\<close> The programming of the interrupt controllers and the UART (crates \<open>pic8259\<close>, \<open>uart_16550\<close>); exception
  handlers that only print or panic; the glue of wakers and of the boot loader; locks, since the kernel runs
  on one processor and takes them without interrupts or for one operation; trace messages; the time
  printed in log lines, which is an argument; the tests of \<open>kernel/tests\<close>, which test the collections of the language and the
  processor; the walk of the loader over the directory of the host. The helpers of the loader's \<open>PhysFs\<close> are textual copies of the
  kernel's, and its operations are defined by them: a second set of definitions would say nothing new.
\<close>

section \<open>Filesystem and disk\<close>

text \<open>
  C27. After a deletion the filesystem cannot be written to disk any more: \<open>flush\<close> walks over
  as many inodes as the superblock says and panics behind the end of the shortened table.
\<close>

theorem flush_after_delete_panics:
  assumes "block_device rs sector ready (ata (word_of_nat (vf_bus fs)) (word_of_nat (vf_dsk fs))) cap"
    and "ready d" and "length (inode_table (phys_fs fs)) < cap"
    and "fss (fh_key h) = Some fs" and "direct_fs (phys_fs fs)" and "disk_fs (phys_fs fs)"
    and "valid_name name" and "files (phys_fs fs) (padded name) = Some (md, bytes)"
  shows "\<exists>fss'. vfs_delete (fh_key h) name fss = (Ok (), fss') \<and>
    fst (handle_flush ata fss' h d) = Panic"
proof -
  obtain p where run: "phys_delete name (phys_fs fs) = (Ok (), p)" and p: "direct_fs p"
    and short: "length (inode_table p) < length (inode_table (phys_fs fs))"
    and sb: "superblock p = superblock (phys_fs fs)"
    using phys_delete_refines [OF assms(5,7,8)] by blast
  have "fst (write_to_disk (ata (word_of_nat (vf_bus fs)) (word_of_nat (vf_dsk fs))) p d) = Panic"
    unfolding write_to_disk_def
    using short assms(3,6) inode_sector_ok
    by (intro block_device.write_sectors_short_table [OF assms(1) direct_fs_wf [OF p] assms(2)])
      (auto simp: sb disk_fs_def)
  then have "fst (handle_flush ata (fss(fh_key h \<mapsto> fs\<lparr>phys_fs := p\<rparr>)) h d) = Panic"
    by (auto simp: handle_flush_def run_simps get_fs_def split: prod.splits)
  then show ?thesis using assms(4) run by (auto simp: vfs_delete_def on_phys_ok)
qed

lemma sample_disk_fs: "disk_fs sample_file_fs"
  using direct_fs_wf [OF sample_file_fs_facts(1)] wf_fs_length [OF direct_fs_wf [OF sample_file_fs_facts(1)]]
  by (simp add: disk_fs_def sample_file_fs_facts) (simp add: sample_fs_def)

theorem flush_after_delete_panics_witness:
  "\<exists>fss'. vfs_delete (0, 1) ''/a'' sample_mount = (Ok (), fss') \<and>
    fst (handle_flush (\<lambda>_ _. loader_write_sector) fss' sample_handle (Some [])) = Panic"
proof -
  have dev: "block_device loader_read_sector image_sector image_ready
      ((\<lambda>_ _. loader_write_sector) (word_of_nat (vf_bus sample_vfs)) (word_of_nat (vf_dsk sample_vfs))) (2 ^ 32)"
    using image.block_device_axioms by simp
  have "image_ready (Some [])" by (simp add: image_ready_def)
  moreover have "sample_mount (fh_key sample_handle) = Some sample_vfs"
    by (simp add: sample_mount_at del: One_nat_def)
  moreover have "disk_fs (phys_fs sample_vfs)" by (simp add: sample_mount_at sample_disk_fs)
  moreover from this have "length (inode_table (phys_fs sample_vfs)) < 2 ^ 32" by (simp add: disk_fs_def)
  ultimately show ?thesis
    using flush_after_delete_panics [where name = "''/a''" and h = sample_handle, OF dev _ _ _
        sample_mount_file(1) _ sample_mount_file(2,3), of "Some []" sample_mount]
    by simp
qed

end
